(* ===== verification/Prelude.thy ===== *)
theory Prelude
  imports Complex_Main "HOL-Library.Sublist" "HOL-Library.AList" "HOL-Library.Countable"
begin

text \<open>
  Shared vocabulary of the Testudo development.

  \<^item> Python exceptions as values: the datatype \<open>exn\<close> has one constructor per exception
    class the modelled code raises or catches, \<open>is_ValueError\<close> is the subclass test that an
    \<open>except ValueError\<close> clause performs. A fallible function returns \<open>exn + 'a\<close>.
  \<^item> Dynamically typed Python values as \<open>pyval\<close>: what \<open>json.loads\<close> yields, with floats as
    exact rationals and a dict as an association list in insertion order.
  \<^item> The string methods the sources use (\<open>split\<close>, \<open>strip\<close>, \<open>lower\<close>, \<open>upper\<close>, \<open>repr\<close>,
    \<open>PurePosixPath.parts\<close>). A Python string is a list of 8-bit characters; case mapping is
    the ASCII one.
  \<^item> The locales \<open>guarded_machine\<close> and \<open>stamped_machine\<close>: what a component with state gains
    from a step that keeps its invariant, and from a step that stamps its answers with a
    growing counter. Every stateful component interprets them.
\<close>

named_theorems py_defs \<open>definitions of the Python string and path helpers\<close>
named_theorems step_defs \<open>definitions of a component's operations, unfolded in step proofs\<close>

section \<open>Exceptions as values\<close>

datatype exn =
    ValueError string
  | TypeError string
  | KeyError string
  | AttributeError string
  | OSError string
  | RuntimeError string
  | PolicyValidationError string
  | CapabilityError string
  | WorkerTerminated string
  | TransportError string
  | BrokerError string
  | WorkflowError string
  | AssignmentError string
  | PermissionDenied string string string
  | ScanRejected string string
  | HTTPException int string
  | ToolError string string
  | ValidationError string
  | JSONDecodeError string
  | UnicodeDecodeError string
  | IndexError string
  | ConflictError string
  | StoreCorruptError string
  | LocalGuardError string
  | SeatError string
  | InvalidSystemdState string
  | ApiError string string
  | KeyProbeError string
  | SshResolveError string
  | AssertionError string
  | ProcessDied

text \<open>\<open>isinstance(exc, ValueError)\<close>: the classes that derive from \<open>ValueError\<close>.\<close>

fun is_ValueError :: "exn \<Rightarrow> bool" where
  "is_ValueError (ValueError _) = True"
| "is_ValueError (PolicyValidationError _) = True"
| "is_ValueError (CapabilityError _) = True"
| "is_ValueError (TransportError _) = True"
| "is_ValueError (BrokerError _) = True"
| "is_ValueError (ValidationError _) = True"
| "is_ValueError (JSONDecodeError _) = True"
| "is_ValueError (UnicodeDecodeError _) = True"
| "is_ValueError _ = False"

text \<open>\<open>str(exc)\<close> for the classes that carry one message.\<close>

fun exn_msg :: "exn \<Rightarrow> string" where
  "exn_msg (ValueError m) = m"
| "exn_msg (TypeError m) = m"
| "exn_msg (KeyError m) = m"
| "exn_msg (AttributeError m) = m"
| "exn_msg (OSError m) = m"
| "exn_msg (RuntimeError m) = m"
| "exn_msg (PolicyValidationError m) = m"
| "exn_msg (CapabilityError m) = m"
| "exn_msg (WorkerTerminated m) = m"
| "exn_msg (TransportError m) = m"
| "exn_msg (BrokerError m) = m"
| "exn_msg (WorkflowError m) = m"
| "exn_msg (AssignmentError m) = m"
| "exn_msg (PermissionDenied op target reason) = reason"
| "exn_msg (ScanRejected path reason) = reason"
| "exn_msg (HTTPException code detail) = detail"
| "exn_msg (ToolError name msg) = msg"
| "exn_msg (ValidationError m) = m"
| "exn_msg (JSONDecodeError m) = m"
| "exn_msg (UnicodeDecodeError m) = m"
| "exn_msg (IndexError m) = m"
| "exn_msg (ConflictError m) = m"
| "exn_msg (StoreCorruptError m) = m"
| "exn_msg (LocalGuardError m) = m"
| "exn_msg (SeatError m) = m"
| "exn_msg (InvalidSystemdState m) = m"
| "exn_msg (ApiError code m) = m"
| "exn_msg (KeyProbeError m) = m"
| "exn_msg (SshResolveError m) = m"
| "exn_msg (AssertionError m) = m"
| "exn_msg ProcessDied = []"

text \<open>Sequencing of computations that may raise.\<close>

definition rbind :: "'e + 'a \<Rightarrow> ('a \<Rightarrow> 'e + 'b) \<Rightarrow> 'e + 'b" where
  "rbind m f = (case m of Inl e \<Rightarrow> Inl e | Inr x \<Rightarrow> f x)"

lemma rbind_simps [simp]:
  "rbind (Inl e) f = Inl e"
  "rbind (Inr x) f = f x"
  by (simp_all add: rbind_def)

lemma rbind_eq_Inr [simp]:
  "rbind m f = Inr y \<longleftrightarrow> (\<exists>x. m = Inr x \<and> f x = Inr y)"
  by (cases m) simp_all

lemma rbindE: "rbind m f = Inr y \<Longrightarrow> (\<And>x. m = Inr x \<Longrightarrow> f x = Inr y \<Longrightarrow> P) \<Longrightarrow> P"
  by (auto simp: rbind_eq_Inr)

lemma rbind_eq_Inl:
  "rbind m f = Inl e \<longleftrightarrow> m = Inl e \<or> (\<exists>x. m = Inr x \<and> f x = Inl e)"
  by (cases m) simp_all

text \<open>
  A method that reads and writes its object's state and may raise: the state it leaves behind
  is kept also when it raises, as a Python object keeps the assignments made before the
  exception.
\<close>

type_synonym ('s, 'a) act = "'s \<Rightarrow> (exn + 'a) \<times> 's"

definition aret :: "'a \<Rightarrow> ('s, 'a) act" where
  "aret x s = (Inr x, s)"

definition araise :: "exn \<Rightarrow> ('s, 'a) act" where
  "araise e s = (Inl e, s)"

definition abind :: "('s, 'a) act \<Rightarrow> ('a \<Rightarrow> ('s, 'b) act) \<Rightarrow> ('s, 'b) act" where
  "abind m f s = (case m s of (Inl e, s') \<Rightarrow> (Inl e, s') | (Inr x, s') \<Rightarrow> f x s')"

text \<open>A computation that raises or returns without touching the state.\<close>

definition alift :: "exn + 'a \<Rightarrow> ('s, 'a) act" where
  "alift m s = (m, s)"

text \<open>An assignment \<open>self.x = ...\<close>.\<close>

definition aset :: "('s \<Rightarrow> 's) \<Rightarrow> ('s, unit) act" where
  "aset f s = (Inr (), f s)"

text \<open>Continue with a computation that depends on the current state.\<close>

definition awith :: "('s \<Rightarrow> ('s, 'a) act) \<Rightarrow> ('s, 'a) act" where
  "awith f s = f s s"

lemma act_simps [simp]:
  "aret x s = (Inr x, s)"
  "araise e s = (Inl e, s)"
  "alift m s = (m, s)"
  "aset f s = (Inr (), f s)"
  "awith g s = g s s"
  by (simp_all add: aret_def araise_def alift_def aset_def awith_def)

lemma abind_simps [simp]:
  "m s = (Inl e, s') \<Longrightarrow> abind m h s = (Inl e, s')"
  "m s = (Inr x, s') \<Longrightarrow> abind m h s = h x s'"
  by (simp_all add: abind_def)

lemma abind_Inr_iff:
  "abind m f s = (Inr y, s') \<longleftrightarrow> (\<exists>x s1. m s = (Inr x, s1) \<and> f x s1 = (Inr y, s'))"
  by (auto simp: abind_def split: prod.splits sum.splits)

lemma abindE:
  assumes "abind m f s = (r, s')"
  obtains e where "m s = (Inl e, s')" "r = Inl e"
  | x s1 where "m s = (Inr x, s1)" "f x s1 = (r, s')"
  using assms by (auto simp: abind_def split: prod.splits sum.splits)

text \<open>
  \<open>try: m finally: f\<close>: the clean-up runs in either case; an exception of its own replaces
  the outcome of the body.
\<close>

definition afinally :: "('s, 'a) act \<Rightarrow> ('s, unit) act \<Rightarrow> ('s, 'a) act" where
  "afinally m f s = (case m s of (r, s1) \<Rightarrow>
     (case f s1 of (Inl e, s2) \<Rightarrow> (Inl e, s2) | (Inr _, s2) \<Rightarrow> (r, s2)))"

text \<open>\<open>try: m except E as exc: h(exc)\<close>, with \<open>p\<close> the test for the class \<open>E\<close>.\<close>

definition acatch :: "(exn \<Rightarrow> bool) \<Rightarrow> ('s, 'a) act \<Rightarrow> (exn \<Rightarrow> ('s, 'a) act) \<Rightarrow> ('s, 'a) act" where
  "acatch p m h s = (case m s of (Inl e, s1) \<Rightarrow> (if p e then h e s1 else (Inl e, s1)) | r \<Rightarrow> r)"

text \<open>
  A method keeps a relation between the state before and after it, whether it returns or
  raises; the rules follow the structure of a method's body.
\<close>

definition keeps :: "('s \<Rightarrow> 's \<Rightarrow> bool) \<Rightarrow> ('s, 'a) act \<Rightarrow> bool" where
  "keeps R m \<longleftrightarrow> (\<forall>s. R s (snd (m s)))"

lemma keepsD: "keeps R m \<Longrightarrow> m s = (r, s') \<Longrightarrow> R s s'"
  by (metis keeps_def snd_conv)

lemma keeps_mono: "\<lbrakk>keeps R m; \<And>s s'. R s s' \<Longrightarrow> R' s s'\<rbrakk> \<Longrightarrow> keeps R' m"
  by (simp add: keeps_def)

lemma keeps_aret: "reflp R \<Longrightarrow> keeps R (aret x)"
  and keeps_araise: "reflp R \<Longrightarrow> keeps R (araise e)"
  and keeps_alift: "reflp R \<Longrightarrow> keeps R (alift m)"
  by (simp_all add: keeps_def reflp_def)

lemma keeps_aset: "(\<And>s. R s (f s)) \<Longrightarrow> keeps R (aset f)"
  by (simp add: keeps_def)

lemma keeps_awith: "(\<And>s. keeps R (g s)) \<Longrightarrow> keeps R (awith g)"
  by (simp add: keeps_def)

lemma keeps_abind:
  assumes "transp R" and "keeps R m" and "\<And>x. keeps R (f x)"
  shows "keeps R (abind m f)"
  unfolding keeps_def
proof
  fix s
  obtain r s1 where m: "m s = (r, s1)" by (cases "m s")
  show "R s (snd (abind m f s))"
  proof (cases r)
    case (Inl e)
    with m assms(2) show ?thesis by (auto dest: keepsD)
  next
    case (Inr x)
    have "R s s1" using assms(2) m by (rule keepsD)
    moreover have "R s1 (snd (f x s1))" using assms(3) by (simp add: keeps_def)
    ultimately have "R s (snd (f x s1))" using assms(1) by (blast dest: transpD)
    with Inr m show ?thesis by simp
  qed
qed

lemma keeps_case_option:
  "\<lbrakk>keeps R f; \<And>x. keeps R (g x)\<rbrakk> \<Longrightarrow> keeps R (case v of None \<Rightarrow> f | Some x \<Rightarrow> g x)"
  by (cases v) auto

lemma keeps_case_sum:
  "\<lbrakk>\<And>x. keeps R (f x); \<And>x. keeps R (g x)\<rbrakk> \<Longrightarrow> keeps R (case v of Inl x \<Rightarrow> f x | Inr x \<Rightarrow> g x)"
  by (cases v) auto

lemma keeps_case_prod: "(\<And>x y. keeps R (f x y)) \<Longrightarrow> keeps R (case v of (x, y) \<Rightarrow> f x y)"
  by (cases v) auto

lemma keeps_if: "\<lbrakk>b \<Longrightarrow> keeps R f; \<not> b \<Longrightarrow> keeps R g\<rbrakk> \<Longrightarrow> keeps R (if b then f else g)"
  by simp

lemma keeps_Let: "(\<And>x. keeps R (f x)) \<Longrightarrow> keeps R (let x = v in f x)"
  by simp

lemma keeps_afinally:
  assumes "transp R" and "keeps R m" and "keeps R f"
  shows "keeps R (afinally m f)"
  unfolding keeps_def afinally_def
proof
  fix s
  obtain r s1 where m: "m s = (r, s1)" by (cases "m s")
  obtain r2 s2 where f: "f s1 = (r2, s2)" by (cases "f s1")
  have "R s s2"
    using keepsD [OF assms(2) m] keepsD [OF assms(3) f] assms(1) by (blast dest: transpD)
  with m f show "R s (snd (case m s of (r, s1) \<Rightarrow>
      (case f s1 of (Inl e, s2) \<Rightarrow> (Inl e, s2) | (Inr _, s2) \<Rightarrow> (r, s2))))"
    by (simp split: sum.splits)
qed

lemma keeps_acatch:
  assumes "transp R" and "keeps R m" and "\<And>e. keeps R (h e)"
  shows "keeps R (acatch p m h)"
  unfolding keeps_def acatch_def
proof
  fix s
  obtain r s1 where m: "m s = (r, s1)" by (cases "m s")
  have 1: "R s s1" using keepsD [OF assms(2) m] .
  have "R s (snd (h e s1))" for e
    using 1 assms(1) assms(3) [of e] by (auto dest: transpD simp: keeps_def)
  with m 1 show "R s (snd (case m s of (Inl e, s1) \<Rightarrow> (if p e then h e s1 else (Inl e, s1)) | r \<Rightarrow> r))"
    by (simp split: sum.splits)
qed

lemmas keeps_rules = keeps_aret keeps_araise keeps_alift keeps_aset keeps_awith keeps_abind
  keeps_afinally keeps_acatch
  keeps_case_option keeps_case_sum keeps_case_prod keeps_if keeps_Let

text \<open>A list comprehension over a function that may raise stops at the first error.\<close>

fun rmap :: "('a \<Rightarrow> 'e + 'b) \<Rightarrow> 'a list \<Rightarrow> 'e + 'b list" where
  "rmap f [] = Inr []"
| "rmap f (x # xs) = rbind (f x) (\<lambda>y. rbind (rmap f xs) (\<lambda>ys. Inr (y # ys)))"

lemma rmap_Inr_iff:
  "rmap f xs = Inr ys \<longleftrightarrow> list_all2 (\<lambda>x y. f x = Inr y) xs ys"
  by (induction xs arbitrary: ys) (auto simp: list_all2_Cons1)

lemma rmap_Inr_set:
  assumes "rmap f xs = Inr ys" and "y \<in> set ys"
  shows "\<exists>x \<in> set xs. f x = Inr y"
  using assms by (induction xs arbitrary: ys) auto

lemma rmap_fixpoint: "(\<And>x. x \<in> set xs \<Longrightarrow> f x = Inr x) \<Longrightarrow> rmap f xs = Inr xs"
  by (induction xs) auto

section \<open>Dynamically typed values\<close>

datatype pyval =
    PNone
  | PBool bool
  | PInt int
  | PFloat rat
  | PStr string
  | PList "pyval list"
  | PDict "(string \<times> pyval) list"

type_synonym pydict = "(string \<times> pyval) list"

instance pyval :: countable
  by countable_datatype

text \<open>\<open>d.get(k)\<close>: a missing key reads as \<open>None\<close>.\<close>

definition dict_get :: "pydict \<Rightarrow> string \<Rightarrow> pyval" where
  "dict_get d k = (case map_of d k of None \<Rightarrow> PNone | Some v \<Rightarrow> v)"

text \<open>
  \<open>d[k] = v\<close> is \<open>AList.update k v d\<close>: an existing key keeps its place, a new one is appended.
\<close>

lemma update_fresh: "k \<notin> fst ` set d \<Longrightarrow> AList.update k v d = d @ [(k, v)]"
  by (induction d) auto

text \<open>\<open>bool(v)\<close>.\<close>

fun truthy :: "pyval \<Rightarrow> bool" where
  "truthy PNone = False"
| "truthy (PBool b) = b"
| "truthy (PInt n) = (n \<noteq> 0)"
| "truthy (PFloat q) = (q \<noteq> 0)"
| "truthy (PStr s) = (s \<noteq> [])"
| "truthy (PList xs) = (xs \<noteq> [])"
| "truthy (PDict d) = (d \<noteq> [])"

section \<open>Strings\<close>

abbreviation slash :: char where "slash \<equiv> CHR ''/''"
abbreviation dot :: char where "dot \<equiv> CHR ''.''"

fun split_on :: "'a \<Rightarrow> 'a list \<Rightarrow> 'a list list" where
  "split_on c [] = [[]]"
| "split_on c (x # xs) =
     (if x = c then [] # split_on c xs
      else (case split_on c xs of [] \<Rightarrow> [[x]] | y # ys \<Rightarrow> (x # y) # ys))"

fun join_with :: "'a \<Rightarrow> 'a list list \<Rightarrow> 'a list" where
  "join_with c [] = []"
| "join_with c [p] = p"
| "join_with c (p # q # ps) = p @ c # join_with c (q # ps)"

lemma split_on_not_Nil [simp]: "split_on c s \<noteq> []"
  by (induction s) (auto split: list.splits)

lemma split_on_sep_free: "p \<in> set (split_on c s) \<Longrightarrow> c \<notin> set p"
proof (induction s arbitrary: p)
  case (Cons x xs)
  then show ?case
    by (cases "split_on c xs") (auto split: if_splits)
qed simp

lemma join_with_Cons_hd: "join_with c ((x # p) # ps) = x # join_with c (p # ps)"
  by (cases ps) simp_all

lemma join_with_Cons_Nil: "ps \<noteq> [] \<Longrightarrow> join_with c ([] # ps) = c # join_with c ps"
  by (cases ps) simp_all

lemma join_split_on: "join_with c (split_on c s) = s"
  by (induction s) (auto simp: join_with_Cons_hd join_with_Cons_Nil split: list.splits)

lemma split_on_free [simp]: "c \<notin> set s \<Longrightarrow> split_on c s = [s]"
  by (induction s) auto

lemma split_on_append_sep:
  "c \<notin> set p \<Longrightarrow> split_on c (p @ c # s) = p # split_on c s"
  by (induction p) auto

lemma split_on_append: "split_on c (a @ c # b) = split_on c a @ split_on c b"
  by (induction a) (auto split: list.splits)

lemma split_join:
  "\<lbrakk>ps \<noteq> []; \<forall>p \<in> set ps. c \<notin> set p\<rbrakk> \<Longrightarrow> split_on c (join_with c ps) = ps"
  by (induction c ps rule: join_with.induct) (auto simp: split_on_append_sep)

lemma set_split_on: "p \<in> set (split_on c s) \<Longrightarrow> set p \<subseteq> set s"
proof (induction s arbitrary: p)
  case (Cons x xs)
  then show ?case
    by (cases "split_on c xs") (fastforce split: if_splits)+
qed simp

lemma join_with_append:
  "\<lbrakk>us \<noteq> []; vs \<noteq> []\<rbrakk> \<Longrightarrow> join_with c (us @ vs) = join_with c us @ c # join_with c vs"
  by (induction c us rule: join_with.induct) (auto simp: neq_Nil_conv)

lemma split_on_cover: "x \<in> set s \<Longrightarrow> x \<noteq> c \<Longrightarrow> \<exists>p \<in> set (split_on c s). x \<in> set p"
proof (induction s)
  case (Cons y s)
  show ?case
  proof (cases "x \<in> set s")
    case True
    with Cons show ?thesis by (cases "split_on c s") auto
  next
    case False
    with Cons.prems show ?thesis by (auto split: list.splits)
  qed
qed simp

lemma concat_sep: "ps \<noteq> [] \<Longrightarrow> concat (map (\<lambda>p. c # p) ps) = c # join_with c ps"
  by (induction c ps rule: join_with.induct) simp_all

text \<open>An empty part comes from a separator at an end or from two adjacent separators.\<close>

lemma empty_part_cases:
  assumes "[] \<in> set (split_on c s)"
  shows "s = [] \<or> prefix [c] s \<or> suffix [c] s \<or> sublist [c, c] s"
proof -
  from assms obtain us vs where parts: "split_on c s = us @ [] # vs"
    by (meson split_list)
  have s: "s = join_with c (us @ [] # vs)"
    using join_split_on [of c s] parts by simp
  show ?thesis
  proof (cases "us = []")
    case True
    with s show ?thesis by (cases vs) (auto simp: join_with_Cons_Nil)
  next
    case us: False
    then have "s = join_with c us @ c # join_with c ([] # vs)"
      using s join_with_append [of us "[] # vs" c] by simp
    then show ?thesis
      by (cases vs) (auto simp: join_with_Cons_Nil suffix_def sublist_def)
  qed
qed

text \<open>\<open>str.isspace\<close> on one 8-bit character.\<close>

definition py_isspace :: "char \<Rightarrow> bool" where
  "py_isspace c \<longleftrightarrow> (let n = (of_char c :: nat) in
     (9 \<le> n \<and> n \<le> 13) \<or> (28 \<le> n \<and> n \<le> 32) \<or> n = 133 \<or> n = 160)"

definition py_strip :: "string \<Rightarrow> string" where
  "py_strip s = rev (dropWhile py_isspace (rev (dropWhile py_isspace s)))"

text \<open>\<open>s.rstrip(".")\<close> and \<open>s.lstrip("/")\<close>.\<close>

definition rstrip_char :: "char \<Rightarrow> string \<Rightarrow> string" where
  "rstrip_char c s = rev (dropWhile (\<lambda>x. x = c) (rev s))"

definition lstrip_char :: "char \<Rightarrow> string \<Rightarrow> string" where
  "lstrip_char c s = dropWhile (\<lambda>x. x = c) s"

definition char_lower :: "char \<Rightarrow> char" where
  "char_lower c = (let n = (of_char c :: nat) in
     if 65 \<le> n \<and> n \<le> 90 then char_of (n + 32) else c)"

definition char_upper :: "char \<Rightarrow> char" where
  "char_upper c = (let n = (of_char c :: nat) in
     if 97 \<le> n \<and> n \<le> 122 then char_of (n - 32) else c)"

definition py_lower :: "string \<Rightarrow> string" where "py_lower s = map char_lower s"
definition py_upper :: "string \<Rightarrow> string" where "py_upper s = map char_upper s"

definition ascii_alnum :: "char \<Rightarrow> bool" where
  "ascii_alnum c \<longleftrightarrow> (let n = (of_char c :: nat) in
     (48 \<le> n \<and> n \<le> 57) \<or> (65 \<le> n \<and> n \<le> 90) \<or> (97 \<le> n \<and> n \<le> 122))"

definition ascii_digit :: "char \<Rightarrow> bool" where
  "ascii_digit c \<longleftrightarrow> (let n = (of_char c :: nat) in 48 \<le> n \<and> n \<le> 57)"

definition lower_hex :: "char \<Rightarrow> bool" where
  "lower_hex c \<longleftrightarrow> (let n = (of_char c :: nat) in
     (48 \<le> n \<and> n \<le> 57) \<or> (97 \<le> n \<and> n \<le> 102))"

definition hex_string :: "nat \<Rightarrow> string \<Rightarrow> bool" where
  "hex_string n s \<longleftrightarrow> length s = n \<and> list_all lower_hex s"

lemmas [py_defs] = py_isspace_def py_strip_def rstrip_char_def lstrip_char_def
  char_lower_def char_upper_def py_lower_def py_upper_def ascii_alnum_def ascii_digit_def
  lower_hex_def hex_string_def

lemma char_lower_idem [simp]: "char_lower (char_lower c) = char_lower c"
  by (auto simp: char_lower_def Let_def)

lemma py_lower_idem [simp]: "py_lower (py_lower s) = py_lower s"
  by (simp add: py_lower_def)

lemma char_upper_idem [simp]: "char_upper (char_upper c) = char_upper c"
  by (auto simp: char_upper_def Let_def)

lemma py_upper_idem [simp]: "py_upper (py_upper s) = py_upper s"
  by (simp add: py_upper_def)

lemma rstrip_char_idem [simp]: "rstrip_char c (rstrip_char c s) = rstrip_char c s"
  by (simp add: rstrip_char_def dropWhile_idem)

lemma rstrip_char_not_last: "rstrip_char c s \<noteq> [] \<Longrightarrow> last (rstrip_char c s) \<noteq> c"
  unfolding rstrip_char_def
  by (metis (mono_tags) hd_dropWhile last_rev rev_is_Nil_conv)

text \<open>\<open>s.replace(old, new)\<close>: every non-overlapping occurrence, from the left.\<close>

function py_replace :: "string \<Rightarrow> string \<Rightarrow> string \<Rightarrow> string" where
  "py_replace old new s =
     (if old = [] \<or> s = [] then s
      else if prefix old s then new @ py_replace old new (drop (length old) s)
      else hd s # py_replace old new (tl s))"
  by auto
termination
  by (relation "measure (\<lambda>(old, new, s). length s)") auto

declare py_replace.simps [simp del]

lemma py_replace_Cons1:
  "py_replace [c] new (x # xs) = (if x = c then new else [x]) @ py_replace [c] new xs"
  by (simp add: py_replace.simps [of "[c]" new "x # xs"] prefix_Cons)

lemma py_replace_absent: "c \<notin> set s \<Longrightarrow> py_replace [c] new s = s"
  by (induction s) (auto simp: py_replace_Cons1 py_replace.simps [of _ _ "[]"])

text \<open>\<open>repr\<close> of a string, as f-strings with \<open>!r\<close> print it.\<close>

definition hex_digit :: "nat \<Rightarrow> char" where
  "hex_digit n = (if n < 10 then char_of (48 + n) else char_of (87 + n))"

definition repr_char :: "char \<Rightarrow> char \<Rightarrow> string" where
  "repr_char q c = (let n = (of_char c :: nat) in
     if n = 92 \<or> c = q then [CHR 0x5C, c]
     else if n = 9 then [CHR 0x5C, CHR ''t'']
     else if n = 10 then [CHR 0x5C, CHR ''n'']
     else if n = 13 then [CHR 0x5C, CHR ''r'']
     else if n < 32 \<or> (127 \<le> n \<and> n \<le> 160) \<or> n = 173
       then [CHR 0x5C, CHR ''x'', hex_digit (n div 16), hex_digit (n mod 16)]
     else [c])"

definition py_repr :: "string \<Rightarrow> string" where
  "py_repr s =
     (let sq = CHR 0x27; dq = CHR 0x22;
          q = (if sq \<in> set s \<and> dq \<notin> set s then dq else sq)
      in q # concat (map (repr_char q) s) @ [q])"

text \<open>\<open>str(exc)\<close>: a \<open>KeyError\<close> prints the \<open>repr\<close> of its argument. And \<open>type(exc).__name__\<close>.\<close>

fun exn_str :: "exn \<Rightarrow> string" where
  "exn_str (KeyError m) = py_repr m"
| "exn_str (PermissionDenied op target reason) =
     ''PermissionDenied: '' @ op @ '' '' @ py_repr target @ '' ('' @ reason @ '')''"
| "exn_str (ScanRejected path reason) = ''ScanRejected: '' @ py_repr path @ '' ('' @ reason @ '')''"
| "exn_str e = exn_msg e"

fun exn_name :: "exn \<Rightarrow> string" where
  "exn_name (ValueError _) = ''ValueError''"
| "exn_name (TypeError _) = ''TypeError''"
| "exn_name (KeyError _) = ''KeyError''"
| "exn_name (AttributeError _) = ''AttributeError''"
| "exn_name (OSError _) = ''OSError''"
| "exn_name (RuntimeError _) = ''RuntimeError''"
| "exn_name (PolicyValidationError _) = ''PolicyValidationError''"
| "exn_name (CapabilityError _) = ''CapabilityError''"
| "exn_name (WorkerTerminated _) = ''WorkerTerminated''"
| "exn_name (TransportError _) = ''TransportError''"
| "exn_name (BrokerError _) = ''BrokerError''"
| "exn_name (WorkflowError _) = ''WorkflowError''"
| "exn_name (AssignmentError _) = ''AssignmentError''"
| "exn_name (PermissionDenied _ _ _) = ''PermissionDenied''"
| "exn_name (ScanRejected _ _) = ''ScanRejected''"
| "exn_name (HTTPException _ _) = ''HTTPException''"
| "exn_name (ToolError name _) = name"
| "exn_name (ValidationError _) = ''ValidationError''"
| "exn_name (JSONDecodeError _) = ''JSONDecodeError''"
| "exn_name (UnicodeDecodeError _) = ''UnicodeDecodeError''"
| "exn_name (IndexError _) = ''IndexError''"
| "exn_name (ConflictError _) = ''ConflictError''"
| "exn_name (StoreCorruptError _) = ''StoreCorruptError''"
| "exn_name (LocalGuardError _) = ''LocalGuardError''"
| "exn_name (SeatError _) = ''SeatError''"
| "exn_name (InvalidSystemdState _) = ''InvalidSystemdState''"
| "exn_name (ApiError _ _) = ''ApiError''"
| "exn_name (KeyProbeError _) = ''KeyProbeError''"
| "exn_name (SshResolveError _) = ''SshResolveError''"
| "exn_name (AssertionError _) = ''AssertionError''"
| "exn_name ProcessDied = ''SystemExit''"

text \<open>\<open>str(n)\<close> of an integer.\<close>

fun nat_str :: "nat \<Rightarrow> string" where
  "nat_str n = (if n < 10 then [char_of (48 + n)] else nat_str (n div 10) @ [char_of (48 + n mod 10)])"

declare nat_str.simps [simp del]

definition int_str :: "int \<Rightarrow> string" where
  "int_str i = (if i < 0 then CHR ''-'' # nat_str (nat (- i)) else nat_str (nat i))"

text \<open>
  The value of a string of decimal digits, and \<open>int(s)\<close>: a sign, digits with single underscores
  between them, at most 4300 of them, and blanks around.
\<close>

definition digit_val :: "char \<Rightarrow> int" where
  "digit_val c = int (of_char c) - 48"

definition int_of_str :: "string \<Rightarrow> int" where
  "int_of_str s = foldl (\<lambda>a c. a * 10 + digit_val c) 0 s"

fun int_digits :: "string \<Rightarrow> bool" where
  "int_digits [] = False"
| "int_digits [c] = ascii_digit c"
| "int_digits (c # d # cs) =
     (ascii_digit c \<and> (if d = CHR ''_'' then int_digits cs else int_digits (d # cs)))"

definition py_int :: "string \<Rightarrow> int option" where
  "py_int s = (let t = py_strip s; body = (if t \<noteq> [] \<and> hd t \<in> {CHR ''+'', CHR ''-''} then tl t else t) in
     if int_digits body \<and> length (filter ascii_digit body) \<le> 4300
     then Some ((if prefix ''-'' t then - 1 else 1) * int_of_str (filter ascii_digit body))
     else None)"

text \<open>\<open>s.splitlines()\<close>: a carriage return with a line feed is one line break.\<close>

definition line_break :: "char \<Rightarrow> bool" where
  "line_break c \<longleftrightarrow> (of_char c :: nat) \<in> {10, 11, 12, 13, 28, 29, 30, 133}"

fun py_splitlines :: "string \<Rightarrow> string list" where
  "py_splitlines [] = []"
| "py_splitlines (c # cs) =
     (if c = CHR 0x0D \<and> prefix [CHR 0x0A] cs then py_splitlines cs
      else if line_break c then [] # py_splitlines cs
      else (case py_splitlines cs of [] \<Rightarrow> [[c]] | l # ls \<Rightarrow> (c # l) # ls))"

text \<open>\<open>s.split()\<close>, \<open>s.partition(c)\<close> when \<open>c\<close> occurs, \<open>a in s\<close>, and the length of \<open>s.encode("utf-8")\<close>.\<close>

fun py_split :: "string \<Rightarrow> string list" where
  "py_split [] = []"
| "py_split (c # cs) = (if py_isspace c then py_split cs
     else if cs = [] \<or> py_isspace (hd cs) then [c] # py_split cs
     else (case py_split cs of w # ws \<Rightarrow> (c # w) # ws | [] \<Rightarrow> [[c]]))"

definition py_partition :: "char \<Rightarrow> string \<Rightarrow> (string \<times> string) option" where
  "py_partition c s = (if c \<in> set s then Some (takeWhile (\<lambda>x. x \<noteq> c) s, tl (dropWhile (\<lambda>x. x \<noteq> c) s)) else None)"

fun py_contains :: "string \<Rightarrow> string \<Rightarrow> bool" where
  "py_contains a [] = (a = [])"
| "py_contains a (c # cs) = (prefix a (c # cs) \<or> py_contains a cs)"

definition utf8_len :: "string \<Rightarrow> int" where
  "utf8_len s = (\<Sum>c\<leftarrow>s. if (of_char c :: nat) < 128 then 1 else 2)"

text \<open>\<open>", ".join(xs)\<close>.\<close>

fun comma_join :: "string list \<Rightarrow> string" where
  "comma_join [] = []"
| "comma_join [x] = x"
| "comma_join (x # y # ys) = x @ '', '' @ comma_join (y # ys)"

section \<open>Paths\<close>

text \<open>
  \<open>PurePosixPath(s).parts\<close>: the root (two leading slashes, and only two, are kept as such)
  followed by the components, without the empty ones and without \<open>.\<close>.
\<close>

definition path_comps :: "string \<Rightarrow> string list" where
  "path_comps s = filter (\<lambda>p. p \<noteq> [] \<and> p \<noteq> ''.'') (split_on slash s)"

definition posix_parts :: "string \<Rightarrow> string list" where
  "posix_parts s =
     (if prefix ''//'' s \<and> \<not> prefix ''///'' s then [''//'']
      else if prefix ''/'' s then [''/''] else []) @ path_comps s"

text \<open>
  An absolute host path is the list of its components; \<open>abs_str\<close> is \<open>str(path)\<close>, and
  \<open>path_comps\<close> reads such a string back.
\<close>

type_synonym hpath = "string list"

definition abs_str :: "hpath \<Rightarrow> string" where
  "abs_str p = (if p = [] then ''/'' else concat (map (\<lambda>c. slash # c) p))"

definition comp_ok :: "string \<Rightarrow> bool" where
  "comp_ok c \<longleftrightarrow> c \<noteq> [] \<and> c \<noteq> ''.'' \<and> slash \<notin> set c"

lemma split_on_concat_slash:
  "list_all comp_ok p \<Longrightarrow> split_on slash (concat (map (\<lambda>c. slash # c) p)) = [] # p"
proof (induction p)
  case (Cons c p)
  show ?case
  proof (cases p)
    case Nil
    with Cons.prems show ?thesis by (simp add: comp_ok_def)
  next
    case (Cons d q)
    have "split_on slash (c @ slash # (d @ concat (map (\<lambda>c. slash # c) q)))
        = c # split_on slash (d @ concat (map (\<lambda>c. slash # c) q))"
      using \<open>list_all comp_ok (c # p)\<close> by (intro split_on_append_sep) (simp add: comp_ok_def)
    moreover have "split_on slash (slash # (d @ concat (map (\<lambda>c. slash # c) q))) = [] # p"
      using Cons.IH Cons \<open>list_all comp_ok (c # p)\<close> by simp
    ultimately show ?thesis using Cons by simp
  qed
qed simp

lemma path_comps_abs_str: "list_all comp_ok p \<Longrightarrow> path_comps (abs_str p) = p"
proof -
  assume ok: "list_all comp_ok p"
  have "filter (\<lambda>c. c \<noteq> [] \<and> c \<noteq> ''.'') p = p"
    using ok by (induction p) (auto simp: comp_ok_def)
  then show ?thesis
    using split_on_concat_slash [OF ok] by (simp add: path_comps_def abs_str_def)
qed

lemma abs_str_append:
  "\<lbrakk>p \<noteq> []; q \<noteq> []\<rbrakk> \<Longrightarrow> abs_str (p @ q) = abs_str p @ abs_str q"
  by (simp add: abs_str_def)

lemma path_comps_append: "path_comps (a @ slash # b) = path_comps a @ path_comps b"
  by (simp add: path_comps_def split_on_append)

lemma abs_str_absolute: "prefix ''/'' (abs_str p)"
  by (cases p) (simp_all add: abs_str_def)

text \<open>
  A host \<open>Path\<close> object is the list of its parts, the root first: \<open>path_str\<close> is \<open>str(path)\<close>
  and \<open>posix_parts\<close> reads such a string back.
\<close>

definition path_str :: "hpath \<Rightarrow> string" where
  "path_str p = (case p of [] \<Rightarrow> ''.''
     | r # cs \<Rightarrow> if prefix ''/'' r then r @ join_with slash cs else join_with slash (r # cs))"

definition abs_path :: "hpath \<Rightarrow> bool" where
  "abs_path p \<longleftrightarrow> (case p of [] \<Rightarrow> False
     | r # cs \<Rightarrow> (r = ''/'' \<or> r = ''//'') \<and> list_all comp_ok cs)"

lemma comps_join: "list_all comp_ok cs \<Longrightarrow> path_comps (join_with slash cs) = cs"
proof (cases "cs = []")
  case False
  assume ok: "list_all comp_ok cs"
  then have "split_on slash (join_with slash cs) = cs"
    using False by (intro split_join) (auto simp: list_all_iff comp_ok_def)
  then show ?thesis
    using ok by (auto simp: path_comps_def list_all_iff comp_ok_def intro!: filter_True)
qed (simp add: path_comps_def)

lemma path_comps_lead: "path_comps (slash # s) = path_comps s"
  by (simp add: path_comps_def)

lemma join_ok_no_lead: "list_all comp_ok cs \<Longrightarrow> \<not> prefix [slash] (join_with slash cs)"
  by (induction slash cs rule: join_with.induct) (auto simp: comp_ok_def prefix_Cons neq_Nil_conv)

lemma posix_parts_path_str: "abs_path p \<Longrightarrow> posix_parts (path_str p) = p"
proof -
  assume "abs_path p"
  then obtain r cs where p: "p = r # cs" and r: "r = ''/'' \<or> r = ''//''"
    and ok: "list_all comp_ok cs"
    by (auto simp: abs_path_def split: list.splits)
  have "\<not> prefix [slash] (join_with slash cs)" using ok by (rule join_ok_no_lead)
  then show ?thesis
    using r ok by (elim disjE) (simp_all add: p path_str_def posix_parts_def path_comps_lead comps_join)
qed

section \<open>Machines\<close>

text \<open>
  A component with state is a step that takes an operation and a state to an answer and the
  next state. \<open>run_ops\<close> is a client's session: its operations in order, with their answers.
\<close>

fun run_ops :: "('o \<Rightarrow> 's \<Rightarrow> 'r \<times> 's) \<Rightarrow> 'o list \<Rightarrow> 's \<Rightarrow> 'r list \<times> 's" where
  "run_ops step [] s = ([], s)"
| "run_ops step (a # as) s =
     (let (r, s') = step a s; (rs, s'') = run_ops step as s' in (r # rs, s''))"

lemma run_ops_Cons:
  "fst (run_ops step (a # as) s) = fst (step a s) # fst (run_ops step as (snd (step a s)))"
  "snd (run_ops step (a # as) s) = snd (run_ops step as (snd (step a s)))"
  by (simp_all add: split_def Let_def)

lemma run_ops_append:
  "fst (run_ops step (as @ bs) s)
     = fst (run_ops step as s) @ fst (run_ops step bs (snd (run_ops step as s)))"
  "snd (run_ops step (as @ bs) s) = snd (run_ops step bs (snd (run_ops step as s)))"
  by (induction as arbitrary: s) (simp_all add: run_ops_Cons del: run_ops.simps(2))

declare run_ops.simps(2) [simp del]
declare run_ops_Cons [simp]

locale guarded_machine =
  fixes step :: "'o \<Rightarrow> 's \<Rightarrow> 'r \<times> 's"
    and inv :: "'s \<Rightarrow> bool"
  assumes step_inv: "inv s \<Longrightarrow> inv (snd (step a s))"
begin

lemma run_inv: "inv s \<Longrightarrow> inv (snd (run_ops step as s))"
proof (induction as arbitrary: s)
  case (Cons a as)
  then show ?case
    using step_inv [OF Cons.prems, of a] by simp
qed simp

text \<open>An answer that no state of the invariant can give is never given.\<close>

lemma run_answers:
  assumes "inv s" and "r \<in> set (fst (run_ops step as s))"
  shows "\<exists>a s'. inv s' \<and> r = fst (step a s')"
  using assms
proof (induction as arbitrary: s)
  case (Cons a as)
  show ?case
  proof (cases "r = fst (step a s)")
    case False
    with Cons.prems have "r \<in> set (fst (run_ops step as (snd (step a s))))"
      by simp
    with Cons.IH step_inv [OF Cons.prems(1)] show ?thesis by blast
  qed (use Cons.prems in blast)
qed simp

end

text \<open>
  A machine whose answers may carry a stamp taken from a counter that never goes back: over
  any session the stamps are strictly increasing, so no stamp is given twice.
\<close>

definition stamps :: "('r \<Rightarrow> nat option) \<Rightarrow> 'r list \<Rightarrow> nat list" where
  "stamps stamp rs = List.map_filter stamp rs"

lemma stamps_simps [simp]:
  "stamps stamp [] = []"
  "stamps stamp (r # rs) =
     (case stamp r of None \<Rightarrow> stamps stamp rs | Some n \<Rightarrow> n # stamps stamp rs)"
  by (simp_all add: stamps_def List.map_filter_simps split: option.splits)

locale stamped_machine = guarded_machine step inv
  for step :: "'o \<Rightarrow> 's \<Rightarrow> 'r \<times> 's" and inv :: "'s \<Rightarrow> bool" +
  fixes stamp :: "'r \<Rightarrow> nat option"
    and counter :: "'s \<Rightarrow> nat"
  assumes counter_mono: "inv s \<Longrightarrow> counter s \<le> counter (snd (step a s))"
    and stamp_range: "\<lbrakk>inv s; stamp (fst (step a s)) = Some n\<rbrakk> \<Longrightarrow>
      counter s \<le> n \<and> n < counter (snd (step a s))"
begin

lemma run_counter: "inv s \<Longrightarrow> counter s \<le> counter (snd (run_ops step as s))"
proof (induction as arbitrary: s)
  case (Cons a as)
  have "counter s \<le> counter (snd (step a s))"
    using counter_mono [OF Cons.prems] .
  also have "\<dots> \<le> counter (snd (run_ops step as (snd (step a s))))"
    using Cons.IH step_inv [OF Cons.prems] .
  finally show ?case by simp
qed simp

lemma run_stamps_lower:
  assumes "inv s" and "n \<in> set (stamps stamp (fst (run_ops step as s)))"
  shows "counter s \<le> n"
  using assms
proof (induction as arbitrary: s)
  case (Cons a as)
  let ?s' = "snd (step a s)"
  have "n \<in> set (stamps stamp (fst (run_ops step as ?s'))) \<or> stamp (fst (step a s)) = Some n"
    using Cons.prems(2) by (auto split: option.splits)
  then show ?case
    using Cons.IH [OF step_inv [OF Cons.prems(1)], of a] counter_mono [OF Cons.prems(1), of a]
      stamp_range [OF Cons.prems(1), of a n] by auto
qed simp

lemma run_stamps_increasing:
  "inv s \<Longrightarrow> sorted_wrt (<) (stamps stamp (fst (run_ops step as s)))"
proof (induction as arbitrary: s)
  case (Cons a as)
  let ?s' = "snd (step a s)"
  have tail: "sorted_wrt (<) (stamps stamp (fst (run_ops step as ?s')))"
    using Cons.IH step_inv [OF Cons.prems] by blast
  have "n < m" if "stamp (fst (step a s)) = Some n"
    and "m \<in> set (stamps stamp (fst (run_ops step as ?s')))" for n m
    using run_stamps_lower [OF step_inv [OF Cons.prems] that(2)]
      stamp_range [OF Cons.prems that(1)] by simp
  with tail show ?case by (auto split: option.splits)
qed simp

lemma run_stamps_distinct: "inv s \<Longrightarrow> distinct (stamps stamp (fst (run_ops step as s)))"
  using run_stamps_increasing strict_sorted_iff by blast

end

end
