(* ===== verification/Policy.thy ===== *)
theory Policy
  imports Prelude
begin

text \<open>
  Runtime policy declarations: \<open>src/testudo/runtime/policy.py\<close>.

  A workflow declares a storage policy and a network policy. The validators of the two
  pydantic models are modelled one by one: \<open>validate_guest_path\<close>, \<open>validate_limit\<close>,
  \<open>validate_host\<close> and the model validators. Pydantic runs every field validator and then,
  when no field failed, the model validator; a rejected declaration is the list of messages.

  Parameters: \<open>ip\<close> is \<open>ipaddress.ip_address\<close> (the address flags and its compressed
  form, or \<open>None\<close> where it raises \<open>ValueError\<close>); \<open>H\<close> is the SHA-256 hex digest of the
  canonical JSON of a value. Times are exact rationals: the rounding of floats and of
  \<open>datetime\<close> to microseconds is not modelled.
\<close>

section \<open>Data\<close>

datatype storage_phase = SProvision | SEvaluation
datatype host_scope = RunLocal
datatype cache_access = NoCache | ReadOnly | ReadWrite
datatype network_phase = NProvision | NResearch | NEvaluation
datatype network_purpose = NoPurpose | DependencyFetch | ResourceLookup | DeclaredApi

fun storage_phase_str :: "storage_phase \<Rightarrow> string" where
  "storage_phase_str SProvision = ''provision''"
| "storage_phase_str SEvaluation = ''evaluation''"

fun cache_access_str :: "cache_access \<Rightarrow> string" where
  "cache_access_str NoCache = ''none''"
| "cache_access_str ReadOnly = ''read_only''"
| "cache_access_str ReadWrite = ''read_write''"

fun phase_str :: "network_phase \<Rightarrow> string" where
  "phase_str NProvision = ''provision''"
| "phase_str NResearch = ''research''"
| "phase_str NEvaluation = ''evaluation''"

fun purpose_str :: "network_purpose \<Rightarrow> string" where
  "purpose_str NoPurpose = ''none''"
| "purpose_str DependencyFetch = ''dependency_fetch''"
| "purpose_str ResourceLookup = ''resource_lookup''"
| "purpose_str DeclaredApi = ''declared_api''"

text \<open>A \<open>datetime\<close>: whether it carries a timezone, and its instant in epoch seconds.\<close>

datatype py_datetime = Datetime (aware: bool) (epoch: rat)

record storage_policy =
  sp_phase :: storage_phase
  sp_host_scope :: host_scope
  sp_workspace :: string
  sp_inputs :: string
  sp_cache :: "string option"
  sp_cache_access :: cache_access
  sp_host_mounts :: "string list"

record network_policy =
  np_phase :: network_phase
  np_purpose :: network_purpose
  np_egress_hosts :: "string list"
  np_egress_ports :: "int list"
  np_methods :: "string list"
  np_max_bytes :: "int option"
  np_max_duration_seconds :: "int option"
  np_cache_write :: bool
  np_expires_at :: "py_datetime option"

text \<open>
  The two fields with a \<open>mode="before"\<close> validator arrive untyped: \<open>cache_write\<close> as some
  object, \<open>expires_at\<close> as nothing, a bool, a number, or a datetime (a string is presented
  as the datetime pydantic reads it as).
\<close>

datatype flag_value = FlagBool bool | FlagOther
datatype expiry_value = ExpNone | ExpBool bool | ExpNumber rat | ExpDatetime py_datetime

record network_input =
  ni_phase :: network_phase
  ni_purpose :: network_purpose
  ni_egress_hosts :: "string list"
  ni_egress_ports :: "int list"
  ni_methods :: "string list"
  ni_max_bytes :: "int option"
  ni_max_duration_seconds :: "int option"
  ni_cache_write :: flag_value
  ni_expires_at :: expiry_value

record ip_addr =
  is_private :: bool
  is_loopback :: bool
  is_link_local :: bool
  is_multicast :: bool
  is_reserved :: bool
  is_unspecified :: bool
  compressed :: string

type_synonym ip_lookup = "string \<Rightarrow> ip_addr option"

definition max_limit :: int where "max_limit = 2 ^ 63 - 1"

definition allowed_methods :: "string list" where
  "allowed_methods = [''GET'', ''HEAD'', ''POST'', ''PUT'', ''PATCH'', ''DELETE'', ''OPTIONS'']"

definition unsafe_host_suffixes :: "string list" where
  "unsafe_host_suffixes = [''.localhost'', ''.local'', ''.internal'', ''.lan'', ''.home'']"

section \<open>Validators\<close>

definition under :: "string \<Rightarrow> string \<Rightarrow> bool" where
  "under path pre \<longleftrightarrow> path = pre \<or> prefix (pre @ ''/'') path"

definition validate_guest_path :: "string \<Rightarrow> string \<Rightarrow> string \<Rightarrow> exn + string" where
  "validate_guest_path path field pre =
     (if \<not> prefix ''/'' path then
        Inl (ValueError (field @ '' must be an absolute guest path''))
      else if path = [] \<or> CHR 0x00 \<in> set path \<or> CHR 0x5C \<in> set path
          \<or> list_ex py_isspace path \<or> sublist ''//'' path
          \<or> (suffix ''/'' path \<and> path \<noteq> ''/'') then
        Inl (ValueError (field @ '' must be a canonical guest path''))
      else if list_ex (\<lambda>part. part = ''.'' \<or> part = ''..'') (split_on slash path) then
        Inl (ValueError (field @ '' contains path traversal''))
      else if ''..'' \<in> set (posix_parts path) \<or> \<not> under path pre then
        Inl (ValueError (field @ '' must remain under '' @ pre))
      else Inr path)"

definition validate_limit :: "int option \<Rightarrow> string \<Rightarrow> exn + int option" where
  "validate_limit value field =
     (case value of
        None \<Rightarrow> Inr None
      | Some v \<Rightarrow>
          if v \<le> 0 \<or> v > max_limit
          then Inl (ValueError (field @ '' must be a positive '' @ field @ '' value''))
          else Inr (Some v))"

text \<open>\<open>_HOST_LABEL.fullmatch(label)\<close>.\<close>

definition host_label :: "string \<Rightarrow> bool" where
  "host_label l \<longleftrightarrow> l \<noteq> [] \<and> length l \<le> 63 \<and> ascii_alnum (hd l) \<and> ascii_alnum (last l)
     \<and> list_all (\<lambda>c. ascii_alnum c \<or> c = CHR ''-'') l"

definition unsafe_ip :: "ip_addr \<Rightarrow> bool" where
  "unsafe_ip a \<longleftrightarrow> is_private a \<or> is_loopback a \<or> is_link_local a \<or> is_multicast a
     \<or> is_reserved a \<or> is_unspecified a"

definition host_syntax_bad :: "string \<Rightarrow> bool" where
  "host_syntax_bad host \<longleftrightarrow>
     CHR 0x00 \<in> set host \<or> sublist ''://'' host \<or> slash \<in> set host
     \<or> CHR 0x5C \<in> set host \<or> CHR ''*'' \<in> set host \<or> CHR ''?'' \<in> set host
     \<or> CHR ''#'' \<in> set host \<or> CHR ''@'' \<in> set host \<or> list_ex py_isspace host"

definition unsafe_name :: "string \<Rightarrow> bool" where
  "unsafe_name n \<longleftrightarrow> n = [] \<or> n = ''localhost'' \<or> list_ex (\<lambda>s. suffix s n) unsafe_host_suffixes"

definition validate_host :: "ip_lookup \<Rightarrow> string \<Rightarrow> exn + string" where
  "validate_host ip host =
     (if host = [] \<or> host \<noteq> py_strip host then
        Inl (ValueError ''network egress hosts must be non-empty strings'')
      else if host_syntax_bad host then
        Inl (ValueError ''network egress hosts must be exact hostnames or IP addresses'')
      else (case ip host of
        Some a \<Rightarrow>
          if unsafe_ip a then Inl (ValueError ''unsafe network egress host'')
          else Inr (compressed a)
      | None \<Rightarrow>
          let canonical = py_lower (rstrip_char dot host);
              labels = split_on dot canonical
          in if unsafe_name canonical then Inl (ValueError ''unsafe network egress host'')
             else if \<not> list_all host_label labels then
               Inl (ValueError (''invalid network egress host: '' @ py_repr host))
             else if length labels < 2 then
               Inl (ValueError ''network egress hosts must be fully qualified exact names'')
             else Inr canonical))"

definition normalize_hosts :: "ip_lookup \<Rightarrow> string list \<Rightarrow> exn + string list" where
  "normalize_hosts ip hosts =
     rbind (rmap (validate_host ip) hosts) (\<lambda>normalized.
       if \<not> distinct normalized then Inl (ValueError ''network egress hosts must be unique'')
       else Inr normalized)"

definition validate_ports :: "int list \<Rightarrow> exn + int list" where
  "validate_ports ports =
     (if list_ex (\<lambda>port. \<not> (1 \<le> port \<and> port \<le> 65535)) ports then
        Inl (ValueError ''network egress ports must be between 1 and 65535'')
      else if \<not> distinct ports then Inl (ValueError ''network egress ports must be unique'')
      else Inr ports)"

definition normalize_methods :: "string list \<Rightarrow> exn + string list" where
  "normalize_methods methods =
     (let normalized = map py_upper methods in
      if list_ex (\<lambda>m. m \<notin> set allowed_methods) normalized then
        Inl (ValueError ''network methods contain an unsupported HTTP method'')
      else if \<not> distinct normalized then Inl (ValueError ''network methods must be unique'')
      else Inr normalized)"

definition validate_cache_write :: "flag_value \<Rightarrow> exn + bool" where
  "validate_cache_write v =
     (case v of FlagBool b \<Rightarrow> Inr b
      | FlagOther \<Rightarrow> Inl (ValueError ''cache_write must be a boolean''))"

definition normalize_expiry :: "expiry_value \<Rightarrow> exn + py_datetime option" where
  "normalize_expiry v =
     (case v of
        ExpNone \<Rightarrow> Inr None
      | ExpBool _ \<Rightarrow> Inl (ValueError ''expires_at must be an absolute UTC timestamp'')
      | ExpNumber q \<Rightarrow>
          if q \<le> 0 then Inl (ValueError ''expires_at must be a positive timestamp'')
          else Inr (Some (Datetime True q))
      | ExpDatetime d \<Rightarrow> Inr (Some d))"

section \<open>Model validators\<close>

text \<open>The overlap test compares every pair of declared guest paths.\<close>

fun no_overlap :: "string list \<Rightarrow> bool" where
  "no_overlap [] = True"
| "no_overlap (l # rs) = (list_all (\<lambda>r. \<not> under l r \<and> \<not> under r l) rs \<and> no_overlap rs)"

definition storage_paths :: "storage_policy \<Rightarrow> string list" where
  "storage_paths p = [sp_workspace p, sp_inputs p] @ (case sp_cache p of None \<Rightarrow> [] | Some c \<Rightarrow> [c])"

definition validate_storage_boundary :: "storage_policy \<Rightarrow> exn + storage_policy" where
  "validate_storage_boundary p =
     (if sp_cache_access p = NoCache \<and> sp_cache p \<noteq> None then
        Inl (ValueError (''cache path requires cache_access other than '' @ py_repr ''none''))
      else if sp_cache_access p \<noteq> NoCache \<and> sp_cache p = None then
        Inl (ValueError ''cache_access requires an explicit cache path'')
      else if sp_phase p = SEvaluation \<and> sp_cache_access p = ReadWrite then
        Inl (ValueError ''evaluation storage may use only a read-only cache'')
      else if \<not> no_overlap (storage_paths p) then
        Inl (ValueError ''storage guest paths must not overlap'')
      else Inr p)"

definition expected_phase :: "network_purpose \<Rightarrow> network_phase" where
  "expected_phase u = (case u of
     DependencyFetch \<Rightarrow> NProvision | ResourceLookup \<Rightarrow> NResearch | _ \<Rightarrow> NEvaluation)"

definition validate_phase_purpose :: "network_policy \<Rightarrow> exn + network_policy" where
  "validate_phase_purpose p =
     (if np_purpose p = NoPurpose then
        (if np_egress_hosts p \<noteq> [] \<or> np_egress_ports p \<noteq> [] \<or> np_methods p \<noteq> [] then
           Inl (ValueError ''purpose='none' cannot carry an egress allow-list'')
         else if np_max_bytes p \<noteq> None \<or> np_max_duration_seconds p \<noteq> None then
           Inl (ValueError ''purpose='none' cannot carry network limits'')
         else if np_cache_write p then
           Inl (ValueError ''purpose='none' cannot write a dependency cache'')
         else Inr p)
      else if np_egress_hosts p = [] \<or> np_egress_ports p = [] \<or> np_methods p = [] then
        Inl (ValueError ''network access requires hosts, ports and methods'')
      else if np_max_bytes p = None then
        Inl (ValueError ''network access requires a finite max_bytes'')
      else if np_max_duration_seconds p = None then
        Inl (ValueError ''network access requires a finite max_duration_seconds'')
      else if np_cache_write p
          \<and> \<not> (np_purpose p = DependencyFetch \<and> np_phase p = NProvision) then
        Inl (ValueError ''only provision dependency_fetch may write an evaluation cache'')
      else if np_phase p \<noteq> expected_phase (np_purpose p) then
        (if np_purpose p = ResourceLookup \<and> np_phase p = NEvaluation then
           Inl (ValueError ''resource_lookup is forbidden during evaluation'')
         else Inl (ValueError (purpose_str (np_purpose p) @ '' is permitted only during ''
                @ phase_str (expected_phase (np_purpose p)))))
      else Inr p)"


section \<open>The two models\<close>

definition errs :: "exn + 'a \<Rightarrow> exn list" where
  "errs m = (case m of Inl e \<Rightarrow> [e] | Inr _ \<Rightarrow> [])"

lemma errs_simps [simp]: "errs (Inl e) = [e]" "errs (Inr x) = []"
  by (simp_all add: errs_def)

lemma errs_Nil_iff: "errs m = [] \<longleftrightarrow> (\<exists>x. m = Inr x)"
  by (cases m) simp_all

definition validate_cache :: "string option \<Rightarrow> exn + string option" where
  "validate_cache path =
     (case path of None \<Rightarrow> Inr None
      | Some p \<Rightarrow> rbind (validate_guest_path p ''cache'' ''/cache'') (\<lambda>q. Inr (Some q)))"

definition reject_host_mounts :: "string list \<Rightarrow> exn + string list" where
  "reject_host_mounts mounts =
     (if mounts \<noteq> [] then
        Inl (ValueError ''arbitrary host mounts are not allowed by the run-local profile'')
      else Inr mounts)"

definition storage_validate :: "storage_policy \<Rightarrow> exn list + storage_policy" where
  "storage_validate p =
     (let errors = errs (validate_guest_path (sp_workspace p) ''workspace'' ''/runs'')
                 @ errs (validate_guest_path (sp_inputs p) ''inputs'' ''/inputs'')
                 @ errs (validate_cache (sp_cache p))
                 @ errs (reject_host_mounts (sp_host_mounts p))
      in if errors \<noteq> [] then Inl errors
         else (case validate_storage_boundary p of Inl e \<Rightarrow> Inl [e] | Inr q \<Rightarrow> Inr q))"

definition default_storage :: storage_policy where
  "default_storage = \<lparr>sp_phase = SEvaluation, sp_host_scope = RunLocal, sp_workspace = ''/runs'',
     sp_inputs = ''/inputs'', sp_cache = None, sp_cache_access = NoCache, sp_host_mounts = []\<rparr>"

definition network_validate :: "ip_lookup \<Rightarrow> network_input \<Rightarrow> exn list + network_policy" where
  "network_validate ip i =
     (let hosts = normalize_hosts ip (ni_egress_hosts i);
          ports = validate_ports (ni_egress_ports i);
          methods = normalize_methods (ni_methods i);
          max_bytes = validate_limit (ni_max_bytes i) ''max_bytes'';
          max_duration = validate_limit (ni_max_duration_seconds i) ''max_duration_seconds'';
          cache_write = validate_cache_write (ni_cache_write i);
          expires_at = normalize_expiry (ni_expires_at i);
          errors = errs hosts @ errs ports @ errs methods @ errs max_bytes @ errs max_duration
                 @ errs cache_write @ errs expires_at
      in if errors \<noteq> [] then Inl errors
         else (case validate_phase_purpose
                 \<lparr>np_phase = ni_phase i, np_purpose = ni_purpose i,
                  np_egress_hosts = projr hosts, np_egress_ports = projr ports,
                  np_methods = projr methods, np_max_bytes = projr max_bytes,
                  np_max_duration_seconds = projr max_duration,
                  np_cache_write = projr cache_write, np_expires_at = projr expires_at\<rparr> of
               Inl e \<Rightarrow> Inl [e] | Inr p \<Rightarrow> Inr p))"

definition default_network :: network_policy where
  "default_network = \<lparr>np_phase = NEvaluation, np_purpose = NoPurpose, np_egress_hosts = [],
     np_egress_ports = [], np_methods = [], np_max_bytes = None,
     np_max_duration_seconds = None, np_cache_write = False, np_expires_at = None\<rparr>"

section \<open>The policy digest\<close>

definition opt_int :: "int option \<Rightarrow> pyval" where
  "opt_int x = (case x of None \<Rightarrow> PNone | Some n \<Rightarrow> PInt n)"

definition opt_str :: "string option \<Rightarrow> pyval" where
  "opt_str x = (case x of None \<Rightarrow> PNone | Some s \<Rightarrow> PStr s)"

text \<open>\<open>isofmt\<close> prints a datetime as pydantic's JSON mode does.\<close>

definition network_dump :: "(py_datetime \<Rightarrow> string) \<Rightarrow> network_policy \<Rightarrow> pyval" where
  "network_dump isofmt p = PDict
     [(''phase'', PStr (phase_str (np_phase p))),
      (''purpose'', PStr (purpose_str (np_purpose p))),
      (''egress_hosts'', PList (map PStr (np_egress_hosts p))),
      (''egress_ports'', PList (map PInt (np_egress_ports p))),
      (''methods'', PList (map PStr (np_methods p))),
      (''max_bytes'', opt_int (np_max_bytes p)),
      (''max_duration_seconds'', opt_int (np_max_duration_seconds p)),
      (''cache_write'', PBool (np_cache_write p)),
      (''expires_at'', opt_str (map_option isofmt (np_expires_at p)))]"

definition storage_dump :: "storage_policy \<Rightarrow> pyval" where
  "storage_dump p = PDict
     [(''phase'', PStr (storage_phase_str (sp_phase p))),
      (''host_scope'', PStr ''run_local''),
      (''workspace'', PStr (sp_workspace p)),
      (''inputs'', PStr (sp_inputs p)),
      (''cache'', opt_str (sp_cache p)),
      (''cache_access'', PStr (cache_access_str (sp_cache_access p))),
      (''host_mounts'', PList (map PStr (sp_host_mounts p)))]"

definition policy_digest ::
  "(pyval \<Rightarrow> string) \<Rightarrow> (py_datetime \<Rightarrow> string) \<Rightarrow> storage_policy \<Rightarrow> network_policy \<Rightarrow> string" where
  "policy_digest H isofmt storage network =
     H (PDict [(''network'', network_dump isofmt network), (''storage'', storage_dump storage)])"

definition is_policy_digest :: "string \<Rightarrow> bool" where
  "is_policy_digest v \<longleftrightarrow> hex_string 64 v"

section \<open>Guest paths\<close>

text \<open>
  A canonical guest path is the printed form of a list of components, none of them empty,
  \<open>.\<close> or \<open>..\<close>: no two canonical strings name the same place.
\<close>

definition safe_comp :: "string \<Rightarrow> bool" where
  "safe_comp c \<longleftrightarrow> comp_ok c \<and> c \<noteq> ''..''"

definition canonical_guest :: "string \<Rightarrow> bool" where
  "canonical_guest p \<longleftrightarrow> list_all safe_comp (path_comps p) \<and> abs_str (path_comps p) = p"

lemma under_refl [simp]: "under p p"
  by (simp add: under_def)

lemma guest_path_comps:
  assumes "prefix ''/'' path" and "path \<noteq> ''/''" and "\<not> sublist ''//'' path"
    and "\<not> suffix ''/'' path"
    and "\<not> list_ex (\<lambda>part. part = ''.'' \<or> part = ''..'') (split_on slash path)"
  shows "canonical_guest path"
proof -
  from assms(1) obtain rest where path: "path = slash # rest" by (auto simp: prefix_def)
  have "[] \<notin> set (split_on slash rest)"
  proof
    assume "[] \<in> set (split_on slash rest)"
    from empty_part_cases [OF this] show False
    proof (elim disjE)
      assume "prefix [slash] rest"
      then show False using assms(3) path by (auto simp: prefix_def sublist_code)
    next
      assume "suffix [slash] rest"
      then show False using assms(4) path by (simp add: suffix_Cons)
    next
      assume "sublist [slash, slash] rest"
      then show False using assms(3) path by (simp add: sublist_Cons_right)
    qed (use assms(2) path in simp)
  qed
  then have ok: "list_all safe_comp (split_on slash rest)"
    using assms(5) path
    by (auto simp: list_all_iff list_ex_iff safe_comp_def comp_ok_def dest: split_on_sep_free)
  then have comps: "path_comps path = split_on slash rest"
    unfolding path_comps_def path by (auto simp: list_all_iff safe_comp_def comp_ok_def intro!: filter_True)
  have "abs_str (split_on slash rest) = path"
    by (simp add: abs_str_def concat_sep join_split_on path)
  with ok comps show ?thesis by (simp add: canonical_guest_def)
qed

lemma canonical_guest_root: "canonical_guest ''/''"
  by (simp add: canonical_guest_def path_comps_def abs_str_def)

lemma under_iff_comps:
  assumes "canonical_guest p" and "canonical_guest pre" and "pre \<noteq> ''/''"
  shows "under p pre \<longleftrightarrow> prefix (path_comps pre) (path_comps p)"
proof
  assume "under p pre"
  then show "prefix (path_comps pre) (path_comps p)"
    by (auto simp: under_def prefix_def path_comps_append)
next
  assume "prefix (path_comps pre) (path_comps p)"
  then obtain es where es: "path_comps p = path_comps pre @ es" by (auto simp: prefix_def)
  have ne: "path_comps pre \<noteq> []"
    using assms(2,3) by (auto simp: canonical_guest_def abs_str_def split: if_splits)
  show "under p pre"
  proof (cases "es = []")
    case True
    with es assms(1,2) show ?thesis by (metis append_Nil2 canonical_guest_def under_refl)
  next
    case False
    then have "p = pre @ abs_str es"
      using es ne assms(1,2) abs_str_append by (metis canonical_guest_def)
    moreover obtain r where "abs_str es = slash # r"
      using False by (auto simp: abs_str_def neq_Nil_conv)
    ultimately show ?thesis by (simp add: under_def)
  qed
qed

lemma under_comparable: "under g a \<Longrightarrow> under g b \<Longrightarrow> under a b \<or> under b a"
proof -
  have *: "under b a" if "prefix (a @ ''/'') g" "prefix (b @ ''/'') g" "length a \<le> length b" for a b
  proof -
    have "prefix (a @ ''/'') (b @ ''/'')"
      by (rule prefix_length_prefix [OF that(1,2)]) (use that(3) in simp)
    then show ?thesis by (auto simp: under_def)
  qed
  assume "under g a" and "under g b"
  then show ?thesis
    using * [of a b] * [of b a] linear [of "length a" "length b"] by (auto simp: under_def)
qed

lemma no_overlap_unique:
  "\<lbrakk>no_overlap ps; a \<in> set ps; b \<in> set ps; under a b\<rbrakk> \<Longrightarrow> a = b"
  by (induction ps) (auto simp: list_all_iff)

lemma validate_guest_path_same: "validate_guest_path p field pre = Inr q \<Longrightarrow> q = p"
  by (simp add: validate_guest_path_def split: if_splits)

lemma validate_guest_path_Inr:
  assumes "validate_guest_path p field pre = Inr q"
  shows "canonical_guest p" and "under p pre"
proof -
  show "under p pre"
    using assms by (simp add: validate_guest_path_def split: if_splits)
  show "canonical_guest p"
  proof (cases "p = ''/''")
    case False
    with assms show ?thesis
      by (intro guest_path_comps) (simp_all add: validate_guest_path_def split: if_splits)
  qed (simp add: canonical_guest_root)
qed

lemma validate_storage_boundary_same: "validate_storage_boundary p = Inr q \<Longrightarrow> q = p"
  by (simp add: validate_storage_boundary_def split: if_splits)

text \<open>What a valid storage policy is.\<close>

definition storage_wf :: "storage_policy \<Rightarrow> bool" where
  "storage_wf p \<longleftrightarrow> list_all canonical_guest (storage_paths p)
     \<and> under (sp_workspace p) ''/runs'' \<and> under (sp_inputs p) ''/inputs''
     \<and> (\<forall>c. sp_cache p = Some c \<longrightarrow> under c ''/cache'')
     \<and> (sp_cache p = None \<longleftrightarrow> sp_cache_access p = NoCache)
     \<and> (sp_phase p = SEvaluation \<longrightarrow> sp_cache_access p \<noteq> ReadWrite)
     \<and> no_overlap (storage_paths p) \<and> sp_host_mounts p = []"

lemma storage_validate_fields:
  assumes "storage_validate p = Inr q"
  shows "\<exists>w. validate_guest_path (sp_workspace p) ''workspace'' ''/runs'' = Inr w"
    and "\<exists>i. validate_guest_path (sp_inputs p) ''inputs'' ''/inputs'' = Inr i"
    and "\<exists>c. validate_cache (sp_cache p) = Inr c"
    and "\<exists>m. reject_host_mounts (sp_host_mounts p) = Inr m"
    and "validate_storage_boundary p = Inr q"
  using assms
  by (simp_all add: storage_validate_def Let_def errs_Nil_iff split: if_splits sum.splits)

lemma storage_validate_wf:
  assumes "storage_validate p = Inr q"
  shows "q = p \<and> storage_wf p"
proof -
  note f = storage_validate_fields [OF assms]
  have q: "q = p" using f(5) by (rule validate_storage_boundary_same)
  have w: "canonical_guest (sp_workspace p)" "under (sp_workspace p) ''/runs''"
    using f(1) validate_guest_path_Inr by blast+
  have i: "canonical_guest (sp_inputs p)" "under (sp_inputs p) ''/inputs''"
    using f(2) validate_guest_path_Inr by blast+
  have c: "canonical_guest c \<and> under c ''/cache''" if "sp_cache p = Some c" for c
    using f(3) that validate_guest_path_Inr [of c] by (auto simp: validate_cache_def)
  have m: "sp_host_mounts p = []"
    using f(4) by (auto simp: reject_host_mounts_def split: if_splits)
  from f(5) w i c m show ?thesis unfolding q
    by (auto simp: storage_wf_def storage_paths_def validate_storage_boundary_def
        split: if_splits option.splits)
qed

section \<open>Properties of the declarations\<close>

text \<open>
  an accepted guest path is returned unchanged, is canonical (the printed form of its
  components, none of which is empty, \<open>.\<close> or \<open>..\<close>) and lies below the required prefix,
  where the lexical prefix test is containment of component lists: nothing accepted can
  climb out of its tree.
\<close>

theorem guest_path_stays_under:
  assumes "validate_guest_path p field pre = Inr q"
    and "canonical_guest pre" and "pre \<noteq> ''/''"
  shows "q = p \<and> canonical_guest p \<and> prefix (path_comps pre) (path_comps p)"
proof -
  have "q = p" "canonical_guest p" "under p pre"
    using assms(1) validate_guest_path_same validate_guest_path_Inr by blast+
  then show ?thesis
    using under_iff_comps [OF _ assms(2,3)] by blast
qed

theorem guest_path_stays_under_witness:
  "validate_guest_path ''/runs/job/out'' ''workspace'' ''/runs'' = Inr ''/runs/job/out''
   \<and> prefix (path_comps ''/runs'') (path_comps ''/runs/job/out'')"
proof -
  have v: "validate_guest_path ''/runs/job/out'' ''workspace'' ''/runs'' = Inr ''/runs/job/out''"
    by code_simp
  have c: "canonical_guest ''/runs''" by code_simp
  from guest_path_stays_under [OF v c] v show ?thesis by simp
qed

text \<open>
  the guest trees of a validated storage policy are disjoint: a guest path lies under at
  most one of workspace, inputs and cache, so the mode of every path is determined. In the
  evaluation phase only the workspace is writable.
\<close>

theorem storage_trees_disjoint:
  assumes "storage_validate p = Inr q"
    and "a \<in> set (storage_paths q)" and "b \<in> set (storage_paths q)"
    and "under g a" and "under g b"
  shows "a = b \<and> (sp_phase q = SEvaluation \<longrightarrow> sp_cache_access q \<noteq> ReadWrite)"
proof -
  have "storage_wf q" using storage_validate_wf [OF assms(1)] by blast
  moreover from assms(4,5) have "under a b \<or> under b a" by (rule under_comparable)
  ultimately show ?thesis
    using no_overlap_unique assms(2,3) by (auto simp: storage_wf_def)
qed

theorem storage_trees_disjoint_witness:
  "storage_validate default_storage = Inr default_storage
   \<and> ''/runs'' \<in> set (storage_paths default_storage) \<and> under ''/runs/a'' ''/runs''
   \<and> sp_cache_access default_storage \<noteq> ReadWrite"
proof -
  have v: "storage_validate default_storage = Inr default_storage" by code_simp
  have p: "''/runs'' \<in> set (storage_paths default_storage)" by code_simp
  have u: "under ''/runs/a'' ''/runs''" by code_simp
  have "sp_phase default_storage = SEvaluation" by code_simp
  with storage_trees_disjoint [OF v p p u u] v p u show ?thesis by blast
qed

text \<open>What a valid network policy is.\<close>

definition network_wf :: "ip_lookup \<Rightarrow> network_policy \<Rightarrow> bool" where
  "network_wf ip p \<longleftrightarrow>
     distinct (np_egress_hosts p)
     \<and> (\<forall>h \<in> set (np_egress_hosts p). \<exists>raw. validate_host ip raw = Inr h)
     \<and> distinct (np_egress_ports p) \<and> (\<forall>port \<in> set (np_egress_ports p). 1 \<le> port \<and> port \<le> 65535)
     \<and> distinct (np_methods p) \<and> set (np_methods p) \<subseteq> set allowed_methods
     \<and> (\<forall>v. np_max_bytes p = Some v \<longrightarrow> 0 < v \<and> v < 2 ^ 63)
     \<and> (\<forall>v. np_max_duration_seconds p = Some v \<longrightarrow> 0 < v \<and> v < 2 ^ 63)
     \<and> (if np_purpose p = NoPurpose
        then np_egress_hosts p = [] \<and> np_egress_ports p = [] \<and> np_methods p = []
          \<and> np_max_bytes p = None \<and> np_max_duration_seconds p = None \<and> \<not> np_cache_write p
        else np_egress_hosts p \<noteq> [] \<and> np_egress_ports p \<noteq> [] \<and> np_methods p \<noteq> []
          \<and> np_max_bytes p \<noteq> None \<and> np_max_duration_seconds p \<noteq> None
          \<and> np_phase p = expected_phase (np_purpose p)
          \<and> (np_cache_write p \<longrightarrow> np_purpose p = DependencyFetch))"

lemma network_validate_fields:
  assumes "network_validate ip i = Inr p"
  shows "normalize_hosts ip (ni_egress_hosts i) = Inr (np_egress_hosts p)"
    and "validate_ports (ni_egress_ports i) = Inr (np_egress_ports p)"
    and "normalize_methods (ni_methods i) = Inr (np_methods p)"
    and "validate_limit (ni_max_bytes i) ''max_bytes'' = Inr (np_max_bytes p)"
    and "validate_limit (ni_max_duration_seconds i) ''max_duration_seconds''
      = Inr (np_max_duration_seconds p)"
    and "validate_phase_purpose p = Inr p"
proof -
  have same: "validate_phase_purpose q = Inr r \<Longrightarrow> r = q" for q r
    by (simp add: validate_phase_purpose_def split: if_splits)
  show "normalize_hosts ip (ni_egress_hosts i) = Inr (np_egress_hosts p)"
    and "validate_ports (ni_egress_ports i) = Inr (np_egress_ports p)"
    and "normalize_methods (ni_methods i) = Inr (np_methods p)"
    and "validate_limit (ni_max_bytes i) ''max_bytes'' = Inr (np_max_bytes p)"
    and "validate_limit (ni_max_duration_seconds i) ''max_duration_seconds''
      = Inr (np_max_duration_seconds p)"
    and "validate_phase_purpose p = Inr p"
    using assms
    by (auto simp: network_validate_def Let_def errs_Nil_iff dest: same
        split: if_splits sum.splits)
qed

text \<open>
  a validated network policy is well formed: hosts are distinct results of the host
  normaliser, ports distinct and in 1..65535, methods distinct and supported, limits
  positive 63-bit values; purpose \<open>none\<close> carries no egress, limit or cache write, and any
  other purpose carries hosts, ports, methods and both limits, runs in its one phase, and
  writes the dependency cache only as a dependency fetch.
\<close>

theorem network_validate_wf:
  assumes "network_validate ip i = Inr p"
  shows "network_wf ip p"
proof -
  note f = network_validate_fields [OF assms]
  have h: "distinct (np_egress_hosts p)"
      "\<forall>h \<in> set (np_egress_hosts p). \<exists>raw. validate_host ip raw = Inr h"
    using f(1) by (auto simp: normalize_hosts_def split: if_splits dest: rmap_Inr_set)
  have po: "distinct (np_egress_ports p)"
      "\<forall>port \<in> set (np_egress_ports p). 1 \<le> port \<and> port \<le> 65535"
    using f(2) by (auto simp: validate_ports_def list_ex_iff split: if_splits)
  have "np_methods p = map py_upper (ni_methods i)" and m: "distinct (np_methods p)"
    and "\<not> list_ex (\<lambda>m. m \<notin> set allowed_methods) (map py_upper (ni_methods i))"
    using f(3) by (simp_all add: normalize_methods_def Let_def split: if_splits)
  then have m2: "set (np_methods p) \<subseteq> set allowed_methods"
    by (auto simp: list_ex_iff)
  have l: "0 < v \<and> v < 2 ^ 63" if "validate_limit x field = Inr (Some v)" for x field v
    using that by (auto simp: validate_limit_def max_limit_def split: option.splits if_splits)
  have b: "\<forall>v. np_max_bytes p = Some v \<longrightarrow> 0 < v \<and> v < 2 ^ 63"
      "\<forall>v. np_max_duration_seconds p = Some v \<longrightarrow> 0 < v \<and> v < 2 ^ 63"
    using l f(4,5) by metis+
  from f(6) h po m m2 b show ?thesis
    unfolding network_wf_def
    by (cases "np_purpose p = NoPurpose")
      (auto simp: validate_phase_purpose_def split: if_splits)
qed

theorem network_validate_wf_witness:
  "network_wf (\<lambda>_. None)
     \<lparr>np_phase = NEvaluation, np_purpose = DeclaredApi, np_egress_hosts = [''api.example.com''],
      np_egress_ports = [443], np_methods = [''GET''], np_max_bytes = Some 1000,
      np_max_duration_seconds = Some 60, np_cache_write = False, np_expires_at = None\<rparr>"
  by (rule network_validate_wf [of _
        "\<lparr>ni_phase = NEvaluation, ni_purpose = DeclaredApi, ni_egress_hosts = [''API.example.com.''],
          ni_egress_ports = [443], ni_methods = [''get''], ni_max_bytes = Some 1000,
          ni_max_duration_seconds = Some 60, ni_cache_write = FlagBool False,
          ni_expires_at = ExpNone\<rparr>"]) code_simp

section \<open>Host names\<close>

lemma host_label_chars: "host_label l \<Longrightarrow> c \<in> set l \<Longrightarrow> ascii_alnum c \<or> c = CHR ''-''"
  by (simp add: host_label_def list_all_iff)

lemma host_labels_chars:
  assumes "list_all host_label (split_on dot h)" and "c \<in> set h"
  shows "ascii_alnum c \<or> c = CHR ''-'' \<or> c = dot"
proof (cases "c = dot")
  case False
  with split_on_cover [OF assms(2)] obtain l where "l \<in> set (split_on dot h)" "c \<in> set l"
    by blast
  with assms(1) show ?thesis by (auto simp: list_all_iff dest: host_label_chars)
qed simp

lemma dropWhile_none: "\<forall>c \<in> set s. \<not> P c \<Longrightarrow> dropWhile P s = s"
  by (cases s) simp_all

lemma plain_host:
  assumes "\<And>c. c \<in> set h \<Longrightarrow> ascii_alnum c \<or> c = CHR ''-'' \<or> c = dot"
  shows "py_strip h = h" and "\<not> host_syntax_bad h"
proof -
  have nospace: "\<forall>c \<in> set h. \<not> py_isspace c"
    using assms by (force simp: ascii_alnum_def py_isspace_def Let_def)
  then show "py_strip h = h"
    by (simp add: py_strip_def dropWhile_none)
  have chars: "\<forall>c \<in> set h. c \<noteq> CHR 0x00 \<and> c \<noteq> slash \<and> c \<noteq> CHR 0x5C
      \<and> c \<noteq> CHR ''*'' \<and> c \<noteq> CHR ''?'' \<and> c \<noteq> CHR ''#'' \<and> c \<noteq> CHR ''@''"
  proof
    fix c assume "c \<in> set h"
    with assms have "ascii_alnum c \<or> c = CHR ''-'' \<or> c = dot" by blast
    then show "c \<noteq> CHR 0x00 \<and> c \<noteq> slash \<and> c \<noteq> CHR 0x5C
      \<and> c \<noteq> CHR ''*'' \<and> c \<noteq> CHR ''?'' \<and> c \<noteq> CHR ''#'' \<and> c \<noteq> CHR ''@''"
      by (elim disjE) (auto simp: ascii_alnum_def Let_def)
  qed
  then have "\<not> sublist ''://'' h" using set_mono_sublist [of "''://''" h] by auto
  with chars nospace show "\<not> host_syntax_bad h"
    by (auto simp: host_syntax_bad_def list_ex_iff)
qed

text \<open>
  an accepted host name is in normal form. Where neither the name nor its canonical form
  is an IP address, validating the canonical form again gives itself, so the allow-list of a
  policy and the host of a later request are compared in one normal form.
\<close>

theorem validate_host_idempotent:
  assumes "validate_host ip h = Inr c" and "ip h = None" and "ip c = None"
  shows "validate_host ip c = Inr c"
proof -
  let ?c = "py_lower (rstrip_char dot h)"
  from assms(1,2) have c: "c = ?c" and safe: "\<not> unsafe_name c"
    and labels: "list_all host_label (split_on dot c)" "\<not> length (split_on dot c) < 2"
    by (auto simp: validate_host_def Let_def split: if_splits)
  have "c \<noteq> []" using safe by (simp add: unsafe_name_def)
  have plain: "py_strip c = c" "\<not> host_syntax_bad c"
    using plain_host host_labels_chars [OF labels(1)] by blast+
  have "last c \<noteq> dot"
  proof
    assume "last c = dot"
    with \<open>c \<noteq> []\<close> obtain b where "c = b @ dot # []" by (metis append_butlast_last_id)
    then have "[] \<in> set (split_on dot c)" by (simp add: split_on_append)
    with labels(1) show False by (auto simp: list_all_iff host_label_def)
  qed
  then have "rstrip_char dot c = c"
    using \<open>c \<noteq> []\<close> by (cases c rule: rev_cases) (auto simp: rstrip_char_def)
  moreover have "py_lower c = c" by (simp add: c)
  ultimately show ?thesis
    using plain safe labels \<open>c \<noteq> []\<close> assms(3)
    by (simp add: validate_host_def Let_def)
qed

theorem validate_host_idempotent_witness:
  "validate_host (\<lambda>_. None) ''API.Example.com.'' = Inr ''api.example.com''
   \<and> validate_host (\<lambda>_. None) ''api.example.com'' = Inr ''api.example.com''"
proof -
  have v: "validate_host (\<lambda>_. None) ''API.Example.com.'' = Inr ''api.example.com''" by code_simp
  from validate_host_idempotent [OF v] v show ?thesis by simp
qed

text \<open>
  Dotted-quad addresses, as \<open>ipaddress.IPv4Address\<close> reads them (four decimal octets without
  leading zeros) and classifies them: a concrete instance of the parameter \<open>ip\<close>.
\<close>

fun digits_val :: "string \<Rightarrow> nat \<Rightarrow> nat" where
  "digits_val [] n = n"
| "digits_val (c # cs) n = digits_val cs (10 * n + (of_char c - 48))"

definition ipv4_octet :: "string \<Rightarrow> nat option" where
  "ipv4_octet s =
     (if s = [] \<or> length s > 3 \<or> \<not> list_all ascii_digit s
         \<or> (hd s = CHR ''0'' \<and> length s > 1) \<or> digits_val s 0 > 255
      then None else Some (digits_val s 0))"

definition ipv4 :: ip_lookup where
  "ipv4 s = (case map ipv4_octet (split_on dot s) of
     [Some a, Some b, Some c, Some d] \<Rightarrow>
       Some \<lparr>is_private = a = 0 \<or> a = 10 \<or> a = 127 \<or> (a = 169 \<and> b = 254)
               \<or> (a = 172 \<and> 16 \<le> b \<and> b \<le> 31) \<or> (a = 192 \<and> b = 168) \<or> a \<ge> 240,
             is_loopback = a = 127, is_link_local = (a = 169 \<and> b = 254),
             is_multicast = (224 \<le> a \<and> a \<le> 239), is_reserved = a \<ge> 240,
             is_unspecified = (a = 0 \<and> b = 0 \<and> c = 0 \<and> d = 0), compressed = s\<rparr>
   | _ \<Rightarrow> None)"

text \<open>
  The filter on private addresses can be passed with a trailing dot. \<open>127.0.0.1\<close> is
  refused as unsafe; \<open>127.0.0.1.\<close> is no IP address to \<open>ipaddress\<close>, is treated as a host
  name, loses its dot, and comes out as the allow-list entry \<open>127.0.0.1\<close>.
\<close>

theorem validate_host_trailing_dot:
  "validate_host ipv4 ''127.0.0.1'' = Inl (ValueError ''unsafe network egress host'')
   \<and> validate_host ipv4 ''127.0.0.1.'' = Inr ''127.0.0.1''
   \<and> map_option is_loopback (ipv4 ''127.0.0.1'') = Some True"
  by code_simp

end
