(* ===== verification/Enforcer.thy ===== *)
theory Enforcer
  imports Policy
begin

text \<open>
  Host-boundary enforcement: \<open>src/testudo/runtime/policy_enforcer.py\<close>.

  \<open>PolicyEnforcer\<close> is the record \<open>enforcer\<close>; every method is an \<open>act\<close> over it, so an
  exception keeps the assignments made before it. Each decision carries a receipt with the
  next sequence number, the clock reading and the digest of its payload.

  Parameters, collected in \<open>host_env\<close>: the IP address reader, the digest of canonical JSON,
  the rendering of datetimes and of pydantic errors, \<open>Path.resolve\<close> and \<open>Path.is_symlink\<close>
  on the host file system, the readings of the injected clock (the \<open>n\<close>-th call of
  \<open>self._clock()\<close>) and what the wipe callback raises. Arguments have the types the source
  annotates, which discharges its \<open>isinstance\<close> guards; a host path object is the list of
  its parts.
\<close>

datatype pyfloat = Finite rat | NonFinite

record host_env =
  ip_of :: ip_lookup
  digest_of :: "pyval \<Rightarrow> string"
  isofmt_of :: "py_datetime \<Rightarrow> string"
  render_of :: "exn list \<Rightarrow> string"
  resolve_of :: "hpath \<Rightarrow> hpath"
  symlink_of :: "hpath \<Rightarrow> bool"
  clock_of :: "nat \<Rightarrow> pyfloat"
  wipe_raises :: "nat \<Rightarrow> exn option"

section \<open>Lexical path guards\<close>

definition safe_guest_path :: "string \<Rightarrow> exn + string" where
  "safe_guest_path value =
     (if \<not> prefix ''/'' value then Inl (ValueError ''guest path must be absolute'')
      else if CHR 0x00 \<in> set value \<or> CHR 0x5C \<in> set value \<or> sublist ''//'' value
          \<or> (suffix ''/'' value \<and> value \<noteq> ''/'') then
        Inl (ValueError ''guest path is not canonical'')
      else if list_ex (\<lambda>part. part = ''.'' \<or> part = ''..'') (split_on slash value) then
        Inl (ValueError ''guest path contains path traversal'')
      else Inr value)"

definition safe_host_path :: "host_env \<Rightarrow> string \<Rightarrow> hpath \<Rightarrow> exn + hpath" where
  "safe_host_path env raw run_root =
     (if \<not> prefix ''/'' raw then Inl (ValueError ''host path must be absolute'')
      else if CHR 0x00 \<in> set raw \<or> CHR 0x5C \<in> set raw then
        Inl (ValueError ''host path is not canonical'')
      else if list_ex (\<lambda>part. part = ''.'' \<or> part = ''..'') (posix_parts raw) then
        Inl (ValueError ''host path contains path traversal'')
      else let resolved_root = resolve_of env run_root;
               resolved_candidate = resolve_of env (posix_parts raw)
           in if \<not> prefix resolved_root resolved_candidate then
                Inl (ValueError ''host path is outside run-local root'')
              else Inr resolved_candidate)"

section \<open>Receipts and decisions\<close>

record policy_receipt =
  r_operation :: string
  r_decision :: string
  r_policy_digest :: string
  r_target :: string
  r_reason :: string
  r_sequence :: int
  r_issued_at :: pyval
  r_phase :: string
  r_purpose :: string
  r_details :: pydict
  r_receipt_id :: string

definition receipt_schema :: string where
  "receipt_schema = ''testudo.runtime.policy.receipt.v1''"

definition receipt_payload :: "policy_receipt \<Rightarrow> pydict" where
  "receipt_payload r =
     [(''schema'', PStr receipt_schema),
      (''operation'', PStr (r_operation r)),
      (''decision'', PStr (r_decision r)),
      (''policy_digest'', PStr (r_policy_digest r)),
      (''target'', PStr (r_target r)),
      (''reason'', PStr (r_reason r)),
      (''sequence'', PInt (r_sequence r)),
      (''issued_at'', r_issued_at r),
      (''phase'', PStr (r_phase r)),
      (''purpose'', PStr (r_purpose r)),
      (''details'', PDict (r_details r))]"

fun is_str :: "pyval \<Rightarrow> bool" where
  "is_str (PStr _) = True"
| "is_str _ = False"

fun the_str :: "pyval \<Rightarrow> string" where
  "the_str (PStr s) = s"
| "the_str _ = []"

fun unhashable :: "pyval \<Rightarrow> bool" where
  "unhashable (PList _) = True"
| "unhashable (PDict _) = True"
| "unhashable _ = False"

text \<open>\<open>PolicyReceipt(...)\<close> with \<open>__post_init__\<close>, on fields of any type.\<close>

definition make_receipt ::
  "(pyval \<Rightarrow> string) \<Rightarrow> pyval \<Rightarrow> pyval \<Rightarrow> pyval \<Rightarrow> pyval \<Rightarrow> pyval \<Rightarrow> pyval \<Rightarrow> pyval \<Rightarrow> pyval \<Rightarrow> pyval
     \<Rightarrow> pydict \<Rightarrow> exn + policy_receipt" where
  "make_receipt H operation decision digest target reason seq issued_at phase purpose details =
     (if \<not> list_all is_str [operation, digest, target, reason, phase, purpose]
         \<or> the_str operation = [] then
        Inl (ValueError ''policy receipt operation and identity fields are required'')
      else if unhashable decision then Inl (TypeError ''unhashable type'')
      else if decision \<noteq> PStr ''allow'' \<and> decision \<noteq> PStr ''deny'' then
        Inl (ValueError ''policy receipt decision is invalid'')
      else if \<not> is_policy_digest (the_str digest) then
        Inl (ValueError ''policy receipt must carry a SHA-256 policy digest'')
      else (case seq of
        PInt n \<Rightarrow>
          if n < 0 \<or> \<not> (case issued_at of PInt _ \<Rightarrow> True | PFloat _ \<Rightarrow> True | _ \<Rightarrow> False) then
            Inl (ValueError ''policy receipt sequence/time is invalid'')
          else let r = \<lparr>r_operation = the_str operation, r_decision = the_str decision,
                        r_policy_digest = the_str digest, r_target = the_str target,
                        r_reason = the_str reason, r_sequence = n, r_issued_at = issued_at,
                        r_phase = the_str phase, r_purpose = the_str purpose,
                        r_details = details, r_receipt_id = []\<rparr>
               in Inr (r\<lparr>r_receipt_id := H (PDict (receipt_payload r))\<rparr>)
      | _ \<Rightarrow> Inl (ValueError ''policy receipt sequence/time is invalid'')))"

definition receipt_allowed :: "policy_receipt \<Rightarrow> bool" where
  "receipt_allowed r \<longleftrightarrow> r_decision r = ''allow''"

definition receipt_verify :: "(pyval \<Rightarrow> string) \<Rightarrow> policy_receipt \<Rightarrow> string \<Rightarrow> bool" where
  "receipt_verify H r expected \<longleftrightarrow>
     is_policy_digest expected \<and> r_policy_digest r = expected
     \<and> r_receipt_id r = H (PDict (receipt_payload r))"

definition receipt_to_dict :: "policy_receipt \<Rightarrow> pydict" where
  "receipt_to_dict r = receipt_payload r @ [(''receipt_id'', PStr (r_receipt_id r))]"

definition receipt_required :: "string list" where
  "receipt_required = [''schema'', ''operation'', ''decision'', ''policy_digest'', ''target'',
     ''reason'', ''sequence'', ''issued_at'', ''phase'', ''purpose'', ''details'', ''receipt_id'']"

definition receipt_from_dict :: "(pyval \<Rightarrow> string) \<Rightarrow> pydict \<Rightarrow> exn + policy_receipt" where
  "receipt_from_dict H value =
     (if list_ex (\<lambda>name. map_of value name = None) receipt_required then
        Inl (ValueError ''policy receipt is missing required fields'')
      else if dict_get value ''schema'' \<noteq> PStr receipt_schema then
        Inl (ValueError ''unsupported policy receipt schema'')
      else (case dict_get value ''details'' of
        PDict details \<Rightarrow>
          rbind (make_receipt H (dict_get value ''operation'') (dict_get value ''decision'')
                   (dict_get value ''policy_digest'') (dict_get value ''target'')
                   (dict_get value ''reason'') (dict_get value ''sequence'')
                   (dict_get value ''issued_at'') (dict_get value ''phase'')
                   (dict_get value ''purpose'') details)
            (\<lambda>r. if dict_get value ''receipt_id'' \<noteq> PStr (r_receipt_id r)
                 then Inl (ValueError ''policy receipt id mismatch'') else Inr r)
      | _ \<Rightarrow> Inl (ValueError ''policy receipt details must be a map'')))"

record policy_decision =
  d_operation :: string
  d_allowed :: bool
  d_reason :: string
  d_receipt :: policy_receipt
  d_policy_digest :: string
  d_target :: string
  d_phase :: string
  d_purpose :: string

text \<open>
  \<open>PolicyDecision.require\<close>: \<open>PolicyBindingError\<close> and \<open>PolicyDenied\<close> as values of the
  error side.
\<close>

datatype policy_refusal = PolicyBindingError policy_decision | PolicyDenied policy_decision

definition decision_require :: "policy_decision \<Rightarrow> policy_refusal + policy_receipt" where
  "decision_require d =
     (if \<not> d_allowed d then
        (if sublist ''digest'' (d_reason d) \<or> sublist ''binding'' (d_reason d)
         then Inl (PolicyBindingError d) else Inl (PolicyDenied d))
      else Inr (d_receipt d))"

section \<open>Wipe state\<close>

text \<open>
  A callback is a number; \<open>ws_calls\<close> lists the calls made. The state is changed before the
  callback runs, so a callback that raises is not called again.
\<close>

record wipe_state =
  ws_callback :: "nat option"
  ws_wiped :: bool
  ws_receipt :: "policy_receipt option"
  ws_calls :: "nat list"

definition zero_digest :: string where "zero_digest = replicate 64 (CHR ''0'')"

definition wipe_receipt ::
  "(pyval \<Rightarrow> string) \<Rightarrow> string \<Rightarrow> string \<Rightarrow> pyval \<Rightarrow> exn + policy_receipt" where
  "wipe_receipt H reason digest issued_at =
     make_receipt H (PStr ''wipe'') (PStr ''allow'') (PStr digest) (PStr ''run-local-state'')
       (PStr reason) (PInt 0) issued_at (PStr '''') (PStr ''none'') []"

definition wipe_state_new :: "nat option list \<Rightarrow> exn + wipe_state" where
  "wipe_state_new args =
     (let callbacks = List.map_filter id args in
      if length callbacks > 1 then Inl (ValueError ''provide only one wipe callback'')
      else Inr \<lparr>ws_callback = (if callbacks = [] then None else Some (hd callbacks)),
                ws_wiped = False, ws_receipt = None, ws_calls = []\<rparr>)"

definition mark_wiped :: "(pyval \<Rightarrow> string) \<Rightarrow> (wipe_state, unit) act" where
  "mark_wiped H =
     abind (aset (\<lambda>w. w\<lparr>ws_wiped := True\<rparr>)) (\<lambda>_.
     awith (\<lambda>w. case ws_receipt w of
        Some _ \<Rightarrow> aret ()
      | None \<Rightarrow> abind (alift (wipe_receipt H ''already_wiped'' zero_digest (PFloat 0)))
          (\<lambda>r. aset (\<lambda>w. w\<lparr>ws_receipt := Some r\<rparr>))))"

definition wipe_state_wipe ::
  "(pyval \<Rightarrow> string) \<Rightarrow> (nat \<Rightarrow> exn option) \<Rightarrow> nat option \<Rightarrow> string \<Rightarrow> string \<Rightarrow> pyval
     \<Rightarrow> (wipe_state, policy_receipt) act" where
  "wipe_state_wipe H raises callback reason digest issued_at =
     awith (\<lambda>w.
       if callback \<noteq> None \<and> ws_callback w \<noteq> None \<and> callback \<noteq> ws_callback w then
         araise (ValueError ''wipe callback is already configured'')
       else
         abind (aset (\<lambda>w. if callback \<noteq> None \<and> ws_callback w = None
                          then w\<lparr>ws_callback := callback\<rparr> else w)) (\<lambda>_.
         if \<not> is_policy_digest digest then
           araise (ValueError ''wipe receipt requires a policy digest'')
         else awith (\<lambda>w. case ws_receipt w of
             Some r \<Rightarrow> aret r
           | None \<Rightarrow>
               abind (aset (\<lambda>w. w\<lparr>ws_wiped := True\<rparr>)) (\<lambda>_.
               abind (alift (wipe_receipt H reason digest issued_at)) (\<lambda>r.
               abind (aset (\<lambda>w. w\<lparr>ws_receipt := Some r\<rparr>)) (\<lambda>_.
               awith (\<lambda>w. case ws_callback w of
                   None \<Rightarrow> aret r
                 | Some c \<Rightarrow>
                     abind (aset (\<lambda>w. w\<lparr>ws_calls := ws_calls w @ [c]\<rparr>)) (\<lambda>_.
                     case raises c of Some e \<Rightarrow> araise e | None \<Rightarrow> aret r))))))))"

section \<open>Validation before enforcement\<close>

datatype storage_arg = StorageObj storage_policy | StorageMap storage_policy
datatype network_arg = NetworkObj network_policy | NetworkMap network_input

definition coerce_policies ::
  "host_env \<Rightarrow> storage_arg \<Rightarrow> network_arg \<Rightarrow> exn + storage_policy \<times> network_policy" where
  "coerce_policies env sa na =
     (case (case sa of StorageObj p \<Rightarrow> Inr p | StorageMap p \<Rightarrow> storage_validate p) of
        Inl es \<Rightarrow> Inl (PolicyValidationError (render_of env es))
      | Inr storage \<Rightarrow>
          (case (case na of NetworkObj p \<Rightarrow> Inr p | NetworkMap i \<Rightarrow> network_validate (ip_of env) i) of
             Inl es \<Rightarrow> Inl (PolicyValidationError (render_of env es))
           | Inr network \<Rightarrow> Inr (storage, network)))"

definition validate_run_root :: "host_env \<Rightarrow> string option \<Rightarrow> exn + hpath option" where
  "validate_run_root env value =
     (case value of
        None \<Rightarrow> Inr None
      | Some raw \<Rightarrow>
          if \<not> prefix ''/'' raw then
            Inl (PolicyValidationError ''run_root must be an absolute host path'')
          else if CHR 0x00 \<in> set raw \<or> CHR 0x5C \<in> set raw then
            Inl (PolicyValidationError ''run_root is not a canonical host path'')
          else if list_ex (\<lambda>part. part = ''.'' \<or> part = ''..'') (posix_parts raw) then
            Inl (PolicyValidationError ''run_root contains path traversal'')
          else if symlink_of env (posix_parts raw) then
            Inl (PolicyValidationError ''run_root must not be a symlink'')
          else Inr (Some (resolve_of env (posix_parts raw))))"

text \<open>
  \<open>validate_policy\<close> returns the validated pair with its digest, or the exception whose text
  the caller finds in \<open>PolicyValidation.errors\<close>.
\<close>

definition validate_policy ::
  "host_env \<Rightarrow> storage_arg \<Rightarrow> network_arg \<Rightarrow> string option
     \<Rightarrow> exn + string \<times> storage_policy \<times> network_policy" where
  "validate_policy env sa na run_root =
     rbind (coerce_policies env sa na) (\<lambda>(storage, network).
     rbind (validate_run_root env run_root) (\<lambda>root.
       if sp_host_scope storage \<noteq> RunLocal \<or> sp_host_mounts storage \<noteq> [] then
         Inl (PolicyValidationError ''storage must use the run_local scope without host mounts'')
       else if root = Some [''/''] then
         Inl (PolicyValidationError ''run_root must not be the host root'')
       else Inr (policy_digest (digest_of env) (isofmt_of env) storage network, storage, network)))"

datatype ts_value = TsNone | TsBool bool | TsNum pyfloat | TsDatetime py_datetime

definition as_timestamp :: "ts_value \<Rightarrow> string \<Rightarrow> exn + rat option" where
  "as_timestamp value field_name =
     (let positive = (\<lambda>t. if t \<le> 0
        then Inl (ValueError (field_name @ '' must be a finite positive timestamp''))
        else Inr (Some t))
      in case value of
        TsNone \<Rightarrow> Inr None
      | TsDatetime d \<Rightarrow>
          if \<not> aware d then Inl (ValueError (field_name @ '' must include a timezone''))
          else positive (epoch d)
      | TsBool _ \<Rightarrow> Inl (ValueError (field_name @ '' must be a finite timestamp''))
      | TsNum NonFinite \<Rightarrow>
          Inl (ValueError (field_name @ '' must be a finite positive timestamp''))
      | TsNum (Finite t) \<Rightarrow> positive t)"

section \<open>The enforcer\<close>

record enforcer =
  e_storage :: storage_policy
  e_network :: network_policy
  e_run_root :: "hpath option"
  e_digest :: string
  e_binding_error :: "string option"
  e_started_at :: rat
  e_expires_at :: "rat option"
  e_network_bytes :: int
  e_sequence :: nat
  e_launch_receipt :: "policy_receipt option"
  e_published :: bool
  e_wipe :: wipe_state
  e_ticks :: nat

text \<open>One call of \<open>_validate_clock(self._clock)\<close>.\<close>

definition read_clock :: "host_env \<Rightarrow> (enforcer, rat) act" where
  "read_clock env e =
     ((case clock_of env (e_ticks e) of
         NonFinite \<Rightarrow> Inl (ValueError ''clock must return a finite number'')
       | Finite t \<Rightarrow> Inr t),
      e\<lparr>e_ticks := Suc (e_ticks e)\<rparr>)"

text \<open>
  \<open>PolicyEnforcer.__init__\<close>. The clock is read once, as call number 0; \<open>wipes\<close> are the
  three callback arguments.
\<close>

definition enforcer_init ::
  "host_env \<Rightarrow> storage_arg \<Rightarrow> network_arg \<Rightarrow> string option \<Rightarrow> string option \<Rightarrow> string option
     \<Rightarrow> ts_value \<Rightarrow> nat option list \<Rightarrow> exn + enforcer" where
  "enforcer_init env sa na run_root expected_digest policy_digest_arg expires_at wipes =
     (if expected_digest \<noteq> None \<and> policy_digest_arg \<noteq> None \<and> expected_digest \<noteq> policy_digest_arg
      then Inl (PolicyValidationError ''expected_digest and policy_digest disagree'')
      else
        rbind (coerce_policies env sa na) (\<lambda>(storage, network).
        rbind (validate_run_root env run_root) (\<lambda>root.
          if root = Some [''/''] then
            Inl (PolicyValidationError ''run_root must not be the host root'')
          else
            let digest = policy_digest (digest_of env) (isofmt_of env) storage network;
                supplied = (if expected_digest \<noteq> None then expected_digest else policy_digest_arg);
                expected = (case supplied of None \<Rightarrow> digest | Some d \<Rightarrow> d);
                binding = (if \<not> is_policy_digest expected then Some ''policy digest is malformed''
                           else if expected \<noteq> digest
                           then Some ''policy digest does not match declared policy'' else None)
            in rbind (case clock_of env 0 of
                   NonFinite \<Rightarrow> Inl (ValueError ''clock must return a finite number'')
                 | Finite t \<Rightarrow> Inr t) (\<lambda>started.
               rbind (as_timestamp expires_at ''expires_at'') (\<lambda>expiry.
               rbind (case (expiry, np_expires_at network) of
                        (None, Some d) \<Rightarrow> as_timestamp (TsDatetime d) ''policy expires_at''
                      | _ \<Rightarrow> Inr expiry) (\<lambda>expiry'.
                 let callbacks = List.map_filter id wipes in
                 if length callbacks > 1 then Inl (PolicyValidationError ''wipe callbacks disagree'')
                 else rbind (wipe_state_new [if callbacks = [] then None else Some (hd callbacks)])
                   (\<lambda>ws. Inr \<lparr>e_storage = storage, e_network = network, e_run_root = root,
                      e_digest = digest, e_binding_error = binding, e_started_at = started,
                      e_expires_at = expiry', e_network_bytes = 0, e_sequence = 0,
                      e_launch_receipt = None, e_published = False, e_wipe = ws,
                      e_ticks = 1\<rparr>)))))))"

record mount_binding =
  mb_host_path :: string
  mb_guest_path :: string
  mb_mode :: string

definition mounts :: "enforcer \<Rightarrow> mount_binding list" where
  "mounts e = (case e_run_root e of
     None \<Rightarrow> []
   | Some rt \<Rightarrow>
       [\<lparr>mb_host_path = path_str rt, mb_guest_path = sp_workspace (e_storage e), mb_mode = ''rw''\<rparr>,
        \<lparr>mb_host_path = path_str (rt @ [''inputs'']), mb_guest_path = sp_inputs (e_storage e),
         mb_mode = ''ro''\<rparr>]
       @ (case sp_cache (e_storage e) of
            None \<Rightarrow> []
          | Some c \<Rightarrow> [\<lparr>mb_host_path = path_str (rt @ [''cache'']), mb_guest_path = c,
              mb_mode = (if sp_cache_access (e_storage e) = ReadWrite then ''rw'' else ''ro'')\<rparr>]))"

definition mount_to_dict :: "mount_binding \<Rightarrow> pyval" where
  "mount_to_dict m = PDict [(''host_path'', PStr (mb_host_path m)),
     (''guest_path'', PStr (mb_guest_path m)), (''mode'', PStr (mb_mode m))]"

text \<open>\<open>_next\<close> and \<open>_decision\<close>: a fresh sequence number, a clock reading, a receipt.\<close>

definition decision ::
  "host_env \<Rightarrow> string \<Rightarrow> bool \<Rightarrow> string \<Rightarrow> string \<Rightarrow> string option \<Rightarrow> string option \<Rightarrow> pydict
     \<Rightarrow> (enforcer, policy_decision) act" where
  "decision env operation allowed reason target phase purpose details =
     awith (\<lambda>e. let seq = e_sequence e;
        ph = (case phase of None \<Rightarrow> phase_str (np_phase (e_network e)) | Some p \<Rightarrow> p);
        pu = (case purpose of None \<Rightarrow> purpose_str (np_purpose (e_network e)) | Some p \<Rightarrow> p)
      in abind (aset (\<lambda>e. e\<lparr>e_sequence := Suc seq\<rparr>)) (\<lambda>_.
         abind (read_clock env) (\<lambda>now.
         abind (alift (make_receipt (digest_of env) (PStr operation)
                  (PStr (if allowed then ''allow'' else ''deny'')) (PStr (e_digest e))
                  (PStr target) (PStr reason) (PInt (int seq)) (PFloat now) (PStr ph) (PStr pu)
                  details)) (\<lambda>r.
         aret \<lparr>d_operation = operation, d_allowed = allowed, d_reason = reason, d_receipt = r,
               d_policy_digest = e_digest e, d_target = target, d_phase = r_phase r,
               d_purpose = r_purpose r\<rparr>))))"

definition common_denial ::
  "host_env \<Rightarrow> string option \<Rightarrow> bool \<Rightarrow> (enforcer, string option) act" where
  "common_denial env candidate require_digest =
     awith (\<lambda>e.
       if e_binding_error e \<noteq> None then aret (e_binding_error e)
       else if require_digest \<and> candidate = None then
         aret (Some ''policy digest binding is required'')
       else if (case candidate of None \<Rightarrow> False
                | Some d \<Rightarrow> \<not> is_policy_digest d \<or> d \<noteq> e_digest e) then
         aret (Some ''policy digest mismatch'')
       else if ws_wiped (e_wipe e) then aret (Some ''run state has been wiped'')
       else abind (read_clock env) (\<lambda>now.
         case e_expires_at e of
           Some t \<Rightarrow> if now \<ge> t then aret (Some ''policy expired'') else aret None
         | None \<Rightarrow> aret None))"

definition network_expiry_reason :: "host_env \<Rightarrow> (enforcer, string option) act" where
  "network_expiry_reason env =
     awith (\<lambda>e. case np_max_duration_seconds (e_network e) of
        None \<Rightarrow> aret None
      | Some d \<Rightarrow> abind (read_clock env) (\<lambda>now.
          if now - e_started_at e \<ge> of_int d then aret (Some ''network policy duration expired'')
          else aret None))"

definition mount_candidates :: "enforcer \<Rightarrow> (string \<times> cache_access) list" where
  "mount_candidates e =
     [(sp_workspace (e_storage e), ReadWrite), (sp_inputs (e_storage e), ReadOnly)]
     @ (case sp_cache (e_storage e) of None \<Rightarrow> []
        | Some c \<Rightarrow> [(c, sp_cache_access (e_storage e))])"

definition mount_for_guest :: "enforcer \<Rightarrow> string \<Rightarrow> (string \<times> cache_access) option" where
  "mount_for_guest e guest = List.find (\<lambda>(pre, mode). under guest pre) (mount_candidates e)"

definition expected_host_path :: "host_env \<Rightarrow> enforcer \<Rightarrow> string \<Rightarrow> string \<Rightarrow> hpath option" where
  "expected_host_path env e guest pre =
     (case e_run_root e of
        None \<Rightarrow> None
      | Some rt \<Rightarrow>
          let suff = path_comps (lstrip_char slash (drop (length pre) guest)) in
          if pre = sp_workspace (e_storage e) then Some (resolve_of env (rt @ suff))
          else if pre = sp_inputs (e_storage e) then
            Some (resolve_of env (rt @ [''inputs''] @ suff))
          else if sp_cache (e_storage e) = Some pre then
            Some (resolve_of env (rt @ [''cache''] @ suff))
          else None)"

section \<open>Checks\<close>

text \<open>Every refusal is a recorded decision.\<close>

definition deny :: "host_env \<Rightarrow> string \<Rightarrow> string \<Rightarrow> string \<Rightarrow> (enforcer, policy_decision) act" where
  "deny env operation reason target = decision env operation False reason target None None []"

definition mode_of :: "cache_access \<Rightarrow> string" where
  "mode_of a = (if a = ReadWrite then ''rw'' else ''ro'')"

definition check_mount ::
  "host_env \<Rightarrow> string \<Rightarrow> string \<Rightarrow> string \<Rightarrow> string option \<Rightarrow> (enforcer, policy_decision) act" where
  "check_mount env host_path guest_path mode digest =
     (let target = host_path @ '':'' @ guest_path @ '':'' @ mode in
      abind (common_denial env digest False) (\<lambda>common.
      case common of Some reason \<Rightarrow> deny env ''mount'' reason target
      | None \<Rightarrow> awith (\<lambda>e. case e_run_root e of
          None \<Rightarrow> deny env ''mount'' ''run_root is required for host mounts'' target
        | Some rt \<Rightarrow>
          (case rbind (safe_guest_path guest_path) (\<lambda>g.
                rbind (safe_host_path env host_path rt) (\<lambda>h. Inr (g, h))) of
             Inl exc \<Rightarrow> deny env ''mount'' (exn_msg exc) target
           | Inr (guest, host) \<Rightarrow>
             (case mount_for_guest e guest of
                None \<Rightarrow> deny env ''mount'' ''guest mount is not a declared run-local path'' target
              | Some (pre, access) \<Rightarrow>
                  if guest \<noteq> pre then
                    deny env ''mount'' ''mount must target the declared guest root'' target
                  else if expected_host_path env e guest pre \<noteq> Some host then
                    deny env ''mount'' ''host mount is not bound to the declared guest path'' target
                  else if mode \<noteq> mode_of access then
                    deny env ''mount'' ''mount mode exceeds declared cache/storage mode'' target
                  else decision env ''mount'' True ''mount is declared and run-local'' target
                    None None [(''host_path'', PStr (path_str host)), (''guest_path'', PStr guest),
                               (''mode'', PStr mode)])))))"

definition check_storage ::
  "host_env \<Rightarrow> string \<Rightarrow> string \<Rightarrow> string option \<Rightarrow> string option
     \<Rightarrow> (enforcer, policy_decision) act" where
  "check_storage env guest_path operation host_path digest =
     (let target = guest_path; label = ''storage.'' @ operation in
      abind (common_denial env digest False) (\<lambda>common.
      case common of Some reason \<Rightarrow> deny env label reason target
      | None \<Rightarrow> awith (\<lambda>e. case safe_guest_path guest_path of
          Inl exc \<Rightarrow> deny env label (exn_msg exc) target
        | Inr guest \<Rightarrow>
          if operation \<notin> {''read'', ''write'', ''mount''} then
            deny env label ''unknown storage operation'' target
          else (case mount_for_guest e guest of
            None \<Rightarrow> deny env label ''guest path is outside declared run-local paths'' target
          | Some (pre, access) \<Rightarrow>
              if operation = ''write'' \<and> access \<noteq> ReadWrite then
                deny env ''storage.write'' ''write exceeds declared cache/storage mode'' target
              else if operation = ''mount'' then
                (if guest \<noteq> pre then
                   deny env ''storage.mount'' ''mount must target the declared guest root'' target
                 else check_mount env (case host_path of None \<Rightarrow> [] | Some h \<Rightarrow> h) guest
                   (mode_of access) digest)
              else
                let allow = decision env label True ''path is declared and within run-local scope''
                  target None None [(''guest_path'', PStr guest), (''operation'', PStr operation),
                                    (''mode'', PStr (cache_access_str access))]
                in case host_path of
                  None \<Rightarrow> allow
                | Some hp \<Rightarrow> (case e_run_root e of
                    None \<Rightarrow> deny env label ''run_root is required for host paths'' target
                  | Some rt \<Rightarrow> (case safe_host_path env hp rt of
                      Inl exc \<Rightarrow> deny env label (exn_msg exc) target
                    | Inr actual \<Rightarrow>
                        if expected_host_path env e guest pre \<noteq> Some actual then
                          deny env label ''host path is not bound to guest path'' target
                        else allow))))))"

definition check_storage_path ::
  "host_env \<Rightarrow> string \<Rightarrow> bool \<Rightarrow> string option \<Rightarrow> string option \<Rightarrow> string option
     \<Rightarrow> (enforcer, policy_decision) act" where
  "check_storage_path env guest_path write operation host_path digest =
     check_storage env guest_path
       (case operation of Some op \<Rightarrow> op | None \<Rightarrow> if write then ''write'' else ''read'')
       host_path digest"

record network_request =
  nr_host :: string
  nr_port :: int
  nr_method :: string
  nr_phase :: "string option"
  nr_purpose :: "string option"
  nr_byte_count :: int
  nr_bytes :: "int option"
  nr_digest :: "string option"
  nr_elapsed :: "pyfloat option"

definition request_bytes :: "network_request \<Rightarrow> int" where
  "request_bytes q = (case nr_bytes q of None \<Rightarrow> nr_byte_count q | Some b \<Rightarrow> b)"

text \<open>
  The guards after the common and duration checks, in source order: \<open>Inl\<close> carries the
  reason of the refusal, \<open>Inr\<close> the normalised host and method.
\<close>

definition network_guards ::
  "ip_lookup \<Rightarrow> network_policy \<Rightarrow> int \<Rightarrow> network_request \<Rightarrow> exn + string \<times> string" where
  "network_guards ip np used q =
     (if nr_phase q \<noteq> None \<and> nr_phase q \<noteq> Some (phase_str (np_phase np)) then
        Inl (ValueError ''network phase mismatch'')
      else if nr_purpose q \<noteq> None \<and> nr_purpose q \<noteq> Some (purpose_str (np_purpose np)) then
        Inl (ValueError ''network purpose mismatch'')
      else rbind (validate_host ip (nr_host q)) (\<lambda>host.
        if host \<notin> set (np_egress_hosts np) then
          Inl (ValueError ''host is not in the exact egress allow-list'')
        else if nr_port q \<notin> set (np_egress_ports np) then
          Inl (ValueError ''port is not in the exact egress allow-list'')
        else let method = py_upper (nr_method q) in
        if method \<notin> set (np_methods np) then
          Inl (ValueError ''method is not in the exact egress allow-list'')
        else if request_bytes q < 0 then
          Inl (ValueError ''byte count must be a non-negative integer'')
        else if (case nr_elapsed q of
                   Some NonFinite \<Rightarrow> True | Some (Finite t) \<Rightarrow> t < 0 | None \<Rightarrow> False) then
          Inl (ValueError ''elapsed time must be finite and non-negative'')
        else if (case (nr_elapsed q, np_max_duration_seconds np) of
                   (Some (Finite t), Some d) \<Rightarrow> t \<ge> of_int d | _ \<Rightarrow> False) then
          Inl (ValueError ''network policy duration expired'')
        else if (case np_max_bytes np of None \<Rightarrow> True
                 | Some limit \<Rightarrow> used + request_bytes q > limit) then
          Inl (ValueError ''network byte limit exceeded'')
        else Inr (host, method)))"

definition net_target :: "string \<Rightarrow> int \<Rightarrow> string \<Rightarrow> string" where
  "net_target host port method = host @ '':'' @ int_str port @ '':'' @ method"

definition check_network :: "host_env \<Rightarrow> network_request \<Rightarrow> (enforcer, policy_decision) act" where
  "check_network env q =
     (let target = net_target (nr_host q) (nr_port q) (nr_method q);
          refuse = (\<lambda>reason. decision env ''network.egress'' False reason target
                      (nr_phase q) (nr_purpose q) [])
      in abind (common_denial env (nr_digest q) False) (\<lambda>common.
         case common of Some reason \<Rightarrow> refuse reason
         | None \<Rightarrow> awith (\<lambda>e.
             if np_purpose (e_network e) = NoPurpose then
               refuse (''network egress is denied by purpose='' @ py_repr ''none'')
             else abind (network_expiry_reason env) (\<lambda>expired.
               case expired of Some reason \<Rightarrow> refuse reason
               | None \<Rightarrow>
                 (case network_guards (ip_of env) (e_network e) (e_network_bytes e) q of
                    Inl exc \<Rightarrow> refuse (exn_msg exc)
                  | Inr (host, method) \<Rightarrow>
                      abind (aset (\<lambda>e. e\<lparr>e_network_bytes := e_network_bytes e + request_bytes q\<rparr>))
                        (\<lambda>_. awith (\<lambda>e. decision env ''network.egress'' True
                           ''exact egress is allowed within policy limits''
                           (net_target host (nr_port q) method) (nr_phase q) (nr_purpose q)
                           [(''host'', PStr host), (''port'', PInt (nr_port q)),
                            (''method'', PStr method), (''bytes'', PInt (request_bytes q)),
                            (''total_bytes'', PInt (e_network_bytes e))])))))))"

section \<open>Launch, publication, wipe\<close>

fun check_mount_plan ::
  "host_env \<Rightarrow> string option \<Rightarrow> mount_binding list \<Rightarrow> (enforcer, policy_decision option) act" where
  "check_mount_plan env digest [] = aret None"
| "check_mount_plan env digest (m # ms) =
     abind (check_mount env (mb_host_path m) (mb_guest_path m) (mb_mode m) digest) (\<lambda>d.
       if \<not> d_allowed d then aret (Some d) else check_mount_plan env digest ms)"

definition before_launch :: "host_env \<Rightarrow> string option \<Rightarrow> (enforcer, policy_decision) act" where
  "before_launch env digest =
     abind (common_denial env digest False) (\<lambda>common.
     case common of Some reason \<Rightarrow> deny env ''launch'' reason []
     | None \<Rightarrow> awith (\<lambda>e.
         if e_run_root e = None then deny env ''launch'' ''run_root is required before launch'' []
         else abind (network_expiry_reason env) (\<lambda>expired.
           case expired of Some reason \<Rightarrow> deny env ''launch'' reason []
           | None \<Rightarrow>
             abind (check_mount_plan env digest (mounts e)) (\<lambda>bad.
             case bad of
               Some d \<Rightarrow> decision env ''launch'' False ''mount plan is not enforceable'' []
                 None None (receipt_to_dict (d_receipt d))
             | None \<Rightarrow>
                 abind (decision env ''launch'' True ''policy validated and mount plan is enforceable''
                    [] None None
                    [(''policy_digest'', PStr (e_digest e)),
                     (''mounts'', PList (map mount_to_dict (mounts e)))]) (\<lambda>d.
                 abind (aset (\<lambda>e. e\<lparr>e_launch_receipt := Some (d_receipt d)\<rparr>)) (\<lambda>_.
                 aret d))))))"

datatype launch_arg =
    NoReceipt
  | FromDecision policy_decision
  | FromReceipt policy_receipt
  | FromMapping pydict

definition coerce_launch_receipt ::
  "(pyval \<Rightarrow> string) \<Rightarrow> enforcer \<Rightarrow> launch_arg \<Rightarrow> exn + policy_receipt option" where
  "coerce_launch_receipt H e value =
     (case value of
        NoReceipt \<Rightarrow> Inr (e_launch_receipt e)
      | FromDecision d \<Rightarrow> Inr (Some (d_receipt d))
      | FromReceipt r \<Rightarrow> Inr (Some r)
      | FromMapping m \<Rightarrow> (case receipt_from_dict H m of
            Inr r \<Rightarrow> Inr (Some r)
          | Inl exc \<Rightarrow> if is_ValueError exc then Inr None else Inl exc))"

definition before_publication ::
  "host_env \<Rightarrow> launch_arg \<Rightarrow> string option \<Rightarrow> int \<Rightarrow> int option \<Rightarrow> (enforcer, policy_decision) act" where
  "before_publication env launch_receipt digest byte_count bytes =
     abind (common_denial env digest False) (\<lambda>common.
     case common of Some reason \<Rightarrow> deny env ''publication'' reason []
     | None \<Rightarrow> awith (\<lambda>e.
         abind (alift (coerce_launch_receipt (digest_of env) e launch_receipt)) (\<lambda>receipt.
         case receipt of
           None \<Rightarrow> deny env ''publication'' ''an allowed launch receipt is required'' []
         | Some r \<Rightarrow>
             if r_operation r \<noteq> ''launch'' \<or> \<not> receipt_allowed r then
               deny env ''publication'' ''an allowed launch receipt is required'' []
             else if \<not> receipt_verify (digest_of env) r (e_digest e) then
               deny env ''publication'' ''launch receipt policy digest mismatch'' []
             else let n = (case bytes of None \<Rightarrow> byte_count | Some b \<Rightarrow> b) in
             abind (network_expiry_reason env) (\<lambda>expired.
             case expired of Some reason \<Rightarrow> deny env ''publication'' reason []
             | None \<Rightarrow>
               if n < 0 then
                 deny env ''publication'' ''publication byte count must be non-negative'' []
               else if (case np_max_bytes (e_network e) of
                          None \<Rightarrow> False | Some limit \<Rightarrow> e_network_bytes e + n > limit) then
                 deny env ''publication'' ''publication exceeds network byte limit'' []
               else if e_published e then
                 deny env ''publication'' ''publication has already been authorized'' []
               else abind (aset (\<lambda>e. e\<lparr>e_published := True\<rparr>)) (\<lambda>_.
                 decision env ''publication'' True ''publication is bound to the admitted policy''
                   [] None None
                   [(''launch_receipt_id'', PStr (r_receipt_id r)),
                    (''policy_digest'', PStr (e_digest e)), (''bytes'', PInt n)])))))"

definition check_policy_digest ::
  "host_env \<Rightarrow> string option \<Rightarrow> (enforcer, policy_decision) act" where
  "check_policy_digest env candidate =
     abind (common_denial env candidate True) (\<lambda>reason.
     case reason of Some r \<Rightarrow> deny env ''policy_digest'' r []
     | None \<Rightarrow> awith (\<lambda>e. decision env ''policy_digest'' True ''policy digest matches'' []
         None None [(''digest'', PStr (e_digest e))]))"

text \<open>\<open>PolicyEnforcer.wipe\<close> runs \<open>WipeState.wipe\<close> on the object's own wipe state.\<close>

definition enforcer_wipe :: "host_env \<Rightarrow> string \<Rightarrow> (enforcer, policy_receipt) act" where
  "enforcer_wipe env reason =
     abind (read_clock env) (\<lambda>now. \<lambda>e.
       (case wipe_state_wipe (digest_of env) (wipe_raises env) None reason (e_digest e)
               (PFloat now) (e_wipe e) of
          (res, ws) \<Rightarrow> (res, e\<lparr>e_wipe := ws\<rparr>)))"

section \<open>What the operations keep\<close>

text \<open>
  Every method leaves the admitted policy, its binding and its expiry alone, and only moves
  the sequence counter, the published flag and the wiped flag forward (\<open>enf_frame\<close>). All but
  an authorized network request leave the byte count alone as well (\<open>enf_ext\<close>).
\<close>

definition enf_frame :: "enforcer \<Rightarrow> enforcer \<Rightarrow> bool" where
  "enf_frame e e' \<longleftrightarrow>
     e_storage e' = e_storage e \<and> e_network e' = e_network e \<and> e_run_root e' = e_run_root e
     \<and> e_digest e' = e_digest e \<and> e_binding_error e' = e_binding_error e
     \<and> e_started_at e' = e_started_at e \<and> e_expires_at e' = e_expires_at e
     \<and> e_sequence e \<le> e_sequence e'
     \<and> (e_published e \<longrightarrow> e_published e') \<and> (ws_wiped (e_wipe e) \<longrightarrow> ws_wiped (e_wipe e'))"

definition enf_ext :: "enforcer \<Rightarrow> enforcer \<Rightarrow> bool" where
  "enf_ext e e' \<longleftrightarrow> enf_frame e e' \<and> e_network_bytes e' = e_network_bytes e"

lemma enf_frame_trans: "\<lbrakk>enf_frame e e1; enf_frame e1 e2\<rbrakk> \<Longrightarrow> enf_frame e e2"
  by (auto simp: enf_frame_def)

lemma enf_ext_refl: "reflp enf_ext" and enf_ext_trans: "transp enf_ext"
  by (auto simp: enf_ext_def enf_frame_def reflp_def transp_def)

lemmas enf_keeps = keeps_rules [where R = enf_ext] enf_ext_refl enf_ext_trans

lemma read_clock_ext: "keeps enf_ext (read_clock env)"
  by (simp add: keeps_def read_clock_def enf_ext_def enf_frame_def)

lemma decision_ext: "keeps enf_ext (decision env op al reason target ph pu det)"
  by (auto simp: keeps_def decision_def Let_def abind_def read_clock_def enf_ext_def enf_frame_def
      split: sum.splits)

lemma deny_ext: "keeps enf_ext (deny env op reason target)"
  unfolding deny_def by (rule decision_ext)

lemma common_denial_ext: "keeps enf_ext (common_denial env c req)"
  unfolding common_denial_def by (intro enf_keeps read_clock_ext)

lemma network_expiry_ext: "keeps enf_ext (network_expiry_reason env)"
  unfolding network_expiry_reason_def by (intro enf_keeps read_clock_ext)

lemmas enf_parts = read_clock_ext decision_ext deny_ext common_denial_ext network_expiry_ext

lemma check_mount_ext: "keeps enf_ext (check_mount env h g m c)"
  unfolding check_mount_def by (intro enf_keeps enf_parts)

lemma check_storage_ext: "keeps enf_ext (check_storage env g op h c)"
  unfolding check_storage_def Let_def by (intro enf_keeps enf_parts check_mount_ext)

lemma check_mount_plan_ext: "keeps enf_ext (check_mount_plan env c ms)"
  by (induction ms) (unfold check_mount_plan.simps, (intro enf_keeps check_mount_ext; assumption?)+)

lemma before_launch_ext: "keeps enf_ext (before_launch env c)"
  unfolding before_launch_def
  by (intro enf_keeps enf_parts check_mount_plan_ext) (simp add: enf_ext_def enf_frame_def)

lemma before_publication_ext: "keeps enf_ext (before_publication env l c b bs)"
  unfolding before_publication_def
  by (intro enf_keeps enf_parts) (simp add: enf_ext_def enf_frame_def)

lemma check_policy_digest_ext: "keeps enf_ext (check_policy_digest env c)"
  unfolding check_policy_digest_def by (intro enf_keeps enf_parts)

section \<open>What a decision carries\<close>

lemma decision_state:
  "snd (decision env op al reason target ph pu det e)
     = e\<lparr>e_sequence := Suc (e_sequence e), e_ticks := Suc (e_ticks e)\<rparr>"
  by (auto simp: decision_def Let_def abind_def read_clock_def split: sum.splits)

lemma make_receipt_Inr:
  assumes "make_receipt H op dec dig tgt rsn sq tm ph pu det = Inr r"
  shows "op = PStr (r_operation r)" "dec = PStr (r_decision r)" "dig = PStr (r_policy_digest r)"
    "tgt = PStr (r_target r)" "rsn = PStr (r_reason r)" "sq = PInt (r_sequence r)"
    "tm = r_issued_at r" "ph = PStr (r_phase r)" "pu = PStr (r_purpose r)" "det = r_details r"
    "is_policy_digest (r_policy_digest r)" "0 \<le> r_sequence r" "r_operation r \<noteq> []"
    "r_receipt_id r = H (PDict (receipt_payload r))"
  using assms
  by (auto simp: make_receipt_def Let_def receipt_payload_def
      split: if_splits pyval.splits elim!: is_str.elims)

lemma decision_Inr:
  assumes "decision env op al reason target ph pu det e = (Inr d, e')"
  shows "e' = e\<lparr>e_sequence := Suc (e_sequence e), e_ticks := Suc (e_ticks e)\<rparr>"
    and "d_allowed d = al" and "d_operation d = op" and "d_reason d = reason"
    and "r_operation (d_receipt d) = op" and "r_sequence (d_receipt d) = int (e_sequence e)"
    and "receipt_allowed (d_receipt d) = al"
    and "receipt_verify (digest_of env) (d_receipt d) (e_digest e)"
    and "r_details (d_receipt d) = det"
proof -
  show "e' = e\<lparr>e_sequence := Suc (e_sequence e), e_ticks := Suc (e_ticks e)\<rparr>"
    using decision_state [of env op al reason target ph pu det e] assms by simp
  obtain now ph' pu' where r: "make_receipt (digest_of env) (PStr op)
      (PStr (if al then ''allow'' else ''deny'')) (PStr (e_digest e)) (PStr target)
      (PStr reason) (PInt (int (e_sequence e))) (PFloat now) (PStr ph') (PStr pu') det
      = Inr (d_receipt d)"
    and d: "d_allowed d = al" "d_operation d = op" "d_reason d = reason"
    using assms by (auto simp: decision_def Let_def abind_Inr_iff read_clock_def)
  note f = make_receipt_Inr [OF r]
  show "d_allowed d = al" "d_operation d = op" "d_reason d = reason" by (rule d)+
  show "r_operation (d_receipt d) = op" "r_sequence (d_receipt d) = int (e_sequence e)"
    "r_details (d_receipt d) = det"
    using f by simp_all
  show "receipt_allowed (d_receipt d) = al"
    using f(2) by (auto simp: receipt_allowed_def split: if_splits)
  show "receipt_verify (digest_of env) (d_receipt d) (e_digest e)"
    using f by (simp add: receipt_verify_def)
qed

lemma deny_refuses: "deny env op reason target e = (Inr d, e') \<Longrightarrow> \<not> d_allowed d"
  unfolding deny_def by (simp add: decision_Inr(2))

lemma decision_returns:
  assumes "clock_of env (e_ticks e) = Finite now" and "op \<noteq> []" and "is_policy_digest (e_digest e)"
  shows "\<exists>d. decision env op al reason target ph pu det e
      = (Inr d, e\<lparr>e_sequence := Suc (e_sequence e), e_ticks := Suc (e_ticks e)\<rparr>)"
  using assms
  by (auto simp: decision_def Let_def abind_def read_clock_def make_receipt_def)

lemma common_denial_None:
  assumes "common_denial env c req e = (Inr None, e')"
  shows "e_binding_error e = None" and "\<not> ws_wiped (e_wipe e)"
    and "c = None \<and> \<not> req \<or> c = Some (e_digest e) \<and> is_policy_digest (e_digest e)"
    and "e' = e\<lparr>e_ticks := Suc (e_ticks e)\<rparr>"
    and "\<exists>now. clock_of env (e_ticks e) = Finite now \<and> (\<forall>t. e_expires_at e = Some t \<longrightarrow> now < t)"
  using assms
  by (auto simp: common_denial_def abind_Inr_iff read_clock_def
      split: if_splits option.splits pyfloat.splits)

lemma common_denial_passes:
  assumes "e_binding_error e = None" and "\<not> ws_wiped (e_wipe e)"
    and "c = None \<and> \<not> req \<or> c = Some (e_digest e) \<and> is_policy_digest (e_digest e)"
    and "clock_of env (e_ticks e) = Finite now" and "\<And>t. e_expires_at e = Some t \<Longrightarrow> now < t"
  shows "common_denial env c req e = (Inr None, e\<lparr>e_ticks := Suc (e_ticks e)\<rparr>)"
  using assms
  by (auto simp: common_denial_def abind_def read_clock_def split: option.splits)

lemma network_expiry_None:
  assumes "network_expiry_reason env e = (Inr None, e')"
  shows "(np_max_duration_seconds (e_network e) = None \<and> e' = e)
    \<or> (\<exists>d now. np_max_duration_seconds (e_network e) = Some d
         \<and> clock_of env (e_ticks e) = Finite now \<and> now - e_started_at e < of_int d
         \<and> e' = e\<lparr>e_ticks := Suc (e_ticks e)\<rparr>)"
  using assms
  by (auto simp: network_expiry_reason_def abind_Inr_iff read_clock_def
      split: if_splits option.splits pyfloat.splits)

section \<open>Sessions\<close>

text \<open>
  A client's session on one enforcer: any of its operations in any order. The wrappers
  \<open>require_*\<close> apply \<open>decision_require\<close> to the same answers.
\<close>

datatype enforcer_op =
    CheckMount string string string "string option"
  | CheckStorage string string "string option" "string option"
  | CheckNetwork network_request
  | BeforeLaunch "string option"
  | BeforePublication launch_arg "string option" int "int option"
  | CheckPolicyDigest "string option"
  | EnforcerWipe string
  | MarkWiped

datatype enforcer_answer = Decided policy_decision | Wiped policy_receipt | Marked | Raised exn

definition answer :: "('a \<Rightarrow> enforcer_answer) \<Rightarrow> (exn + 'a) \<times> enforcer \<Rightarrow> enforcer_answer \<times> enforcer"
  where "answer f r = ((case fst r of Inl exc \<Rightarrow> Raised exc | Inr x \<Rightarrow> f x), snd r)"

fun enforcer_step :: "host_env \<Rightarrow> enforcer_op \<Rightarrow> enforcer \<Rightarrow> enforcer_answer \<times> enforcer" where
  "enforcer_step env (CheckMount h g m c) e = answer Decided (check_mount env h g m c e)"
| "enforcer_step env (CheckStorage g op h c) e = answer Decided (check_storage env g op h c e)"
| "enforcer_step env (CheckNetwork q) e = answer Decided (check_network env q e)"
| "enforcer_step env (BeforeLaunch c) e = answer Decided (before_launch env c e)"
| "enforcer_step env (BeforePublication l c b bs) e =
     answer Decided (before_publication env l c b bs e)"
| "enforcer_step env (CheckPolicyDigest c) e = answer Decided (check_policy_digest env c e)"
| "enforcer_step env (EnforcerWipe reason) e = answer Wiped (enforcer_wipe env reason e)"
| "enforcer_step env MarkWiped e =
     (case mark_wiped (digest_of env) (e_wipe e) of
        (res, ws) \<Rightarrow> answer (\<lambda>_. Marked) (res, e\<lparr>e_wipe := ws\<rparr>))"

abbreviation enforcer_session where
  "enforcer_session env \<equiv> run_ops (enforcer_step env)"

lemma network_guards_bytes:
  "network_guards ip np used q = Inr hm \<Longrightarrow>
     0 \<le> request_bytes q \<and> (\<exists>limit. np_max_bytes np = Some limit \<and> used + request_bytes q \<le> limit)"
  by (auto simp: network_guards_def Let_def split: if_splits option.splits)

text \<open>
  A network check that passes its guards accounts the bytes and then decides; any other
  refuses and leaves the byte count alone.
\<close>

lemma check_network_cases:
  obtains
    (refused) "enf_ext e (snd (check_network env q e))"
      "\<And>d. fst (check_network env q e) = Inr d \<Longrightarrow> \<not> d_allowed d"
  | (passed) host meth e1 where
      "network_guards (ip_of env) (e_network e) (e_network_bytes e) q = Inr (host, meth)"
      "np_purpose (e_network e) \<noteq> NoPurpose"
      "common_denial env (nr_digest q) False e = (Inr None, e\<lparr>e_ticks := Suc (e_ticks e)\<rparr>)"
      "network_expiry_reason env (e\<lparr>e_ticks := Suc (e_ticks e)\<rparr>) = (Inr None, e1)"
      "enf_ext e e1"
      "check_network env q e
        = decision env ''network.egress'' True ''exact egress is allowed within policy limits''
            (net_target host (nr_port q) meth) (nr_phase q) (nr_purpose q)
            [(''host'', PStr host), (''port'', PInt (nr_port q)), (''method'', PStr meth),
             (''bytes'', PInt (request_bytes q)),
             (''total_bytes'', PInt (e_network_bytes e + request_bytes q))]
            (e1\<lparr>e_network_bytes := e_network_bytes e + request_bytes q\<rparr>)"
proof -
  note [simp] = check_network_def Let_def
  have dec: "enf_ext e (snd (decision env op False reason t p pu det e2))
      \<and> (\<forall>d. fst (decision env op False reason t p pu det e2) = Inr d \<longrightarrow> \<not> d_allowed d)"
    if "enf_ext e e2" for op reason t p pu det e2
    using that decision_ext [of env op False reason t p pu det] decision_Inr(2)
    by (metis enf_ext_trans keeps_def prod.collapse transpD)
  obtain r1 e1 where c: "common_denial env (nr_digest q) False e = (r1, e1)"
    by (cases "common_denial env (nr_digest q) False e")
  then have x1: "enf_ext e e1" by (rule keepsD [OF common_denial_ext])
  show thesis
  proof (cases "r1 = Inr None \<and> np_purpose (e_network e1) \<noteq> NoPurpose")
    case False
    then show thesis
      using c dec [OF x1] x1 by (intro refused; cases r1) (auto simp: abind_def split: option.splits)
  next
    case True
    note p1 = this
    have e1: "e1 = e\<lparr>e_ticks := Suc (e_ticks e)\<rparr>" using c True by (auto dest: common_denial_None)
    obtain r2 e2 where n: "network_expiry_reason env e1 = (r2, e2)"
      by (cases "network_expiry_reason env e1")
    have x2: "enf_ext e e2"
      using keepsD [OF network_expiry_ext n] x1 enf_ext_trans by (blast dest: transpD)
    show thesis
    proof (cases "\<exists>hm. r2 = Inr None
        \<and> network_guards (ip_of env) (e_network e1) (e_network_bytes e1) q = Inr hm")
      case False
      then show thesis
        using c n p1 dec [OF x2] x2
        by (intro refused; cases r2; cases "network_guards (ip_of env) (e_network e1) (e_network_bytes e1) q")
          (auto simp: abind_def split: option.splits)
    next
      case True
      then obtain host meth where g: "r2 = Inr None"
        "network_guards (ip_of env) (e_network e1) (e_network_bytes e1) q = Inr (host, meth)"
        by auto
      have b: "e_network_bytes e2 = e_network_bytes e" using x2 by (simp add: enf_ext_def)
      show thesis
        by (rule passed [of host meth e2]) (use c n p1 g x2 b e1 in \<open>simp_all add: abind_def\<close>)
    qed
  qed
qed

lemma check_network_frame: "enf_frame e (snd (check_network env q e))"
proof (cases rule: check_network_cases [of e env q])
  case refused
  then show ?thesis by (simp add: enf_ext_def)
next
  case (passed host meth e1)
  then show ?thesis by (simp add: decision_state enf_ext_def enf_frame_def)
qed

lemma wipe_frame: "enf_frame e (snd (enforcer_wipe env reason e))"
  by (auto simp: enforcer_wipe_def abind_def read_clock_def wipe_state_wipe_def enf_frame_def
      split: pyfloat.splits option.splits sum.splits prod.splits)

lemma wipe_bytes [simp]: "e_network_bytes (snd (enforcer_wipe env reason e)) = e_network_bytes e"
  by (simp add: enforcer_wipe_def abind_def read_clock_def
      split: pyfloat.splits prod.splits sum.splits)

lemma mark_wiped_keeps: "ws_wiped (snd (mark_wiped H w))"
  by (auto simp: mark_wiped_def abind_def split: option.splits sum.splits)

lemma answer_simps [simp]:
  "snd (answer f r) = snd r"
  "fst (answer f r) = (case fst r of Inl exc \<Rightarrow> Raised exc | Inr x \<Rightarrow> f x)"
  by (simp_all add: answer_def)

lemmas enf_ops_ext = check_mount_ext check_storage_ext before_launch_ext before_publication_ext
  check_policy_digest_ext

lemma step_ext:
  assumes "\<And>q. a \<noteq> CheckNetwork q" and "\<And>r. a \<noteq> EnforcerWipe r" and "a \<noteq> MarkWiped"
  shows "enf_ext e (snd (enforcer_step env a e))"
  using assms enf_ops_ext by (cases a) (auto simp: keeps_def)

lemma enforcer_step_frame: "enf_frame e (snd (enforcer_step env a e))"
proof (cases a)
  case MarkWiped
  then show ?thesis
    using mark_wiped_keeps [of "digest_of env" "e_wipe e"]
    by (auto simp: enf_frame_def split: prod.splits)
qed (use step_ext [of a e env] in \<open>auto simp: enf_ext_def check_network_frame wipe_frame\<close>)

text \<open>Bytes: what a session was granted is what the enforcer has accounted, up to a raise.\<close>

fun granted_bytes :: "enforcer_op \<Rightarrow> enforcer_answer \<Rightarrow> int" where
  "granted_bytes (CheckNetwork q) (Decided d) = (if d_allowed d then request_bytes q else 0)"
| "granted_bytes _ _ = 0"

definition within_budget :: "enforcer \<Rightarrow> bool" where
  "within_budget e \<longleftrightarrow> e_network_bytes e = 0 \<or>
     (0 \<le> e_network_bytes e
      \<and> (\<exists>limit. np_max_bytes (e_network e) = Some limit \<and> e_network_bytes e \<le> limit))"

lemma check_network_bytes:
  assumes "within_budget e"
  shows "within_budget (snd (check_network env q e))"
    and "e_network_bytes e + granted_bytes (CheckNetwork q) (fst (answer Decided (check_network env q e)))
      \<le> e_network_bytes (snd (check_network env q e))"
proof -
  have "within_budget (snd (check_network env q e)) \<and>
    e_network_bytes e + granted_bytes (CheckNetwork q) (fst (answer Decided (check_network env q e)))
      \<le> e_network_bytes (snd (check_network env q e))"
  proof (cases rule: check_network_cases [of e env q])
    case refused
    then show ?thesis
      using assms
      by (auto simp: within_budget_def enf_ext_def enf_frame_def split: sum.splits)
  next
    case (passed host meth e1)
    note g = network_guards_bytes [OF passed(1)]
    have "e_network e1 = e_network e" using passed(5) by (simp add: enf_ext_def enf_frame_def)
    with g assms passed(6) show ?thesis
      by (auto simp: within_budget_def decision_state split: sum.splits)
  qed
  then show "within_budget (snd (check_network env q e))"
    "e_network_bytes e + granted_bytes (CheckNetwork q) (fst (answer Decided (check_network env q e)))
      \<le> e_network_bytes (snd (check_network env q e))" by blast+
qed

lemma enforcer_step_bytes:
  assumes "within_budget e"
  shows "within_budget (snd (enforcer_step env a e))"
    and "e_network_bytes e + granted_bytes a (fst (enforcer_step env a e))
      \<le> e_network_bytes (snd (enforcer_step env a e))"
proof -
  have "within_budget (snd (enforcer_step env a e)) \<and>
     e_network_bytes e + granted_bytes a (fst (enforcer_step env a e))
      \<le> e_network_bytes (snd (enforcer_step env a e))"
  proof (cases "\<exists>q. a = CheckNetwork q")
    case True
    then obtain q where "a = CheckNetwork q" by blast
    with check_network_bytes [OF assms, where env = env and q = q] show ?thesis by simp
  next
    case False
    then have z: "granted_bytes a r = 0" for r by (cases a) auto
    have b: "e_network_bytes (snd (enforcer_step env a e)) = e_network_bytes e"
      using False step_ext [of a e env] by (cases a) (auto simp: enf_ext_def split: prod.splits)
    then show ?thesis
      using assms enforcer_step_frame [of e env a] z
      by (auto simp: within_budget_def enf_frame_def)
  qed
  then show "within_budget (snd (enforcer_step env a e))"
    "e_network_bytes e + granted_bytes a (fst (enforcer_step env a e))
      \<le> e_network_bytes (snd (enforcer_step env a e))" by blast+
qed

interpretation budget: guarded_machine "enforcer_step env" within_budget for env
  by unfold_locales (rule enforcer_step_bytes(1))

lemma session_bytes:
  "within_budget e \<Longrightarrow>
     e_network_bytes e + sum_list (map2 granted_bytes as (fst (enforcer_session env as e)))
       \<le> e_network_bytes (snd (enforcer_session env as e))"
proof (induction as arbitrary: e)
  case (Cons a as)
  from Cons.IH [OF enforcer_step_bytes(1) [OF Cons.prems], of env a]
    enforcer_step_bytes(2) [OF Cons.prems, of a env]
  show ?case by simp
qed simp

lemma session_network [simp]:
  "e_network (snd (enforcer_session env as e)) = e_network e"
proof (induction as arbitrary: e)
  case (Cons a as)
  then show ?case using enforcer_step_frame [of e env a] by (simp add: enf_frame_def)
qed simp

lemma enforcer_init_Inr:
  assumes "enforcer_init env sa na rt ed pd ex ws = Inr e"
  shows "e_network_bytes e = 0" "e_sequence e = 0" "\<not> e_published e" "\<not> ws_wiped (e_wipe e)"
    "ws_calls (e_wipe e) = []" "ws_receipt (e_wipe e) = None" "e_launch_receipt e = None"
    "e_digest e = policy_digest (digest_of env) (isofmt_of env) (e_storage e) (e_network e)"
    "\<exists>expected. expected = (case if ed \<noteq> None then ed else pd of None \<Rightarrow> e_digest e | Some d \<Rightarrow> d)
      \<and> (e_binding_error e = None \<longleftrightarrow> is_policy_digest expected \<and> expected = e_digest e)"
proof -
  obtain storage network rt' started expiry w where
    e: "e = \<lparr>e_storage = storage, e_network = network, e_run_root = rt',
          e_digest = policy_digest (digest_of env) (isofmt_of env) storage network,
          e_binding_error = (let expected = (case if ed \<noteq> None then ed else pd of
               None \<Rightarrow> policy_digest (digest_of env) (isofmt_of env) storage network | Some d \<Rightarrow> d)
             in if \<not> is_policy_digest expected then Some ''policy digest is malformed''
                else if expected \<noteq> policy_digest (digest_of env) (isofmt_of env) storage network
                then Some ''policy digest does not match declared policy'' else None),
          e_started_at = started, e_expires_at = expiry, e_network_bytes = 0, e_sequence = 0,
          e_launch_receipt = None, e_published = False, e_wipe = w, e_ticks = 1\<rparr>"
    and w: "\<exists>cb. w = \<lparr>ws_callback = cb, ws_wiped = False, ws_receipt = None, ws_calls = []\<rparr>"
    using assms unfolding enforcer_init_def wipe_state_new_def Let_def
    by (simp only: rbind_eq_Inr split: if_splits prod.splits) auto
  show "e_network_bytes e = 0" "e_sequence e = 0" "\<not> e_published e" "\<not> ws_wiped (e_wipe e)"
    "ws_calls (e_wipe e) = []" "ws_receipt (e_wipe e) = None" "e_launch_receipt e = None"
    "e_digest e = policy_digest (digest_of env) (isofmt_of env) (e_storage e) (e_network e)"
    using w by (auto simp: e)
  show "\<exists>expected. expected = (case if ed \<noteq> None then ed else pd of None \<Rightarrow> e_digest e | Some d \<Rightarrow> d)
      \<and> (e_binding_error e = None \<longleftrightarrow> is_policy_digest expected \<and> expected = e_digest e)"
    by (simp add: e Let_def split: option.splits)
qed

section \<open>Refusals\<close>

text \<open>
  An enforcer whose digest did not bind, or whose run was wiped, is sealed: it stays so, and
  no operation is allowed any more.
\<close>

definition sealed :: "enforcer \<Rightarrow> bool" where
  "sealed e \<longleftrightarrow> e_binding_error e \<noteq> None \<or> ws_wiped (e_wipe e)"

fun granted :: "enforcer_answer \<Rightarrow> bool" where
  "granted (Decided d) = d_allowed d"
| "granted _ = False"

text \<open>Every operation asks \<open>_common_denial\<close> first and refuses what it refuses.\<close>

lemma decision_answer:
  "fst (decision env op al reason target ph pu det e) = Inr d \<Longrightarrow> d_allowed d = al"
  by (metis decision_Inr(2) prod.collapse)

lemma deny_answer: "fst (deny env op reason target e) = Inr d \<Longrightarrow> \<not> d_allowed d"
  by (simp add: deny_def decision_answer)

lemma common_first:
  assumes "\<And>x e'. common_denial env c req e \<noteq> (Inr None, e')"
    and "\<And>reason e' d. fst (f (Some reason) e') = Inr d \<Longrightarrow> \<not> d_allowed d"
  shows "fst (abind (common_denial env c req) f e) = Inr d \<Longrightarrow> \<not> d_allowed d"
  using assms by (auto simp: abind_def split: sum.splits prod.splits option.splits) (metis not_None_eq)

lemma sealed_common: "sealed e \<Longrightarrow> common_denial env c req e \<noteq> (Inr None, e')"
  by (auto simp: sealed_def dest: common_denial_None(1,2))

lemma sealed_refuses: "sealed e \<Longrightarrow> \<not> granted (fst (enforcer_step env a e))"
  by (cases a)
    (auto simp: check_mount_def check_storage_def check_network_def before_launch_def
      before_publication_def check_policy_digest_def Let_def sealed_common
      dest!: common_first [rotated 2] dest: deny_answer decision_answer
      split: sum.splits prod.splits)

interpretation seal: guarded_machine "enforcer_step env" sealed for env
  using enforcer_step_frame by unfold_locales (fastforce simp: sealed_def enf_frame_def)

lemma seal_session:
  assumes "sealed e" and "r \<in> set (fst (enforcer_session env as e))"
  shows "\<not> granted r"
  using seal.run_answers [OF assms] sealed_refuses by blast

text \<open>
  The wipe callback: called at most once, and only once a receipt is recorded, so a retry
  after a failing callback returns the recorded receipt.
\<close>

definition wipe_ok :: "enforcer \<Rightarrow> bool" where
  "wipe_ok e \<longleftrightarrow> (let w = e_wipe e in
     length (ws_calls w) \<le> 1 \<and> (ws_calls w \<noteq> [] \<longrightarrow> ws_receipt w \<noteq> None)
     \<and> (ws_receipt w \<noteq> None \<longrightarrow> ws_wiped w))"

lemma wipe_step_ok:
  "wipe_ok e \<Longrightarrow> wipe_ok (snd (enforcer_wipe env reason e))"
  by (auto simp: wipe_ok_def enforcer_wipe_def abind_def read_clock_def wipe_state_wipe_def Let_def
      split: pyfloat.splits option.splits sum.splits prod.splits)

lemma mark_step_ok: "wipe_ok e \<Longrightarrow> wipe_ok (snd (enforcer_step env MarkWiped e))"
  by (auto simp: wipe_ok_def mark_wiped_def abind_def Let_def
      split: option.splits sum.splits prod.splits)

text \<open>No check touches the wipe state.\<close>

definition same_wipe :: "enforcer \<Rightarrow> enforcer \<Rightarrow> bool" where
  "same_wipe e e' \<longleftrightarrow> e_wipe e' = e_wipe e"

lemma same_wipe_refl: "reflp same_wipe" and same_wipe_trans: "transp same_wipe"
  by (auto simp: same_wipe_def reflp_def transp_def)

lemmas sw_keeps = keeps_rules [where R = same_wipe] same_wipe_refl same_wipe_trans

lemma same_wipe_parts:
  "keeps same_wipe (read_clock env)"
  "keeps same_wipe (decision env op al reason target ph pu det)"
  "keeps same_wipe (deny env op reason target)"
  by (auto simp: keeps_def deny_def decision_state read_clock_def same_wipe_def)

lemma same_wipe_guards:
  "keeps same_wipe (common_denial env c req)"
  "keeps same_wipe (network_expiry_reason env)"
  unfolding common_denial_def network_expiry_reason_def
  by (intro sw_keeps same_wipe_parts)+

lemma same_wipe_mount: "keeps same_wipe (check_mount env h g m c)"
  unfolding check_mount_def by (intro sw_keeps same_wipe_parts same_wipe_guards)

lemma same_wipe_plan: "keeps same_wipe (check_mount_plan env c ms)"
  by (induction ms) (unfold check_mount_plan.simps, (intro sw_keeps same_wipe_mount; assumption?)+)

lemma same_wipe_ops:
  "keeps same_wipe (check_storage env g op h c)"
  "keeps same_wipe (check_network env q)"
  "keeps same_wipe (before_launch env c)"
  "keeps same_wipe (before_publication env l c b bs)"
  "keeps same_wipe (check_policy_digest env c)"
  unfolding check_storage_def check_network_def before_launch_def before_publication_def
    check_policy_digest_def Let_def
  by (intro sw_keeps same_wipe_parts same_wipe_guards same_wipe_mount same_wipe_plan;
      simp add: same_wipe_def)+

lemma enforcer_step_wipe_ok: "wipe_ok e \<Longrightarrow> wipe_ok (snd (enforcer_step env a e))"
proof (cases a)
  case MarkWiped
  then show "wipe_ok e \<Longrightarrow> ?thesis" using mark_step_ok by simp
qed (use same_wipe_ops same_wipe_mount wipe_step_ok in
  \<open>auto simp: keeps_def same_wipe_def wipe_ok_def\<close>)

interpretation wipes: guarded_machine "enforcer_step env" wipe_ok for env
  by unfold_locales (rule enforcer_step_wipe_ok)

section \<open>Every answer carries a fresh, verifiable receipt\<close>

definition evidence :: "host_env \<Rightarrow> enforcer \<Rightarrow> policy_decision \<Rightarrow> enforcer \<Rightarrow> bool" where
  "evidence env e d e' \<longleftrightarrow>
     receipt_verify (digest_of env) (d_receipt d) (e_digest e)
     \<and> receipt_allowed (d_receipt d) = d_allowed d \<and> r_operation (d_receipt d) = d_operation d
     \<and> int (e_sequence e) \<le> r_sequence (d_receipt d)
     \<and> r_sequence (d_receipt d) < int (e_sequence e')"

definition evidenced :: "host_env \<Rightarrow> (enforcer, policy_decision) act \<Rightarrow> bool" where
  "evidenced env m \<longleftrightarrow> (\<forall>e d e'. m e = (Inr d, e') \<longrightarrow> evidence env e d e')"

lemma evidenced_decision: "evidenced env (decision env op al reason target ph pu det)"
  by (auto simp: evidenced_def evidence_def decision_Inr dest: decision_Inr(1))

lemma evidenced_deny: "evidenced env (deny env op reason target)"
  unfolding deny_def by (rule evidenced_decision)

lemma evidenced_abind:
  assumes "keeps enf_frame m" and "\<And>x. evidenced env (f x)"
  shows "evidenced env (abind m f)"
  unfolding evidenced_def
proof (intro allI impI)
  fix e d e' assume "abind m f e = (Inr d, e')"
  then obtain x e1 where 1: "m e = (Inr x, e1)" and 2: "f x e1 = (Inr d, e')"
    by (auto simp: abind_Inr_iff)
  have "enf_frame e e1" using keepsD [OF assms(1) 1] .
  then show "evidence env e d e'"
    using assms(2) [of x] 2 unfolding evidenced_def evidence_def enf_frame_def by force
qed

lemma evidenced_then_set:
  assumes "evidenced env m" and "\<And>d e. e_sequence (g d e) = e_sequence e"
  shows "evidenced env (abind m (\<lambda>d. abind (aset (g d)) (\<lambda>_. aret d)))"
  using assms unfolding evidenced_def evidence_def by (fastforce simp: abind_Inr_iff)

lemma evidenced_awith: "(\<And>e. evidenced env (f e)) \<Longrightarrow> evidenced env (awith f)"
  by (simp add: evidenced_def)

lemma evidenced_option:
  "\<lbrakk>evidenced env f; \<And>x. evidenced env (g x)\<rbrakk> \<Longrightarrow>
     evidenced env (case v of None \<Rightarrow> f | Some x \<Rightarrow> g x)"
  by (cases v) auto

lemma evidenced_sum:
  "\<lbrakk>\<And>x. evidenced env (f x); \<And>x. evidenced env (g x)\<rbrakk> \<Longrightarrow>
     evidenced env (case v of Inl x \<Rightarrow> f x | Inr x \<Rightarrow> g x)"
  by (cases v) auto

lemma evidenced_prod:
  "(\<And>x y. evidenced env (f x y)) \<Longrightarrow> evidenced env (case v of (x, y) \<Rightarrow> f x y)"
  by (cases v) auto

lemma evidenced_if: "\<lbrakk>evidenced env f; evidenced env g\<rbrakk> \<Longrightarrow> evidenced env (if b then f else g)"
  by simp

lemma frame_parts:
  "keeps enf_frame (common_denial env c req)" "keeps enf_frame (network_expiry_reason env)"
  "keeps enf_frame (check_mount_plan env c ms)" "keeps enf_frame (alift v)"
  "keeps enf_frame (aset (\<lambda>e. e\<lparr>e_network_bytes := n e\<rparr>))"
  "keeps enf_frame (aset (\<lambda>e. e\<lparr>e_published := True\<rparr>))"
  using common_denial_ext network_expiry_ext check_mount_plan_ext
  by (auto simp: keeps_def enf_ext_def enf_frame_def)

lemmas evidenced_rules = evidenced_then_set evidenced_decision evidenced_deny evidenced_awith
  evidenced_option evidenced_sum evidenced_prod evidenced_if

lemma evidenced_mount: "evidenced env (check_mount env h g m c)"
  unfolding check_mount_def Let_def by (intro evidenced_rules evidenced_abind frame_parts)

lemma evidenced_launch: "evidenced env (before_launch env c)"
  unfolding before_launch_def Let_def
  by (rule evidenced_abind [OF frame_parts(1)], intro evidenced_rules,
      rule evidenced_abind [OF frame_parts(2)], intro evidenced_rules,
      rule evidenced_abind [OF frame_parts(3)], intro evidenced_rules) simp

lemma evidenced_ops:
  "evidenced env (check_storage env g op h c)"
  "evidenced env (check_network env q)"
  "evidenced env (before_publication env l c b bs)"
  "evidenced env (check_policy_digest env c)"
  unfolding check_storage_def check_network_def before_publication_def check_policy_digest_def Let_def
  by (intro evidenced_rules evidenced_abind frame_parts evidenced_mount)+

lemma step_evidenced:
  assumes "enforcer_step env a e = (Decided d, e')"
  shows "evidence env e d e'"
proof -
  have ans: "evidenced env m \<Longrightarrow> fst (m e) = Inr d \<Longrightarrow> evidence env e d (snd (m e))" for m
    unfolding evidenced_def by (metis prod.collapse)
  show ?thesis
    using assms
    by (cases a) (auto simp: answer_def split: sum.splits prod.splits
      intro: ans [OF evidenced_mount] ans [OF evidenced_launch] ans [OF evidenced_ops(1)]
        ans [OF evidenced_ops(2)] ans [OF evidenced_ops(3)] ans [OF evidenced_ops(4)])
qed

fun sequence_of :: "enforcer_answer \<Rightarrow> nat option" where
  "sequence_of (Decided d) = Some (nat (r_sequence (d_receipt d)))"
| "sequence_of _ = None"

interpretation sequence: stamped_machine "enforcer_step env" "\<lambda>_. True" sequence_of e_sequence for env
proof unfold_locales
  fix a e n
  show "e_sequence e \<le> e_sequence (snd (enforcer_step env a e))"
    using enforcer_step_frame [of e env a] by (simp add: enf_frame_def)
  assume s: "sequence_of (fst (enforcer_step env a e)) = Some n"
  then obtain d where d: "enforcer_step env a e = (Decided d, snd (enforcer_step env a e))"
    and n: "n = nat (r_sequence (d_receipt d))"
    by (cases "enforcer_step env a e"; cases "fst (enforcer_step env a e)") auto
  show "e_sequence e \<le> n \<and> n < e_sequence (snd (enforcer_step env a e))"
    using step_evidenced [OF d] n unfolding evidence_def by linarith
qed simp

section \<open>Publication\<close>

lemma refusing:
  "\<forall>reason e1. deny env op reason target e1 = (Inr d, e') \<longrightarrow> \<not> d_allowed d"
  "\<forall>reason e1. decision env op False reason target ph pu det e1 = (Inr d, e') \<longrightarrow> \<not> d_allowed d"
  by (auto dest: deny_refuses decision_Inr(2))

lemma common_passed:
  assumes "abind (common_denial env c req)
      (\<lambda>x. case x of Some reason \<Rightarrow> refuse reason | None \<Rightarrow> go) e = (Inr d, e')"
    and "d_allowed d"
    and "\<forall>reason e1. refuse reason e1 = (Inr d, e') \<longrightarrow> \<not> d_allowed d"
  shows "go (e\<lparr>e_ticks := Suc (e_ticks e)\<rparr>) = (Inr d, e')" and "\<not> sealed e"
    and "c = None \<or> c = Some (e_digest e)"
    and "\<exists>now. clock_of env (e_ticks e) = Finite now \<and> (\<forall>t. e_expires_at e = Some t \<longrightarrow> now < t)"
proof -
  obtain x e1 where 1: "common_denial env c req e = (Inr x, e1)"
    and 2: "(case x of Some reason \<Rightarrow> refuse reason | None \<Rightarrow> go) e1 = (Inr d, e')"
    using assms(1) by (auto simp: abind_Inr_iff)
  have x: "x = None" using 2 assms(2,3) by (auto split: option.splits)
  note cd = common_denial_None [OF 1 [unfolded x]]
  show "go (e\<lparr>e_ticks := Suc (e_ticks e)\<rparr>) = (Inr d, e')" using 2 x cd(4) by simp
  show "\<not> sealed e" using cd(1,2) by (simp add: sealed_def)
  show "c = None \<or> c = Some (e_digest e)" using cd(3) by blast
  show "\<exists>now. clock_of env (e_ticks e) = Finite now \<and> (\<forall>t. e_expires_at e = Some t \<longrightarrow> now < t)"
    by (rule cd(5))
qed

lemma publication_granted:
  assumes "before_publication env l c b bs e = (Inr d, e')" and "d_allowed d"
  shows "\<not> e_published e \<and> e_published e' \<and> \<not> sealed e
    \<and> (\<exists>r. coerce_launch_receipt (digest_of env) e l = Inr (Some r)
         \<and> r_operation r = ''launch'' \<and> receipt_allowed r
         \<and> receipt_verify (digest_of env) r (e_digest e))"
proof -
  note p = common_passed [OF assms(1) [unfolded before_publication_def] assms(2) refusing(1)]
  have co: "coerce_launch_receipt H (e\<lparr>e_ticks := n\<rparr>) l = coerce_launch_receipt H e l" for H n
    by (simp add: coerce_launch_receipt_def split: launch_arg.splits)
  have nd: "deny env op reason t e1 \<noteq> (Inr d, e2)" for op reason t e1 e2
    using assms(2) deny_refuses by blast
  from p(1) obtain r where r: "coerce_launch_receipt (digest_of env) e l = Inr (Some r)"
    "r_operation r = ''launch''" "receipt_allowed r" "receipt_verify (digest_of env) r (e_digest e)"
    by (auto simp: abind_Inr_iff Let_def co nd split: option.splits if_splits)
  have "\<not> e_published e \<and> e_published e'"
    using p(1) r
    by (auto simp: abind_Inr_iff Let_def co nd dest!: decision_Inr(1) split: option.splits if_splits)
  with r p(2) show ?thesis by blast
qed

fun granted_publication :: "enforcer_op \<times> enforcer_answer \<Rightarrow> bool" where
  "granted_publication (BeforePublication l c b bs, r) = granted r"
| "granted_publication _ = False"

lemma granted_answer:
  "granted (fst (answer Decided r)) \<longleftrightarrow> (\<exists>d. fst r = Inr d \<and> d_allowed d)"
  by (auto split: sum.splits)

lemma publication_step:
  assumes "granted_publication (a, fst (enforcer_step env a e))"
  shows "\<not> e_published e" and "e_published (snd (enforcer_step env a e))"
proof -
  obtain l c b bs where a: "a = BeforePublication l c b bs"
    using assms by (cases a) auto
  with assms obtain d where "before_publication env l c b bs e
      = (Inr d, snd (enforcer_step env a e))" "d_allowed d"
    by (auto simp: granted_answer simp del: answer_simps(2))
       (metis prod.collapse)
  from publication_granted [OF this]
  show "\<not> e_published e" and "e_published (snd (enforcer_step env a e))" by simp_all
qed

interpretation published: guarded_machine "enforcer_step env" e_published for env
  using enforcer_step_frame by unfold_locales (auto simp: enf_frame_def)

lemma no_publication_once_published:
  "e_published e \<Longrightarrow> filter granted_publication (zip as (fst (enforcer_session env as e))) = []"
proof (induction as arbitrary: e)
  case (Cons a as)
  then show ?case
    using publication_step(1) [of a env e] published.step_inv [OF Cons.prems, of env a] by auto
qed simp

lemma publications_at_most_one:
  "length (filter granted_publication (zip as (fst (enforcer_session env as e)))) \<le> 1"
proof (induction as arbitrary: e)
  case (Cons a as)
  let ?e' = "snd (enforcer_step env a e)"
  show ?case
  proof (cases "granted_publication (a, fst (enforcer_step env a e))")
    case True
    then show ?thesis
      using no_publication_once_published [OF publication_step(2) [OF True], of as env] by simp
  next
    case False
    then show ?thesis using Cons.IH [of ?e'] by simp
  qed
qed simp

section \<open>Egress\<close>

lemma network_guards_Inr:
  "network_guards ip np used q = Inr (host, meth) \<longleftrightarrow>
     (nr_phase q = None \<or> nr_phase q = Some (phase_str (np_phase np)))
     \<and> (nr_purpose q = None \<or> nr_purpose q = Some (purpose_str (np_purpose np)))
     \<and> validate_host ip (nr_host q) = Inr host \<and> host \<in> set (np_egress_hosts np)
     \<and> nr_port q \<in> set (np_egress_ports np)
     \<and> meth = py_upper (nr_method q) \<and> meth \<in> set (np_methods np)
     \<and> 0 \<le> request_bytes q
     \<and> (case nr_elapsed q of None \<Rightarrow> True | Some NonFinite \<Rightarrow> False
        | Some (Finite t) \<Rightarrow> 0 \<le> t \<and> (case np_max_duration_seconds np of
            None \<Rightarrow> True | Some d \<Rightarrow> t < of_int d))
     \<and> (\<exists>limit. np_max_bytes np = Some limit \<and> used + request_bytes q \<le> limit)"
  unfolding network_guards_def Let_def
  by (cases "np_max_duration_seconds np"; cases "np_max_bytes np"; cases "nr_elapsed q")
    (auto simp: not_less not_le split: pyfloat.splits)

lemma network_granted:
  assumes "check_network env q e = (Inr d, e')" and "d_allowed d"
  obtains host where "validate_host (ip_of env) (nr_host q) = Inr host"
    "host \<in> set (np_egress_hosts (e_network e))"
    "nr_port q \<in> set (np_egress_ports (e_network e))"
    "py_upper (nr_method q) \<in> set (np_methods (e_network e))"
    "np_purpose (e_network e) \<noteq> NoPurpose" "\<not> sealed e"
    "e_network_bytes e' = e_network_bytes e + request_bytes q" "0 \<le> request_bytes q"
    "d_target d = net_target host (nr_port q) (py_upper (nr_method q))"
    "\<exists>now. clock_of env (e_ticks e) = Finite now \<and> (\<forall>t. e_expires_at e = Some t \<longrightarrow> now < t)"
proof (cases rule: check_network_cases [of e env q])
  case refused
  with assms show thesis by simp
next
  case (passed host meth e1)
  note dec = passed(6) [unfolded assms(1), symmetric]
  have t: "d_target d = net_target host (nr_port q) meth"
    using dec by (auto simp: decision_def Let_def abind_Inr_iff)
  have b: "e_network_bytes e' = e_network_bytes e + request_bytes q"
    using decision_Inr(1) [OF dec] by simp
  show thesis
    using that [of host] passed(1) [unfolded network_guards_Inr] passed(2) t b
      common_denial_None [OF passed(3)] by (auto simp: sealed_def)
qed

section \<open>Storage\<close>

lemma ticks_frame [simp]:
  "mount_for_guest (e\<lparr>e_ticks := n\<rparr>) x = mount_for_guest e x"
  "expected_host_path env (e\<lparr>e_ticks := n\<rparr>) x y = expected_host_path env e x y"
  by (simp_all add: mount_for_guest_def mount_candidates_def expected_host_path_def Let_def
      split: option.splits)

lemma mount_for_guest_Some:
  assumes "mount_for_guest e guest = Some (pre, access)"
  shows "(pre, access) \<in> set (mount_candidates e)" and "under guest pre"
  using assms unfolding mount_for_guest_def
  by (auto simp: find_Some_iff) (metis nth_mem)

lemma storage_granted:
  assumes "check_storage env g op h c e = (Inr d, e')" and "d_allowed d" and "op \<noteq> ''mount''"
  shows "op \<in> {''read'', ''write''} \<and> \<not> sealed e \<and> safe_guest_path g = Inr g
    \<and> (\<exists>pre access. mount_for_guest e g = Some (pre, access)
         \<and> (op = ''write'' \<longrightarrow> access = ReadWrite)
         \<and> (\<forall>hp. h = Some hp \<longrightarrow> (\<exists>rt actual. e_run_root e = Some rt
              \<and> safe_host_path env hp rt = Inr actual
              \<and> expected_host_path env e g pre = Some actual)))"
proof -
  note p = common_passed [OF assms(1) [unfolded check_storage_def Let_def] assms(2) refusing(1)]
  have nd: "deny env op reason t e1 \<noteq> (Inr d, e2)" for op reason t e1 e2
    using assms(2) deny_refuses by blast
  have "safe_guest_path g = Inr g" if "safe_guest_path g = Inr x" for x
    using that by (simp add: safe_guest_path_def split: if_splits)
  then show ?thesis
    using p(1,2) assms(3)
    by (auto simp: nd split: sum.splits option.splits if_splits prod.splits)
qed

lemma mount_granted:
  assumes "check_mount env h g m c e = (Inr d, e')" and "d_allowed d"
  shows "\<not> sealed e \<and> (\<exists>rt access host. e_run_root e = Some rt
    \<and> safe_host_path env h rt = Inr host \<and> (g, access) \<in> set (mount_candidates e)
    \<and> expected_host_path env e g g = Some host \<and> m = mode_of access)"
proof -
  note p = common_passed [OF assms(1) [unfolded check_mount_def Let_def] assms(2) refusing(1)]
  have nd: "deny env op reason t e1 \<noteq> (Inr d, e2)" for op reason t e1 e2
    using assms(2) deny_refuses by blast
  have sg: "safe_guest_path g = Inr x \<Longrightarrow> x = g" for x
    by (simp add: safe_guest_path_def split: if_splits)
  show ?thesis
    using p(1,2) sg
    by (auto simp: nd split: sum.splits option.splits if_splits prod.splits
        dest: mount_for_guest_Some)
qed

section \<open>A validated policy can be launched\<close>

definition plain_root :: "host_env \<Rightarrow> hpath \<Rightarrow> bool" where
  "plain_root env rt \<longleftrightarrow> abs_path rt \<and> ''..'' \<notin> set rt
     \<and> list_all (\<lambda>c. CHR 0x00 \<notin> set c \<and> CHR 0x5C \<notin> set c) rt
     \<and> list_all (\<lambda>s. resolve_of env (rt @ s) = rt @ s) [[], [''inputs''], [''cache'']]"

definition clock_ready :: "host_env \<Rightarrow> enforcer \<Rightarrow> bool" where
  "clock_ready env e \<longleftrightarrow> (\<forall>n. \<exists>now. clock_of env n = Finite now
     \<and> (\<forall>t. e_expires_at e = Some t \<longrightarrow> now < t)
     \<and> (\<forall>d. np_max_duration_seconds (e_network e) = Some d \<longrightarrow> now - e_started_at e < of_int d))"

definition launch_ready :: "host_env \<Rightarrow> enforcer \<Rightarrow> bool" where
  "launch_ready env e \<longleftrightarrow> \<not> sealed e \<and> is_policy_digest (e_digest e) \<and> clock_ready env e
     \<and> storage_validate (e_storage e) = Inr (e_storage e)
     \<and> (\<exists>rt. e_run_root e = Some rt \<and> plain_root env rt)"

abbreviation stepped :: "enforcer \<Rightarrow> enforcer \<Rightarrow> bool" where
  "stepped e e' \<equiv> \<exists>n k. e' = e\<lparr>e_sequence := n, e_ticks := k\<rparr>"

lemma stepped_refl: "stepped e e"
  by (metis enforcer.surjective enforcer.update_convs(9,13) old.unit.exhaust)

lemma stepped_trans: "\<lbrakk>stepped e e1; stepped e1 e2\<rbrakk> \<Longrightarrow> stepped e e2"
  by (elim exE, hypsubst, rule exI, rule exI) simp

lemma launch_ready_stepped: "\<lbrakk>launch_ready env e; stepped e e'\<rbrakk> \<Longrightarrow> launch_ready env e'"
  by (auto simp: launch_ready_def sealed_def clock_ready_def)

lemma mounts_stepped: "stepped e e' \<Longrightarrow> mounts e' = mounts e"
  by (auto simp: mounts_def split: option.splits)

lemma set_join: "set (join_with c ps) \<subseteq> {c} \<union> \<Union> (set ` set ps)"
  by (induction c ps rule: join_with.induct) auto

lemma path_str_chars:
  assumes "abs_path p" and "x \<noteq> slash" and "\<forall>c \<in> set p. x \<notin> set c"
  shows "x \<notin> set (path_str p)"
  using assms set_join [of slash "tl p"]
  by (cases p) (auto simp: abs_path_def path_str_def)

lemma abs_path_prefix: "abs_path p \<Longrightarrow> prefix ''/'' (path_str p)"
  by (auto simp: abs_path_def path_str_def split: list.splits)

lemma abs_path_no_dot: "abs_path p \<Longrightarrow> ''.'' \<notin> set p"
  by (auto simp: abs_path_def list_all_iff comp_ok_def split: list.splits)

lemma safe_host_path_plain:
  assumes "plain_root env rt" and "s \<in> {[], [''inputs''], [''cache'']}"
  shows "safe_host_path env (path_str (rt @ s)) rt = Inr (rt @ s)"
proof -
  have ap: "abs_path (rt @ s)"
    using assms by (cases rt) (auto simp: plain_root_def abs_path_def comp_ok_def)
  have ok: "\<forall>c \<in> set (rt @ s). CHR 0x00 \<notin> set c \<and> CHR 0x5C \<notin> set c"
    using assms by (auto simp: plain_root_def list_all_iff)
  have nz: "CHR 0x00 \<notin> set (path_str (rt @ s))" "CHR 0x5C \<notin> set (path_str (rt @ s))"
    using ok by (intro path_str_chars [OF ap]; simp)+
  have "\<not> list_ex (\<lambda>part. part = ''.'' \<or> part = ''..'') (rt @ s)"
    using assms abs_path_no_dot [OF ap] by (auto simp: plain_root_def list_ex_iff)
  moreover have "resolve_of env (rt @ s) = rt @ s" "resolve_of env rt = rt"
    using assms by (auto simp: plain_root_def)
  ultimately show ?thesis
    using nz abs_path_prefix [OF ap] by (simp add: safe_host_path_def posix_parts_path_str [OF ap])
qed

lemma validated_guest_safe: "validate_guest_path g field pre = Inr x \<Longrightarrow> safe_guest_path g = Inr g"
  by (simp add: validate_guest_path_def safe_guest_path_def split: if_splits)

text \<open>Each declared mount is found under its own guest path and bound to its own host path.\<close>

lemma declared_mount:
  assumes "storage_validate (e_storage e) = Inr (e_storage e)" and "e_run_root e = Some rt"
    and "plain_root env rt" and "m \<in> set (mounts e)"
  shows "\<exists>s access. s \<in> {[], [''inputs''], [''cache'']} \<and> mb_host_path m = path_str (rt @ s)
    \<and> safe_guest_path (mb_guest_path m) = Inr (mb_guest_path m)
    \<and> mount_for_guest e (mb_guest_path m) = Some (mb_guest_path m, access)
    \<and> expected_host_path env e (mb_guest_path m) (mb_guest_path m) = Some (rt @ s)
    \<and> mb_mode m = mode_of access"
proof -
  have wf: "no_overlap (storage_paths (e_storage e))"
    using storage_validate_wf [OF assms(1)] by (simp add: storage_wf_def)
  note f = storage_validate_fields [OF assms(1)]
  have safe: "safe_guest_path (sp_workspace (e_storage e)) = Inr (sp_workspace (e_storage e))"
    "safe_guest_path (sp_inputs (e_storage e)) = Inr (sp_inputs (e_storage e))"
    "\<And>c. sp_cache (e_storage e) = Some c \<Longrightarrow> safe_guest_path c = Inr c"
    using f(1,2,3) validated_guest_safe by (auto simp: validate_cache_def)
  have r: "resolve_of env (rt @ s) = rt @ s" if "s \<in> {[], [''inputs''], [''cache'']}" for s
    using that assms(3) by (auto simp: plain_root_def)
  have nil: "path_comps [] = []" by (simp add: path_comps_def)
  show ?thesis
    using assms(2,4) wf safe r [of "[]"] r [of "[''inputs'']"] r [of "[''cache'']"]
    by (auto simp: mounts_def mount_for_guest_def mount_candidates_def expected_host_path_def
        storage_paths_def lstrip_char_def mode_of_def nil Let_def split: option.splits if_splits)
qed

lemma declared_mount_granted:
  assumes "launch_ready env e" and "m \<in> set (mounts e)" and "c = None \<or> c = Some (e_digest e)"
  shows "\<exists>d e'. check_mount env (mb_host_path m) (mb_guest_path m) (mb_mode m) c e = (Inr d, e')
    \<and> d_allowed d \<and> stepped e e'"
proof -
  obtain rt where rt: "e_run_root e = Some rt" "plain_root env rt"
    using assms(1) by (auto simp: launch_ready_def)
  have sv: "storage_validate (e_storage e) = Inr (e_storage e)"
    using assms(1) by (simp add: launch_ready_def)
  obtain s access where m: "s \<in> {[], [''inputs''], [''cache'']}" "mb_host_path m = path_str (rt @ s)"
    "safe_guest_path (mb_guest_path m) = Inr (mb_guest_path m)"
    "mount_for_guest e (mb_guest_path m) = Some (mb_guest_path m, access)"
    "expected_host_path env e (mb_guest_path m) (mb_guest_path m) = Some (rt @ s)"
    "mb_mode m = mode_of access"
    using declared_mount [OF sv rt assms(2)] by blast
  let ?e1 = "e\<lparr>e_ticks := Suc (e_ticks e)\<rparr>"
  obtain now where now: "clock_of env (e_ticks e) = Finite now"
    "\<And>t. e_expires_at e = Some t \<Longrightarrow> now < t"
    using assms(1) unfolding launch_ready_def clock_ready_def by metis
  obtain now' where now': "clock_of env (e_ticks ?e1) = Finite now'"
    using assms(1) unfolding launch_ready_def clock_ready_def by metis
  have cd: "common_denial env c False e = (Inr None, ?e1)"
    using assms(1,3) now by (intro common_denial_passes) (auto simp: launch_ready_def sealed_def)
  let ?det = "[(''host_path'', PStr (path_str (rt @ s))), (''guest_path'', PStr (mb_guest_path m)),
     (''mode'', PStr (mb_mode m))]"
  obtain tgt where step: "check_mount env (mb_host_path m) (mb_guest_path m) (mb_mode m) c e
      = decision env ''mount'' True ''mount is declared and run-local'' tgt None None ?det ?e1"
    using cd rt m safe_host_path_plain [OF rt(2) m(1)]
    by (simp add: check_mount_def Let_def abind_def)
  have dg: "is_policy_digest (e_digest ?e1)" using assms(1) by (simp add: launch_ready_def)
  obtain d where d: "decision env ''mount'' True ''mount is declared and run-local'' tgt None None
      ?det ?e1 = (Inr d, ?e1\<lparr>e_sequence := Suc (e_sequence ?e1), e_ticks := Suc (e_ticks ?e1)\<rparr>)"
    using decision_returns [OF now' _ dg] by blast
  have "stepped e (?e1\<lparr>e_sequence := Suc (e_sequence ?e1), e_ticks := Suc (e_ticks ?e1)\<rparr>)"
    by (rule exI, rule exI) simp
  with d step decision_Inr(2) [OF d] show ?thesis by metis
qed

lemma mount_plan_granted:
  "\<lbrakk>launch_ready env e; set ms \<subseteq> set (mounts e); c = None \<or> c = Some (e_digest e)\<rbrakk> \<Longrightarrow>
     \<exists>e'. check_mount_plan env c ms e = (Inr None, e') \<and> stepped e e'"
proof (induction ms arbitrary: e)
  case Nil
  then show ?case using stepped_refl by auto
next
  case (Cons m ms)
  from Cons.prems(2) have "m \<in> set (mounts e)" by simp
  from declared_mount_granted [OF Cons.prems(1) this Cons.prems(3)] obtain d e1 where
    d: "check_mount env (mb_host_path m) (mb_guest_path m) (mb_mode m) c e = (Inr d, e1)"
    "d_allowed d" "stepped e e1" by blast
  have "e_digest e1 = e_digest e" using d(3) by auto
  with Cons.prems have "c = None \<or> c = Some (e_digest e1)" by simp
  moreover have "set ms \<subseteq> set (mounts e1)" using Cons.prems(2) mounts_stepped [OF d(3)] by simp
  ultimately obtain e2 where e2: "check_mount_plan env c ms e1 = (Inr None, e2)" "stepped e1 e2"
    using Cons.IH [OF launch_ready_stepped [OF Cons.prems(1) d(3)]] by blast
  have "check_mount_plan env c (m # ms) e = (Inr None, e2)"
    using d(1,2) e2(1) by (simp add: abind_def)
  with stepped_trans [OF d(3) e2(2)] show ?case by blast
qed

lemma network_expiry_passes:
  assumes "clock_ready env e"
  shows "\<exists>e'. network_expiry_reason env e = (Inr None, e') \<and> stepped e e'"
proof -
  obtain now where "clock_of env (e_ticks e) = Finite now"
    "\<And>d. np_max_duration_seconds (e_network e) = Some d \<Longrightarrow> now - e_started_at e < of_int d"
    using assms unfolding clock_ready_def by metis
  then have *: "network_expiry_reason env e = (Inr None, if np_max_duration_seconds (e_network e) = None
      then e else e\<lparr>e_ticks := Suc (e_ticks e)\<rparr>)"
    by (auto simp: network_expiry_reason_def abind_def read_clock_def not_le split: option.splits)
  have "stepped e (e\<lparr>e_ticks := Suc (e_ticks e)\<rparr>)"
    by (metis enforcer.surjective enforcer.update_convs(9,13) old.unit.exhaust)
  with * stepped_refl show ?thesis by auto
qed

lemma launch_granted:
  assumes "launch_ready env e" and "c = None \<or> c = Some (e_digest e)"
  shows "\<exists>d e'. before_launch env c e = (Inr d, e') \<and> d_allowed d
    \<and> e_launch_receipt e' = Some (d_receipt d) \<and> enf_ext e e'"
proof -
  let ?e1 = "e\<lparr>e_ticks := Suc (e_ticks e)\<rparr>"
  obtain now where now: "clock_of env (e_ticks e) = Finite now"
    "\<And>t. e_expires_at e = Some t \<Longrightarrow> now < t"
    using assms(1) unfolding launch_ready_def clock_ready_def by metis
  have cd: "common_denial env c False e = (Inr None, ?e1)"
    using assms now by (intro common_denial_passes) (auto simp: launch_ready_def sealed_def)
  have s1: "stepped e ?e1"
    by (metis enforcer.surjective enforcer.update_convs(9,13) old.unit.exhaust)
  note r1 = launch_ready_stepped [OF assms(1) s1]
  obtain e2 where e2: "network_expiry_reason env ?e1 = (Inr None, e2)" "stepped ?e1 e2"
    using network_expiry_passes [of env ?e1] r1 by (auto simp: launch_ready_def)
  note s2 = stepped_trans [OF s1 e2(2)]
  note r2 = launch_ready_stepped [OF assms(1) s2]
  have m2: "mounts e2 = mounts ?e1" using mounts_stepped [OF e2(2)] .
  have d2: "e_digest e2 = e_digest e" using s2 by auto
  obtain e3 where e3: "check_mount_plan env c (mounts ?e1) e2 = (Inr None, e3)" "stepped e2 e3"
    using mount_plan_granted [OF r2, of "mounts ?e1" c] assms(2) m2 d2 by auto
  note s3 = stepped_trans [OF s2 e3(2)]
  note r3 = launch_ready_stepped [OF assms(1) s3]
  have dg: "is_policy_digest (e_digest e3)" using r3 by (simp add: launch_ready_def)
  obtain now' where now': "clock_of env (e_ticks e3) = Finite now'"
    using r3 unfolding launch_ready_def clock_ready_def by metis
  let ?det = "[(''policy_digest'', PStr (e_digest ?e1)),
     (''mounts'', PList (map mount_to_dict (mounts ?e1)))]"
  let ?why = "''policy validated and mount plan is enforceable''"
  obtain d where d: "decision env ''launch'' True ?why [] None None ?det e3
      = (Inr d, e3\<lparr>e_sequence := Suc (e_sequence e3), e_ticks := Suc (e_ticks e3)\<rparr>)"
    using decision_returns [OF now' _ dg, of "''launch''"] by blast
  obtain rt where rt: "e_run_root e = Some rt" using assms(1) by (auto simp: launch_ready_def)
  let ?e4 = "e3\<lparr>e_sequence := Suc (e_sequence e3), e_ticks := Suc (e_ticks e3),
     e_launch_receipt := Some (d_receipt d)\<rparr>"
  have run: "before_launch env c e = (Inr d, ?e4)"
    using cd e2(1) e3(1) d rt by (simp add: before_launch_def abind_def)
  then have "enf_ext e ?e4" by (rule keepsD [OF before_launch_ext])
  with run decision_Inr(2) [OF d] show ?thesis by auto
qed

section \<open>Properties of enforcement\<close>

text \<open>A concrete host for the witnesses: no symlinks, a clock that stands at 10.\<close>

definition sample_env :: host_env where
  "sample_env = \<lparr>ip_of = ipv4, digest_of = (\<lambda>_. zero_digest), isofmt_of = (\<lambda>_. ''t''),
     render_of = (\<lambda>_. ''invalid''), resolve_of = id, symlink_of = (\<lambda>_. False),
     clock_of = (\<lambda>_. Finite 10), wipe_raises = (\<lambda>_. None)\<rparr>"

definition sample_network :: network_policy where
  "sample_network = default_network\<lparr>np_phase := NEvaluation, np_purpose := DeclaredApi,
     np_egress_hosts := [''api.example.com''], np_egress_ports := [443], np_methods := [''POST''],
     np_max_bytes := Some 100, np_max_duration_seconds := Some 60\<rparr>"

definition sample_enforcer :: enforcer where
  "sample_enforcer = \<lparr>e_storage = default_storage, e_network = sample_network,
     e_run_root = Some [''/'', ''srv'', ''run''], e_digest = zero_digest, e_binding_error = None,
     e_started_at = 10, e_expires_at = None, e_network_bytes = 0, e_sequence = 0,
     e_launch_receipt = None, e_published = False,
     e_wipe = \<lparr>ws_callback = Some 0, ws_wiped = False, ws_receipt = None, ws_calls = []\<rparr>,
     e_ticks = 1\<rparr>"

definition sample_request :: network_request where
  "sample_request = \<lparr>nr_host = ''API.example.com'', nr_port = 443, nr_method = ''post'',
     nr_phase = None, nr_purpose = None, nr_byte_count = 60, nr_bytes = None, nr_digest = None,
     nr_elapsed = None\<rparr>"

lemma zero_digest_ok [simp]: "is_policy_digest zero_digest" "zero_digest \<noteq> ''abc''"
  by code_simp+

lemma sample_init:
  "enforcer_init sample_env (StorageObj default_storage) (NetworkObj sample_network)
     (Some ''/srv/run'') None None TsNone [Some 0] = Inr sample_enforcer"
  by code_simp



text \<open>
  C15: wiping is final and happens once. After a wipe in a session, whatever came before, no
  later operation is granted, and the wipe callback has been called at most once in the whole
  session, also when it raised and the wipe was retried.
\<close>

theorem wipe_is_final:
  assumes "enforcer_init env sa na rt ed pd ex ws = Inr e0"
    and "snd (enforcer_session env as e0) = e1"
    and "enforcer_step env (EnforcerWipe reason) e1 = (Wiped receipt, e2)"
  shows "list_all (\<lambda>r. \<not> granted r) (fst (enforcer_session env bs e2))
    \<and> length (ws_calls (e_wipe (snd (enforcer_session env bs e2)))) \<le> 1"
proof
  have wiped: "wipe_ok e2 \<and> ws_wiped (e_wipe e2)"
  proof -
    have "wipe_ok e0" using enforcer_init_Inr(4,5,6) [OF assms(1)] by (simp add: wipe_ok_def)
    then have 1: "wipe_ok e1" using assms(2) wipes.run_inv by blast
    then have "wipe_ok e2" using assms(3) enforcer_step_wipe_ok by (metis snd_conv)
    moreover have "ws_wiped (e_wipe e2)"
      using assms(3) 1
      by (auto simp: answer_def enforcer_wipe_def abind_def read_clock_def wipe_state_wipe_def
          wipe_ok_def Let_def split: pyfloat.splits option.splits sum.splits prod.splits if_splits)
    ultimately show ?thesis by blast
  qed
  then show "list_all (\<lambda>r. \<not> granted r) (fst (enforcer_session env bs e2))"
    using seal_session [of e2 _ env bs] by (auto simp: list_all_iff sealed_def)
  show "length (ws_calls (e_wipe (snd (enforcer_session env bs e2)))) \<le> 1"
    using wipes.run_inv [of e2 env bs] wiped by (simp add: wipe_ok_def Let_def)
qed

theorem wipe_is_final_witness:
  "\<exists>receipt e2. enforcer_step sample_env (EnforcerWipe ''done'') sample_enforcer = (Wiped receipt, e2)
     \<and> list_all (\<lambda>r. \<not> granted r)
         (fst (enforcer_session sample_env [CheckNetwork sample_request, EnforcerWipe ''x''] e2))
     \<and> length (ws_calls (e_wipe (snd (enforcer_session sample_env
         [CheckNetwork sample_request, EnforcerWipe ''x''] e2)))) \<le> 1"
proof -
  have "\<exists>receipt. fst (enforcer_step sample_env (EnforcerWipe ''done'') sample_enforcer) = Wiped receipt"
    by (auto simp: sample_env_def sample_enforcer_def answer_def enforcer_wipe_def abind_def
        read_clock_def wipe_state_wipe_def wipe_receipt_def make_receipt_def Let_def)
  then obtain receipt e2 where
    s: "enforcer_step sample_env (EnforcerWipe ''done'') sample_enforcer = (Wiped receipt, e2)"
    by (metis prod.collapse)
  have r: "snd (enforcer_session sample_env [] sample_enforcer) = sample_enforcer" by simp
  show ?thesis
    using s wipe_is_final [OF sample_init r s, of "[CheckNetwork sample_request, EnforcerWipe ''x'']"]
    by blast
qed

text \<open>
  an enforcer built with an expected digest other than the digest of the declared policies
  refuses every operation of every session.
\<close>

theorem unbound_digest_refuses:
  assumes "enforcer_init env sa na rt ed pd ex ws = Inr e"
    and "ed = Some x \<or> ed = None \<and> pd = Some x"
    and "x \<noteq> policy_digest (digest_of env) (isofmt_of env) (e_storage e) (e_network e)"
  shows "list_all (\<lambda>r. \<not> granted r) (fst (enforcer_session env as e))"
proof -
  have "e_binding_error e \<noteq> None"
    using enforcer_init_Inr(8,9) [OF assms(1)] assms(2,3) by (auto split: if_splits)
  then show ?thesis
    using seal_session [of e _ env as] by (auto simp: list_all_iff sealed_def)
qed

theorem unbound_digest_refuses_witness:
  "\<exists>e. enforcer_init sample_env (StorageObj default_storage) (NetworkObj sample_network)
      (Some ''/srv/run'') (Some ''abc'') None TsNone [] = Inr e
    \<and> list_all (\<lambda>r. \<not> granted r) (fst (enforcer_session sample_env [BeforeLaunch None] e))"
proof -
  have "isl (enforcer_init sample_env (StorageObj default_storage) (NetworkObj sample_network)
      (Some ''/srv/run'') (Some ''abc'') None TsNone []) = False" by code_simp
  then obtain e where e: "enforcer_init sample_env (StorageObj default_storage)
      (NetworkObj sample_network) (Some ''/srv/run'') (Some ''abc'') None TsNone [] = Inr e"
    by (metis sum.collapse(2))
  have "''abc'' \<noteq> policy_digest (digest_of sample_env) (isofmt_of sample_env) (e_storage e) (e_network e)"
    by (simp add: policy_digest_def sample_env_def zero_digest_ok(2) [symmetric])
  with unbound_digest_refuses [OF e, of "''abc''"] e show ?thesis by blast
qed

text \<open>
  over every session the sequence numbers on the receipts of the decisions are strictly
  increasing, so no two decisions share one.
\<close>

theorem receipt_sequence_increases:
  "sorted_wrt (<) (stamps sequence_of (fst (enforcer_session env as e)))"
  by (rule sequence.run_stamps_increasing) simp

text \<open>
  every decision returned in a session carries evidence that stands on its own: a receipt
  that verifies against the admitted policy digest and states the same verdict and the same
  operation as the decision.
\<close>

theorem session_receipts_verify:
  assumes "Decided d \<in> set (fst (enforcer_session env as e))"
  shows "receipt_verify (digest_of env) (d_receipt d) (e_digest e)
    \<and> receipt_allowed (d_receipt d) = d_allowed d \<and> r_operation (d_receipt d) = d_operation d"
  using assms
proof (induction as arbitrary: e)
  case (Cons a as)
  show ?case
  proof (cases "Decided d = fst (enforcer_step env a e)")
    case True
    with step_evidenced [of env a e d "snd (enforcer_step env a e)"] show ?thesis
      by (simp add: evidence_def)
  next
    case False
    with Cons.prems Cons.IH [of "snd (enforcer_step env a e)"] enforcer_step_frame [of e env a]
    show ?thesis by (auto simp: enf_frame_def)
  qed
qed simp

theorem session_receipts_verify_witness:
  "\<exists>d. Decided d \<in> set (fst (enforcer_session sample_env [BeforeLaunch None] sample_enforcer))
     \<and> receipt_verify (digest_of sample_env) (d_receipt d) zero_digest
     \<and> receipt_allowed (d_receipt d) \<and> d_allowed d"
proof -
  have g: "list_all granted (fst (enforcer_session sample_env [BeforeLaunch None] sample_enforcer))"
    by code_simp
  obtain r where "fst (enforcer_session sample_env [BeforeLaunch None] sample_enforcer) = [r]"
    by simp
  with g obtain d where
    d: "Decided d \<in> set (fst (enforcer_session sample_env [BeforeLaunch None] sample_enforcer))"
    "d_allowed d"
    by (cases r) auto
  have "e_digest sample_enforcer = zero_digest" by (simp add: sample_enforcer_def)
  with d session_receipts_verify [OF d(1)] show ?thesis by metis
qed

text \<open>
  a session is granted at most one publication.
\<close>

theorem one_publication:
  "length (filter granted_publication (zip as (fst (enforcer_session env as e)))) \<le> 1"
  by (rule publications_at_most_one)

text \<open>
  C27: a publication is granted only on an allowed launch receipt whose hash and policy digest
  verify, and never on a sealed enforcer; a receipt given as a mapping is re-hashed first, so
  a mapping with an altered field or identifier is refused.
\<close>

theorem publication_needs_launch:
  assumes "before_publication env l c b bs e = (Inr d, e')" and "d_allowed d"
  shows "\<not> e_published e \<and> e_published e' \<and> \<not> sealed e
    \<and> (\<exists>r. coerce_launch_receipt (digest_of env) e l = Inr (Some r)
         \<and> r_operation r = ''launch'' \<and> receipt_allowed r
         \<and> receipt_verify (digest_of env) r (e_digest e))"
  using assms by (rule publication_granted)

theorem publication_needs_launch_witness:
  "\<exists>d e e'. before_publication sample_env NoReceipt None 5 None e = (Inr d, e') \<and> d_allowed d
     \<and> \<not> e_published e \<and> e_published e'"
proof -
  let ?e = "snd (enforcer_step sample_env (BeforeLaunch None) sample_enforcer)"
  have "granted (fst (enforcer_step sample_env (BeforePublication NoReceipt None 5 None) ?e))"
    by code_simp
  then obtain d e' where d: "before_publication sample_env NoReceipt None 5 None ?e = (Inr d, e')"
    "d_allowed d"
    unfolding enforcer_step.simps(5) granted_answer by (metis prod.collapse)
  with publication_needs_launch [OF d] show ?thesis by blast
qed

text \<open>
  C9: an egress request is granted only inside the declared policy: the normalised host, the
  port and the upper-case method are in the exact allow-lists, the purpose is not \<open>none\<close>, the
  enforcer is not sealed, the policy has not expired at the clock reading taken, the bytes are
  accounted, and the receipt's target names the normalised request.
\<close>

theorem egress_within_policy:
  assumes "check_network env q e = (Inr d, e')" and "d_allowed d"
  shows "\<exists>host now. validate_host (ip_of env) (nr_host q) = Inr host
    \<and> host \<in> set (np_egress_hosts (e_network e)) \<and> nr_port q \<in> set (np_egress_ports (e_network e))
    \<and> py_upper (nr_method q) \<in> set (np_methods (e_network e))
    \<and> np_purpose (e_network e) \<noteq> NoPurpose \<and> \<not> sealed e
    \<and> clock_of env (e_ticks e) = Finite now
    \<and> (case e_expires_at e of None \<Rightarrow> True | Some t \<Rightarrow> now < t)
    \<and> e_network_bytes e' = e_network_bytes e + request_bytes q
    \<and> d_target d = net_target host (nr_port q) (py_upper (nr_method q))"
proof -
  obtain host where "validate_host (ip_of env) (nr_host q) = Inr host"
    "host \<in> set (np_egress_hosts (e_network e))"
    "nr_port q \<in> set (np_egress_ports (e_network e))"
    "py_upper (nr_method q) \<in> set (np_methods (e_network e))"
    "np_purpose (e_network e) \<noteq> NoPurpose" "\<not> sealed e"
    "e_network_bytes e' = e_network_bytes e + request_bytes q" "0 \<le> request_bytes q"
    "d_target d = net_target host (nr_port q) (py_upper (nr_method q))"
    "\<exists>now. clock_of env (e_ticks e) = Finite now \<and> (\<forall>t. e_expires_at e = Some t \<longrightarrow> now < t)"
    by (rule network_granted [OF assms])
  then show ?thesis by (auto split: option.splits)
qed

theorem egress_within_policy_witness:
  "\<exists>d e' host. check_network sample_env sample_request sample_enforcer = (Inr d, e') \<and> d_allowed d
     \<and> validate_host (ip_of sample_env) (nr_host sample_request) = Inr host
     \<and> host \<in> set (np_egress_hosts sample_network)"
proof -
  have "granted (fst (enforcer_step sample_env (CheckNetwork sample_request) sample_enforcer))"
    by code_simp
  then obtain d e' where d: "check_network sample_env sample_request sample_enforcer = (Inr d, e')"
    "d_allowed d"
    unfolding enforcer_step.simps(3) granted_answer by (metis prod.collapse)
  have "e_network sample_enforcer = sample_network" by (simp add: sample_enforcer_def)
  with egress_within_policy [OF d] d show ?thesis by metis
qed



text \<open>
  C29: a granted mount exposes only the run root: its guest path is one of the declared roots,
  its mode is the declared one, and its host path resolves to the host directory bound to that
  root, which lies inside the resolved run root.
\<close>

theorem mount_confined:
  assumes "check_mount env h g m c e = (Inr d, e')" and "d_allowed d"
  shows "\<exists>rt access host. e_run_root e = Some rt \<and> (g, access) \<in> set (mount_candidates e)
    \<and> m = mode_of access \<and> expected_host_path env e g g = Some host
    \<and> host = resolve_of env (posix_parts h) \<and> prefix (resolve_of env rt) host"
  using mount_granted [OF assms]
  by (auto simp: safe_host_path_def Let_def split: if_splits)

theorem mount_confined_witness:
  "\<exists>d e' access. check_mount sample_env ''/srv/run/inputs'' ''/inputs'' ''ro'' None sample_enforcer
      = (Inr d, e') \<and> d_allowed d \<and> (''/inputs'', access) \<in> set (mount_candidates sample_enforcer)
      \<and> ''ro'' = mode_of access"
proof -
  have "granted (fst (enforcer_step sample_env
      (CheckMount ''/srv/run/inputs'' ''/inputs'' ''ro'' None) sample_enforcer))" by code_simp
  then obtain d e' where
    d: "check_mount sample_env ''/srv/run/inputs'' ''/inputs'' ''ro'' None sample_enforcer = (Inr d, e')"
    "d_allowed d"
    unfolding enforcer_step.simps(1) granted_answer by (metis prod.collapse)
  with mount_confined [OF d] show ?thesis by metis
qed

lemma receipt_dict_get:
  "dict_get (receipt_to_dict r) ''schema'' = PStr receipt_schema"
  "dict_get (receipt_to_dict r) ''operation'' = PStr (r_operation r)"
  "dict_get (receipt_to_dict r) ''decision'' = PStr (r_decision r)"
  "dict_get (receipt_to_dict r) ''policy_digest'' = PStr (r_policy_digest r)"
  "dict_get (receipt_to_dict r) ''target'' = PStr (r_target r)"
  "dict_get (receipt_to_dict r) ''reason'' = PStr (r_reason r)"
  "dict_get (receipt_to_dict r) ''sequence'' = PInt (r_sequence r)"
  "dict_get (receipt_to_dict r) ''issued_at'' = r_issued_at r"
  "dict_get (receipt_to_dict r) ''phase'' = PStr (r_phase r)"
  "dict_get (receipt_to_dict r) ''purpose'' = PStr (r_purpose r)"
  "dict_get (receipt_to_dict r) ''details'' = PDict (r_details r)"
  "dict_get (receipt_to_dict r) ''receipt_id'' = PStr (r_receipt_id r)"
  by (simp_all add: dict_get_def receipt_to_dict_def receipt_payload_def)

lemma receipt_dict_complete:
  "\<not> list_ex (\<lambda>name. map_of (receipt_to_dict r) name = None) receipt_required"
  by (simp add: receipt_required_def receipt_to_dict_def receipt_payload_def)

text \<open>
  a receipt survives its own serialisation: \<open>from_dict (to_dict r)\<close> is \<open>r\<close> for every
  receipt the constructor accepted, and what \<open>from_dict\<close> accepts always verifies, so a
  mapping cannot carry a receipt whose identifier does not match its content.
\<close>

theorem receipt_roundtrip:
  assumes "make_receipt H op dec dig tgt rsn sq tm ph pu det = Inr r"
  shows "receipt_from_dict H (receipt_to_dict r) = Inr r
    \<and> (\<forall>m r'. receipt_from_dict H m = Inr r' \<longrightarrow>
         receipt_verify H r' (r_policy_digest r') \<and> dict_get m ''receipt_id'' = PStr (r_receipt_id r'))"
proof
  note f = make_receipt_Inr [OF assms]
  have mk: "make_receipt H (PStr (r_operation r)) (PStr (r_decision r)) (PStr (r_policy_digest r))
      (PStr (r_target r)) (PStr (r_reason r)) (PInt (r_sequence r)) (r_issued_at r)
      (PStr (r_phase r)) (PStr (r_purpose r)) (r_details r) = Inr r"
    using assms unfolding f(1-10) [symmetric] .
  show "receipt_from_dict H (receipt_to_dict r) = Inr r"
    unfolding receipt_from_dict_def receipt_dict_get
    using receipt_dict_complete [of r] by (simp add: mk)
  show "\<forall>m r'. receipt_from_dict H m = Inr r' \<longrightarrow>
         receipt_verify H r' (r_policy_digest r') \<and> dict_get m ''receipt_id'' = PStr (r_receipt_id r')"
    by (auto simp: receipt_from_dict_def receipt_verify_def make_receipt_Inr(11)
        split: if_splits pyval.splits dest: make_receipt_Inr(14))
qed

theorem receipt_roundtrip_witness:
  "\<exists>r. wipe_receipt (\<lambda>_. zero_digest) ''policy_wipe'' zero_digest (PFloat 0) = Inr r
     \<and> receipt_from_dict (\<lambda>_. zero_digest) (receipt_to_dict r) = Inr r"
proof -
  obtain r where r: "wipe_receipt (\<lambda>_. zero_digest) ''policy_wipe'' zero_digest (PFloat 0) = Inr r"
    by (simp add: wipe_receipt_def make_receipt_def Let_def)
  with receipt_roundtrip [OF r [unfolded wipe_receipt_def]] show ?thesis by blast
qed

text \<open>
  C35: a run whose policies validated can be launched. On an enforcer that is bound, unwiped and
  within its times, with a run root that resolves to itself, \<open>before_launch\<close> grants the launch
  (every mount of the plan is found enforceable) and records the receipt that a publication
  will be checked against.
\<close>

theorem validated_policy_launches:
  assumes "\<not> sealed e" and "is_policy_digest (e_digest e)" and "clock_ready env e"
    and "storage_validate (e_storage e) = Inr (e_storage e)"
    and "e_run_root e = Some rt" and "plain_root env rt"
  shows "\<exists>d e'. before_launch env (Some (e_digest e)) e = (Inr d, e') \<and> d_allowed d
    \<and> e_launch_receipt e' = Some (d_receipt d)"
proof -
  have "launch_ready env e" using assms by (simp add: launch_ready_def)
  then show ?thesis using launch_granted by blast
qed

theorem validated_policy_launches_witness:
  "\<exists>d e'. before_launch sample_env (Some zero_digest) sample_enforcer = (Inr d, e') \<and> d_allowed d
     \<and> e_launch_receipt e' = Some (d_receipt d)"
proof -
  have 1: "\<not> sealed sample_enforcer" "is_policy_digest (e_digest sample_enforcer)"
    "storage_validate (e_storage sample_enforcer) = Inr (e_storage sample_enforcer)"
    "e_run_root sample_enforcer = Some [''/'', ''srv'', ''run'']"
    "plain_root sample_env [''/'', ''srv'', ''run'']"
    by code_simp+
  have 2: "clock_ready sample_env sample_enforcer"
    by (simp add: clock_ready_def sample_env_def sample_enforcer_def sample_network_def)
  have 3: "e_digest sample_enforcer = zero_digest" by (simp add: sample_enforcer_def)
  show ?thesis using validated_policy_launches [OF 1(1,2) 2 1(3,4,5)] unfolding 3 .
qed

end
