(* ===== verification/Capability.thy ===== *)
theory Capability
  imports Prelude
begin

text \<open>
  Host-issued capability tokens and the supervisor of one worker:
  \<open>src/testudo/runtime/capability.py\<close>.

  An aware \<open>datetime\<close> is its instant in microseconds since the epoch. Parameters, in
  \<open>cap_env\<close>: \<open>isofmt\<close> is \<open>value.astimezone(UTC).isoformat()\<close>, \<open>fromiso\<close> is
  \<open>datetime.fromisoformat(...).astimezone(UTC)\<close> (\<open>None\<close> where it raises), \<open>mac\<close> is the hex
  HMAC-SHA256 of the canonical JSON of a payload. A \<open>TokenSigner\<close> is a record of its
  methods on canonical payloads. Random draws and the current time are arguments.
\<close>

record cap_env =
  isofmt :: "int \<Rightarrow> string"
  fromiso :: "string \<Rightarrow> int option"
  mac :: "string \<Rightarrow> pydict \<Rightarrow> string"

record token_signer =
  sg_algorithm :: string
  sg_key_id :: string
  sg_sign :: "pydict \<Rightarrow> exn + string"
  sg_verify :: "pydict \<Rightarrow> string \<Rightarrow> bool"

section \<open>Times and signatures\<close>

definition time_str :: "cap_env \<Rightarrow> int \<Rightarrow> string" where
  "time_str env t = py_replace ''+00:00'' ''Z'' (isofmt env t)"

definition parse_time :: "cap_env \<Rightarrow> string \<Rightarrow> exn + int" where
  "parse_time env value =
     (case fromiso env (py_replace ''Z'' ''+00:00'' value) of
        None \<Rightarrow> Inl (CapabilityError (''invalid timestamp: '' @ value))
      | Some t \<Rightarrow> Inr t)"

text \<open>\<open>_sign_payload\<close> extends the payload in place when a signer signs it.\<close>

definition sign_payload ::
  "cap_env \<Rightarrow> string option \<Rightarrow> token_signer option \<Rightarrow> pydict
     \<Rightarrow> exn + pydict \<times> string \<times> string \<times> string" where
  "sign_payload env signing_key signer payload =
     (case (signer, signing_key) of
        (Some _, Some _) \<Rightarrow> Inl (CapabilityError ''provide signer or signing_key, not both'')
      | (Some sg, None) \<Rightarrow>
          let payload' = payload @ [(''signature_alg'', PStr (sg_algorithm sg)),
                                    (''key_id'', PStr (sg_key_id sg))]
          in rbind (sg_sign sg payload') (\<lambda>s. Inr (payload', s, sg_algorithm sg, sg_key_id sg))
      | (None, Some key) \<Rightarrow>
          if key \<noteq> [] then Inr (payload, mac env key payload, ''HS256'', ''prototype'')
          else Inl (CapabilityError ''a host signer is required'')
      | (None, None) \<Rightarrow> Inl (CapabilityError ''a host signer is required''))"

section \<open>Tokens\<close>

record capability_token =
  token_id :: string
  run_id :: string
  lease_id :: string
  host_id :: string
  vm_id :: string
  repository :: string
  branch :: string
  base_sha :: string
  capabilities :: "string list"
  allowed_paths :: "string list"
  allowed_commands :: "string list"
  issued_at :: string
  expires_at :: string
  nonce :: string
  signature :: string
  signature_algorithm :: string
  key_id :: string

definition token_schema :: string where "token_schema = ''contained_capability.v1''"

definition str_list :: "string list \<Rightarrow> pyval" where "str_list xs = PList (map PStr xs)"

definition token_payload :: "capability_token \<Rightarrow> pydict" where
  "token_payload t =
     [(''schema'', PStr token_schema),
      (''token_id'', PStr (token_id t)),
      (''run_id'', PStr (run_id t)),
      (''lease_id'', PStr (lease_id t)),
      (''host_id'', PStr (host_id t)),
      (''vm_id'', PStr (vm_id t)),
      (''repository'', PStr (repository t)),
      (''branch'', PStr (branch t)),
      (''base_sha'', PStr (base_sha t)),
      (''capabilities'', str_list (capabilities t)),
      (''allowed_paths'', str_list (allowed_paths t)),
      (''allowed_commands'', str_list (allowed_commands t)),
      (''issued_at'', PStr (issued_at t)),
      (''expires_at'', PStr (expires_at t)),
      (''nonce'', PStr (nonce t))]
     @ (if signature_algorithm t \<noteq> ''HS256''
        then [(''signature_alg'', PStr (signature_algorithm t)), (''key_id'', PStr (key_id t))]
        else [])"

definition token_to_dict :: "capability_token \<Rightarrow> pydict" where
  "token_to_dict t = token_payload t @ [(''signature'', PStr (signature t))]"

definition identity_names :: "string list" where
  "identity_names = [''token_id'', ''run_id'', ''lease_id'', ''host_id'', ''vm_id'', ''repository'',
     ''branch'', ''base_sha'', ''issued_at'', ''expires_at'', ''nonce'']"

fun nonempty_str :: "pyval \<Rightarrow> bool" where
  "nonempty_str (PStr s) = (s \<noteq> [])"
| "nonempty_str _ = False"

fun py_str :: "pyval \<Rightarrow> string" where
  "py_str (PStr s) = s"
| "py_str _ = []"

fun is_pstr :: "pyval \<Rightarrow> bool" where
  "is_pstr (PStr _) = True"
| "is_pstr _ = False"

definition string_list :: "pydict \<Rightarrow> string \<Rightarrow> exn + string list" where
  "string_list payload name =
     (case dict_get payload name of
        PList xs \<Rightarrow> if list_all is_pstr xs then Inr (map py_str xs)
                   else Inl (CapabilityError (name @ '' must be a string list''))
      | _ \<Rightarrow> Inl (CapabilityError (name @ '' must be a string list'')))"

definition get_default :: "pydict \<Rightarrow> string \<Rightarrow> string \<Rightarrow> pyval" where
  "get_default d k v = (case map_of d k of None \<Rightarrow> PStr v | Some x \<Rightarrow> x)"

text \<open>\<open>override or payload.get(name, default)\<close>\<close>

definition or_get :: "string option \<Rightarrow> pyval \<Rightarrow> pyval" where
  "or_get over v = (case over of Some a \<Rightarrow> if a \<noteq> [] then PStr a else v | None \<Rightarrow> v)"

definition token_from_payload ::
  "cap_env \<Rightarrow> pydict \<Rightarrow> string \<Rightarrow> string option \<Rightarrow> string option \<Rightarrow> exn + capability_token" where
  "token_from_payload env payload sig alg kid =
     (if list_ex (\<lambda>name. \<not> nonempty_str (dict_get payload name)) identity_names then
        Inl (CapabilityError ''token identity or time field is missing'')
      else
        rbind (string_list payload ''capabilities'') (\<lambda>caps.
        rbind (string_list payload ''allowed_paths'') (\<lambda>paths.
        rbind (string_list payload ''allowed_commands'') (\<lambda>commands.
          let algorithm = or_get alg (get_default payload ''signature_alg'' ''HS256'');
              token_key_id = or_get kid (get_default payload ''key_id'' ''prototype'')
          in if \<not> nonempty_str algorithm \<or> \<not> nonempty_str token_key_id then
               Inl (CapabilityError ''token signer metadata is invalid'')
             else let get = (\<lambda>name. py_str (dict_get payload name));
                      token = \<lparr>token_id = get ''token_id'', run_id = get ''run_id'',
                        lease_id = get ''lease_id'', host_id = get ''host_id'', vm_id = get ''vm_id'',
                        repository = get ''repository'', branch = get ''branch'',
                        base_sha = get ''base_sha'', capabilities = caps, allowed_paths = paths,
                        allowed_commands = commands, issued_at = get ''issued_at'',
                        expires_at = get ''expires_at'', nonce = get ''nonce'', signature = sig,
                        signature_algorithm = py_str algorithm, key_id = py_str token_key_id\<rparr>
                  in rbind (parse_time env (issued_at token)) (\<lambda>_.
                     rbind (parse_time env (expires_at token)) (\<lambda>_. Inr token))))))"

text \<open>The keyword arguments of \<open>issue\<close> that name the scope.\<close>

record token_scope =
  sc_run_id :: string
  sc_lease_id :: string
  sc_host_id :: string
  sc_vm_id :: string
  sc_repository :: string
  sc_branch :: string
  sc_base_sha :: string
  sc_capabilities :: "string list"
  sc_allowed_paths :: "string list"
  sc_allowed_commands :: "string list"

definition issue_payload :: "cap_env \<Rightarrow> token_scope \<Rightarrow> string \<Rightarrow> string \<Rightarrow> int \<Rightarrow> int \<Rightarrow> pydict" where
  "issue_payload env sc fresh_id fresh_nonce issued lifetime =
     [(''schema'', PStr token_schema),
      (''token_id'', PStr fresh_id),
      (''run_id'', PStr (sc_run_id sc)),
      (''lease_id'', PStr (sc_lease_id sc)),
      (''host_id'', PStr (sc_host_id sc)),
      (''vm_id'', PStr (sc_vm_id sc)),
      (''repository'', PStr (sc_repository sc)),
      (''branch'', PStr (sc_branch sc)),
      (''base_sha'', PStr (sc_base_sha sc)),
      (''capabilities'', str_list (sc_capabilities sc)),
      (''allowed_paths'', str_list (sc_allowed_paths sc)),
      (''allowed_commands'', str_list (sc_allowed_commands sc)),
      (''issued_at'', PStr (time_str env issued)),
      (''expires_at'', PStr (time_str env (issued + lifetime))),
      (''nonce'', PStr fresh_nonce)]"

definition token_issue ::
  "cap_env \<Rightarrow> string option \<Rightarrow> token_signer option \<Rightarrow> token_scope \<Rightarrow> int \<Rightarrow> int \<Rightarrow> string \<Rightarrow> string
     \<Rightarrow> exn + capability_token" where
  "token_issue env signing_key signer sc lifetime now fresh_id fresh_nonce =
     (if (signing_key = None) = (signer = None) \<or> lifetime \<le> 0 then
        Inl (CapabilityError ''exactly one host signer and a positive lifetime are required'')
      else if list_ex (\<lambda>v. v = []) [sc_run_id sc, sc_lease_id sc, sc_host_id sc, sc_vm_id sc,
                sc_repository sc, sc_branch sc, sc_base_sha sc] then
        Inl (CapabilityError ''run, lease, host, VM, repository and scope are required'')
      else if \<not> prefix ''agent/'' (sc_branch sc) then
        Inl (CapabilityError ''capability token must target an agent branch'')
      else if (length (sc_base_sha sc) \<noteq> 40 \<and> length (sc_base_sha sc) \<noteq> 64)
          \<or> \<not> list_all lower_hex (sc_base_sha sc) then
        Inl (CapabilityError ''base_sha must be a lowercase Git/object digest'')
      else
        rbind (sign_payload env signing_key signer
                 (issue_payload env sc fresh_id fresh_nonce now lifetime))
          (\<lambda>(payload, sig, algorithm, kid).
             token_from_payload env payload sig (Some algorithm) (Some kid)))"

text \<open>\<open>hmac.compare_digest\<close> on strings: both must be ASCII.\<close>

definition compare_digest :: "string \<Rightarrow> string \<Rightarrow> exn + bool" where
  "compare_digest a b =
     (if list_all (\<lambda>c. of_char c < (128 :: nat)) (a @ b) then Inr (a = b)
      else Inl (TypeError ''comparing strings with non-ASCII characters is not supported''))"

text \<open>The signature check of \<open>verify\<close>, by the host's signer or by its HMAC key.\<close>

definition check_signature ::
  "cap_env \<Rightarrow> string option \<Rightarrow> token_signer option \<Rightarrow> pydict \<Rightarrow> string \<Rightarrow> exn + bool" where
  "check_signature env signing_key signer payload sig =
     (let algorithm = get_default payload ''signature_alg'' ''HS256'';
          kid = get_default payload ''key_id'' ''prototype''
      in case signer of
           Some sg \<Rightarrow>
             if algorithm \<noteq> PStr (sg_algorithm sg) \<or> kid \<noteq> PStr (sg_key_id sg) then
               Inl (CapabilityError ''capability token signer mismatch'')
             else Inr (sg_verify sg payload sig)
         | None \<Rightarrow>
             if algorithm \<noteq> PStr ''HS256'' then
               Inl (CapabilityError ''asymmetric token requires a host verifier'')
             else compare_digest sig (mac env (the signing_key) payload))"

definition token_verify ::
  "cap_env \<Rightarrow> string option \<Rightarrow> token_signer option \<Rightarrow> int \<Rightarrow> pydict \<Rightarrow> exn + capability_token" where
  "token_verify env signing_key signer now value =
     (if (signing_key = None) = (signer = None) then
        Inl (CapabilityError ''exactly one token verifier is required'')
      else let payload = filter (\<lambda>(k, v). k \<noteq> ''signature'') value in
        (case dict_get value ''signature'' of
          PStr sig \<Rightarrow>
            if dict_get payload ''schema'' \<noteq> PStr token_schema then
              Inl (CapabilityError ''unsupported or unsigned token'')
            else rbind (check_signature env signing_key signer payload sig) (\<lambda>valid.
               if \<not> valid then Inl (CapabilityError ''capability token signature mismatch'')
               else
                 rbind (token_from_payload env payload sig None None) (\<lambda>token.
                 rbind (parse_time env (issued_at token)) (\<lambda>issued.
                   if issued > now then
                     Inl (CapabilityError ''capability token is not yet valid'')
                   else rbind (parse_time env (expires_at token)) (\<lambda>expires.
                     if now \<ge> expires then Inl (CapabilityError ''capability token expired'')
                     else Inr token))))
        | _ \<Rightarrow> Inl (CapabilityError ''unsupported or unsigned token'')))"

section \<open>Reading a token back\<close>

definition token_wf :: "cap_env \<Rightarrow> capability_token \<Rightarrow> bool" where
  "token_wf env t \<longleftrightarrow>
     list_all (\<lambda>v. v \<noteq> []) [token_id t, run_id t, lease_id t, host_id t, vm_id t, repository t,
       branch t, base_sha t, issued_at t, expires_at t, nonce t, signature_algorithm t, key_id t]
     \<and> (\<exists>i. parse_time env (issued_at t) = Inr i) \<and> (\<exists>x. parse_time env (expires_at t) = Inr x)"

text \<open>An HS256 payload names no key, so only the default key identifier can be read back.\<close>

definition key_default :: "capability_token \<Rightarrow> bool" where
  "key_default t \<longleftrightarrow> (signature_algorithm t = ''HS256'' \<longrightarrow> key_id t = ''prototype'')"

lemma str_list_back: "list_all is_pstr (map PStr xs)" "map py_str (map PStr xs) = xs"
  by (induction xs) auto

lemma token_payload_get:
  "dict_get (token_payload t) ''schema'' = PStr token_schema"
  "dict_get (token_payload t) ''token_id'' = PStr (token_id t)"
  "dict_get (token_payload t) ''run_id'' = PStr (run_id t)"
  "dict_get (token_payload t) ''lease_id'' = PStr (lease_id t)"
  "dict_get (token_payload t) ''host_id'' = PStr (host_id t)"
  "dict_get (token_payload t) ''vm_id'' = PStr (vm_id t)"
  "dict_get (token_payload t) ''repository'' = PStr (repository t)"
  "dict_get (token_payload t) ''branch'' = PStr (branch t)"
  "dict_get (token_payload t) ''base_sha'' = PStr (base_sha t)"
  "dict_get (token_payload t) ''capabilities'' = str_list (capabilities t)"
  "dict_get (token_payload t) ''allowed_paths'' = str_list (allowed_paths t)"
  "dict_get (token_payload t) ''allowed_commands'' = str_list (allowed_commands t)"
  "dict_get (token_payload t) ''issued_at'' = PStr (issued_at t)"
  "dict_get (token_payload t) ''expires_at'' = PStr (expires_at t)"
  "dict_get (token_payload t) ''nonce'' = PStr (nonce t)"
  by (simp_all add: dict_get_def token_payload_def)

lemma token_payload_signer:
  "get_default (token_payload t) ''signature_alg'' ''HS256'' = PStr (signature_algorithm t)"
  "key_default t \<Longrightarrow> get_default (token_payload t) ''key_id'' ''prototype'' = PStr (key_id t)"
  by (simp_all add: get_default_def token_payload_def key_default_def)

lemma string_list_back: "dict_get p name = str_list xs \<Longrightarrow> string_list p name = Inr xs"
  using str_list_back [of xs] by (simp add: string_list_def str_list_def del: map_map)

lemma token_from_payload_back:
  assumes "token_wf env t" and "key_default t"
  shows "token_from_payload env (token_payload t) (signature t) None None = Inr t"
proof -
  have ids: "\<not> list_ex (\<lambda>name. \<not> nonempty_str (dict_get (token_payload t) name)) identity_names"
    using assms(1) by (simp add: identity_names_def token_payload_get token_wf_def)
  have lists: "string_list (token_payload t) ''capabilities'' = Inr (capabilities t)"
    "string_list (token_payload t) ''allowed_paths'' = Inr (allowed_paths t)"
    "string_list (token_payload t) ''allowed_commands'' = Inr (allowed_commands t)"
    by (simp_all add: string_list_back token_payload_get)
  show ?thesis
    using ids assms token_payload_signer(2) [OF assms(2)]
    by (auto simp: token_from_payload_def lists token_payload_signer(1) token_payload_get or_get_def
        Let_def token_wf_def)
qed

lemma nonempty_strE: "nonempty_str v \<Longrightarrow> v = PStr (py_str v) \<and> py_str v \<noteq> []"
  by (cases v) auto

lemma token_from_payload_Inr:
  assumes "token_from_payload env p sig alg kid = Inr t"
  shows "token_wf env t" and "signature t = sig"
    and "\<forall>name \<in> set identity_names. nonempty_str (dict_get p name)"
    and "PStr (signature_algorithm t) = or_get alg (get_default p ''signature_alg'' ''HS256'')"
    and "PStr (key_id t) = or_get kid (get_default p ''key_id'' ''prototype'')"
    and "string_list p ''capabilities'' = Inr (capabilities t)"
    and "string_list p ''allowed_paths'' = Inr (allowed_paths t)"
    and "string_list p ''allowed_commands'' = Inr (allowed_commands t)"
    and "py_str (dict_get p ''run_id'') = run_id t" and "py_str (dict_get p ''vm_id'') = vm_id t"
    and "py_str (dict_get p ''token_id'') = token_id t"
    and "py_str (dict_get p ''expires_at'') = expires_at t"
proof -
  define a where "a = or_get alg (get_default p ''signature_alg'' ''HS256'')"
  define k where "k = or_get kid (get_default p ''key_id'' ''prototype'')"
  have ids: "\<not> list_ex (\<lambda>name. \<not> nonempty_str (dict_get p name)) identity_names"
    using assms by (simp add: token_from_payload_def split: if_splits)
  then show all: "\<forall>name \<in> set identity_names. nonempty_str (dict_get p name)"
    by (simp add: list_ex_iff)
  obtain caps paths cmds where
    l: "string_list p ''capabilities'' = Inr caps" "string_list p ''allowed_paths'' = Inr paths"
      "string_list p ''allowed_commands'' = Inr cmds"
    and ak: "nonempty_str a" "nonempty_str k"
    and t: "t = \<lparr>token_id = py_str (dict_get p ''token_id''), run_id = py_str (dict_get p ''run_id''),
        lease_id = py_str (dict_get p ''lease_id''), host_id = py_str (dict_get p ''host_id''),
        vm_id = py_str (dict_get p ''vm_id''), repository = py_str (dict_get p ''repository''),
        branch = py_str (dict_get p ''branch''), base_sha = py_str (dict_get p ''base_sha''),
        capabilities = caps, allowed_paths = paths, allowed_commands = cmds,
        issued_at = py_str (dict_get p ''issued_at''), expires_at = py_str (dict_get p ''expires_at''),
        nonce = py_str (dict_get p ''nonce''), signature = sig,
        signature_algorithm = py_str a, key_id = py_str k\<rparr>"
    and times: "\<exists>i. parse_time env (issued_at t) = Inr i" "\<exists>x. parse_time env (expires_at t) = Inr x"
    using assms ids unfolding token_from_payload_def Let_def a_def [symmetric] k_def [symmetric]
    by (auto split: if_splits)
  show "token_wf env t"
    using all ak times nonempty_strE
    by (simp add: token_wf_def t identity_names_def)
  show "signature t = sig" by (simp add: t)
  show "PStr (signature_algorithm t) = or_get alg (get_default p ''signature_alg'' ''HS256'')"
    "PStr (key_id t) = or_get kid (get_default p ''key_id'' ''prototype'')"
    using ak nonempty_strE a_def k_def by (simp_all add: t)
  show "string_list p ''capabilities'' = Inr (capabilities t)"
    "string_list p ''allowed_paths'' = Inr (allowed_paths t)"
    "string_list p ''allowed_commands'' = Inr (allowed_commands t)"
    using l by (simp_all add: t)
  show "py_str (dict_get p ''run_id'') = run_id t" "py_str (dict_get p ''vm_id'') = vm_id t"
    "py_str (dict_get p ''token_id'') = token_id t"
    "py_str (dict_get p ''expires_at'') = expires_at t"
    by (simp_all add: t)
qed

lemma issue_payload_get:
  "dict_get (issue_payload env sc i n now life @ ext) ''token_id'' = PStr i"
  "dict_get (issue_payload env sc i n now life @ ext) ''run_id'' = PStr (sc_run_id sc)"
  "dict_get (issue_payload env sc i n now life @ ext) ''lease_id'' = PStr (sc_lease_id sc)"
  "dict_get (issue_payload env sc i n now life @ ext) ''host_id'' = PStr (sc_host_id sc)"
  "dict_get (issue_payload env sc i n now life @ ext) ''vm_id'' = PStr (sc_vm_id sc)"
  "dict_get (issue_payload env sc i n now life @ ext) ''repository'' = PStr (sc_repository sc)"
  "dict_get (issue_payload env sc i n now life @ ext) ''branch'' = PStr (sc_branch sc)"
  "dict_get (issue_payload env sc i n now life @ ext) ''base_sha'' = PStr (sc_base_sha sc)"
  "dict_get (issue_payload env sc i n now life @ ext) ''capabilities'' = str_list (sc_capabilities sc)"
  "dict_get (issue_payload env sc i n now life @ ext) ''allowed_paths'' = str_list (sc_allowed_paths sc)"
  "dict_get (issue_payload env sc i n now life @ ext) ''allowed_commands'' = str_list (sc_allowed_commands sc)"
  "dict_get (issue_payload env sc i n now life @ ext) ''issued_at'' = PStr (time_str env now)"
  "dict_get (issue_payload env sc i n now life @ ext) ''expires_at'' = PStr (time_str env (now + life))"
  "dict_get (issue_payload env sc i n now life @ ext) ''nonce'' = PStr n"
  by (simp_all add: dict_get_def issue_payload_def)

lemma issued_token_payload:
  assumes "token_from_payload env (issue_payload env sc i n now life @ ext) sig (Some a) (Some k) = Inr t"
    and "a \<noteq> []" and "k \<noteq> []"
  shows "token_payload t = issue_payload env sc i n now life
      @ (if a \<noteq> ''HS256'' then [(''signature_alg'', PStr a), (''key_id'', PStr k)] else [])"
    and "signature_algorithm t = a" and "key_id t = k"
    and "issued_at t = time_str env now" and "expires_at t = time_str env (now + life)"
    and "capabilities t = sc_capabilities sc"
proof -
  have lists:
    "string_list (issue_payload env sc i n now life @ ext) ''capabilities'' = Inr (sc_capabilities sc)"
    "string_list (issue_payload env sc i n now life @ ext) ''allowed_paths'' = Inr (sc_allowed_paths sc)"
    "string_list (issue_payload env sc i n now life @ ext) ''allowed_commands''
       = Inr (sc_allowed_commands sc)"
    by (simp_all add: string_list_back issue_payload_get)
  have t: "t = \<lparr>token_id = i, run_id = sc_run_id sc, lease_id = sc_lease_id sc, host_id = sc_host_id sc,
      vm_id = sc_vm_id sc, repository = sc_repository sc, branch = sc_branch sc,
      base_sha = sc_base_sha sc, capabilities = sc_capabilities sc,
      allowed_paths = sc_allowed_paths sc, allowed_commands = sc_allowed_commands sc,
      issued_at = time_str env now, expires_at = time_str env (now + life), nonce = n,
      signature = sig, signature_algorithm = a, key_id = k\<rparr>"
    using assms
    by (auto simp: token_from_payload_def lists or_get_def Let_def issue_payload_get split: if_splits)
  show "token_payload t = issue_payload env sc i n now life
      @ (if a \<noteq> ''HS256'' then [(''signature_alg'', PStr a), (''key_id'', PStr k)] else [])"
    "signature_algorithm t = a" "key_id t = k" "issued_at t = time_str env now"
    "expires_at t = time_str env (now + life)" "capabilities t = sc_capabilities sc"
    by (simp_all add: t token_payload_def issue_payload_def)
qed

text \<open>What the code relies on in a signer: it accepts its own signatures.\<close>

definition signer_ok :: "token_signer \<Rightarrow> bool" where
  "signer_ok sg \<longleftrightarrow> sg_algorithm sg \<noteq> [] \<and> sg_algorithm sg \<noteq> ''HS256'' \<and> sg_key_id sg \<noteq> []
     \<and> (\<forall>p s. sg_sign sg p = Inr s \<longrightarrow> sg_verify sg p s)"

text \<open>What it relies on in \<open>datetime\<close>: a printed UTC instant reads back.\<close>

definition time_roundtrip :: "cap_env \<Rightarrow> bool" where
  "time_roundtrip env \<longleftrightarrow> (\<forall>t. parse_time env (time_str env t) = Inr t)"

definition ascii :: "string \<Rightarrow> bool" where
  "ascii s \<longleftrightarrow> list_all (\<lambda>c. of_char c < (128 :: nat)) s"

lemma token_dict_split:
  "filter (\<lambda>(k, v). k \<noteq> ''signature'') (token_to_dict t) = token_payload t"
  "dict_get (token_to_dict t) ''signature'' = PStr (signature t)"
  by (simp_all add: token_to_dict_def token_payload_def dict_get_def)

text \<open>
  A token whose payload carries a valid signature is accepted exactly while it is valid.
\<close>

lemma verify_own:
  assumes wf: "token_wf env t" "key_default t"
    and one: "(signing_key = None) \<noteq> (signer = None)"
    and sig: "case signer of
        Some sg \<Rightarrow> signature_algorithm t = sg_algorithm sg \<and> key_id t = sg_key_id sg
          \<and> sg_verify sg (token_payload t) (signature t)
      | None \<Rightarrow> signature_algorithm t = ''HS256'' \<and> ascii (signature t)
          \<and> mac env (the signing_key) (token_payload t) = signature t"
    and times: "parse_time env (issued_at t) = Inr i" "parse_time env (expires_at t) = Inr x"
  shows "token_verify env signing_key signer now (token_to_dict t) =
     (if i > now then Inl (CapabilityError ''capability token is not yet valid'')
      else if now \<ge> x then Inl (CapabilityError ''capability token expired'')
      else Inr t)"
proof -
  note rd = token_dict_split token_payload_get(1) token_payload_signer(1)
    token_payload_signer(2) [OF wf(2)] token_from_payload_back [OF wf]
  show ?thesis
  proof (cases signer)
    case None
    with one sig show ?thesis
      by (simp add: token_verify_def check_signature_def Let_def rd times compare_digest_def ascii_def)
  next
    case (Some sg)
    with one sig show ?thesis
      by (simp add: token_verify_def check_signature_def Let_def rd times)
  qed
qed

lemma issue_signed:
  assumes "token_issue env signing_key signer sc life now i n = Inr t"
    and "\<And>sg. signer = Some sg \<Longrightarrow> signer_ok sg"
    and "\<And>k p. signing_key = Some k \<Longrightarrow> ascii (mac env k p)"
  shows "token_wf env t" and "key_default t" and "(signing_key = None) \<noteq> (signer = None)"
    and "case signer of
        Some sg \<Rightarrow> signature_algorithm t = sg_algorithm sg \<and> key_id t = sg_key_id sg
          \<and> sg_verify sg (token_payload t) (signature t)
      | None \<Rightarrow> signature_algorithm t = ''HS256'' \<and> ascii (signature t)
          \<and> mac env (the signing_key) (token_payload t) = signature t"
    and "issued_at t = time_str env now" and "expires_at t = time_str env (now + life)"
    and "capabilities t = sc_capabilities sc" and "0 < life"
proof -
  show one: "(signing_key = None) \<noteq> (signer = None)" and "0 < life"
    using assms(1) by (auto simp: token_issue_def split: if_splits)
  obtain p sig a k where sp: "sign_payload env signing_key signer (issue_payload env sc i n now life)
      = Inr (p, sig, a, k)" and fp: "token_from_payload env p sig (Some a) (Some k) = Inr t"
    using assms(1) by (auto simp: token_issue_def split: if_splits)
  have *: "token_wf env t \<and> key_default t \<and> issued_at t = time_str env now
      \<and> expires_at t = time_str env (now + life) \<and> capabilities t = sc_capabilities sc \<and> (case signer of
        Some sg \<Rightarrow> signature_algorithm t = sg_algorithm sg \<and> key_id t = sg_key_id sg
          \<and> sg_verify sg (token_payload t) (signature t)
      | None \<Rightarrow> signature_algorithm t = ''HS256'' \<and> ascii (signature t)
          \<and> mac env (the signing_key) (token_payload t) = signature t)"
  proof (cases signer)
    case None
    with one obtain key where "signing_key = Some key" by auto
    with sp None have s: "p = issue_payload env sc i n now life @ []" "sig = mac env key p"
      "a = ''HS256''" "k = ''prototype''"
      by (auto simp: sign_payload_def split: if_splits)
    note f = issued_token_payload [OF fp [unfolded s(1)]]
    show ?thesis
      using None s \<open>signing_key = Some key\<close> assms(3) f token_from_payload_Inr(1,2) [OF fp]
      by (simp add: key_default_def)
  next
    case (Some sg)
    with assms(2) have ok: "signer_ok sg" by simp
    from Some one have "signing_key = None" by auto
    with sp Some have s: "p = issue_payload env sc i n now life
        @ [(''signature_alg'', PStr (sg_algorithm sg)), (''key_id'', PStr (sg_key_id sg))]"
      "sg_sign sg p = Inr sig" "a = sg_algorithm sg" "k = sg_key_id sg"
      by (auto simp: sign_payload_def Let_def)
    have ne: "a \<noteq> []" "k \<noteq> []" "a \<noteq> ''HS256''" using ok s by (simp_all add: signer_ok_def)
    note f = issued_token_payload [OF fp [unfolded s(1)] ne(1,2)]
    have pay: "token_payload t = p" using f(1) ne s by simp
    have "sg_verify sg (token_payload t) (signature t)"
      using s(2) pay ok token_from_payload_Inr(2) [OF fp] by (simp add: signer_ok_def)
    with Some f(2-6) ne(3) s(3,4) token_from_payload_Inr(1) [OF fp] show ?thesis
      by (simp add: key_default_def)
  qed
  then show "token_wf env t" "key_default t" "issued_at t = time_str env now"
    "expires_at t = time_str env (now + life)" "capabilities t = sc_capabilities sc"
    "case signer of
        Some sg \<Rightarrow> signature_algorithm t = sg_algorithm sg \<and> key_id t = sg_key_id sg
          \<and> sg_verify sg (token_payload t) (signature t)
      | None \<Rightarrow> signature_algorithm t = ''HS256'' \<and> ascii (signature t)
          \<and> mac env (the signing_key) (token_payload t) = signature t"
    by blast+
qed

lemma verify_Inr:
  assumes "token_verify env signing_key signer now v = Inr t"
  shows "token_wf env t"
    and "case signer of
        Some sg \<Rightarrow> sg_verify sg (filter (\<lambda>(k, v). k \<noteq> ''signature'') v) (signature t)
          \<and> signature_algorithm t = sg_algorithm sg \<and> key_id t = sg_key_id sg
      | None \<Rightarrow> (\<exists>key. signing_key = Some key
          \<and> signature t = mac env key (filter (\<lambda>(k, v). k \<noteq> ''signature'') v)
          \<and> signature_algorithm t = ''HS256'')"
    and "\<exists>i x. parse_time env (issued_at t) = Inr i \<and> parse_time env (expires_at t) = Inr x
      \<and> i \<le> now \<and> now < x"
    and "token_from_payload env (filter (\<lambda>(k, v). k \<noteq> ''signature'') v) (signature t) None None = Inr t"
proof -
  let ?p = "filter (\<lambda>(k, v). k \<noteq> ''signature'') v"
  have one: "(signing_key = None) \<noteq> (signer = None)"
    using assms by (auto simp: token_verify_def split: if_splits)
  obtain sig where g: "dict_get v ''signature'' = PStr sig" "dict_get ?p ''schema'' = PStr token_schema"
    using assms one
    by (auto simp: token_verify_def Let_def split: pyval.splits if_splits)
  obtain i x where r: "token_from_payload env ?p sig None None = Inr t"
    "parse_time env (issued_at t) = Inr i" "\<not> i > now" "parse_time env (expires_at t) = Inr x"
    "\<not> now \<ge> x"
    and sv: "check_signature env signing_key signer ?p sig = Inr True"
    using assms one g unfolding token_verify_def Let_def by (auto split: if_splits)
  note f = token_from_payload_Inr [OF r(1)]
  show "token_wf env t" by (rule f(1))
  show "token_from_payload env ?p (signature t) None None = Inr t" using r(1) f(2) by simp
  show "\<exists>i x. parse_time env (issued_at t) = Inr i \<and> parse_time env (expires_at t) = Inr x
      \<and> i \<le> now \<and> now < x" using r by auto
  show "case signer of
        Some sg \<Rightarrow> sg_verify sg ?p (signature t)
          \<and> signature_algorithm t = sg_algorithm sg \<and> key_id t = sg_key_id sg
      | None \<Rightarrow> (\<exists>key. signing_key = Some key \<and> signature t = mac env key ?p
          \<and> signature_algorithm t = ''HS256'')"
    using sv f(2,4,5) one
    by (auto simp: check_signature_def or_get_def compare_digest_def Let_def
        split: option.splits if_splits)
qed

section \<open>Properties of tokens\<close>

text \<open>A concrete host for the witnesses: instants printed in unary, an HMAC of fixed text.\<close>

definition sample_cap_env :: cap_env where
  "sample_cap_env = \<lparr>isofmt = (\<lambda>t. (if t < 0 then CHR ''-'' else CHR ''p'')
        # replicate (nat \<bar>t\<bar>) (CHR ''1'')),
     fromiso = (\<lambda>s. case s of c # r \<Rightarrow> Some (if c = CHR ''-'' then - int (length r) else int (length r))
        | [] \<Rightarrow> None),
     mac = (\<lambda>k p. k @ ''-mac'')\<rparr>"

definition sample_scope :: token_scope where
  "sample_scope = \<lparr>sc_run_id = ''r1'', sc_lease_id = ''l1'', sc_host_id = ''h1'', sc_vm_id = ''vm1'',
     sc_repository = ''repo'', sc_branch = ''agent/x'', sc_base_sha = replicate 40 (CHR ''a''),
     sc_capabilities = [''read'', ''write''], sc_allowed_paths = [], sc_allowed_commands = []\<rparr>"

lemma py_replace_first_absent: "hd old \<notin> set s \<Longrightarrow> old \<noteq> [] \<Longrightarrow> py_replace old new s = s"
proof (induction s)
  case Nil
  then show ?case by (simp add: py_replace.simps [of _ _ "[]"])
next
  case (Cons x s)
  then have "\<not> prefix old (x # s)" by (auto simp: prefix_Cons)
  with Cons show ?case by (simp add: py_replace.simps [of old new "x # s"])
qed

lemma sample_time_roundtrip: "time_roundtrip sample_cap_env"
proof -
  have a: "hd ''+00:00'' \<notin> set (isofmt sample_cap_env t)"
    "CHR ''Z'' \<notin> set (isofmt sample_cap_env t)" for t
    by (auto simp: sample_cap_env_def)
  have "time_str sample_cap_env t = isofmt sample_cap_env t" for t
    unfolding time_str_def using a(1) [of t] by (intro py_replace_first_absent) auto
  then show ?thesis
    using a(2) by (auto simp: time_roundtrip_def parse_time_def py_replace_absent)
      (auto simp: sample_cap_env_def)
qed

text \<open>
  C34: a token issued by the host verifies with the same key or signer at every instant of its
  lifetime, and reads back as exactly the token issued; before and after that it is refused.
\<close>

theorem issued_token_verifies:
  assumes "token_issue env signing_key signer sc lifetime issued fresh_id fresh_nonce = Inr t"
    and "time_roundtrip env"
    and "\<And>sg. signer = Some sg \<Longrightarrow> signer_ok sg"
    and "\<And>k p. signing_key = Some k \<Longrightarrow> ascii (mac env k p)"
  shows "token_verify env signing_key signer now (token_to_dict t) =
     (if now < issued then Inl (CapabilityError ''capability token is not yet valid'')
      else if issued + lifetime \<le> now then Inl (CapabilityError ''capability token expired'')
      else Inr t)"
proof -
  note s = issue_signed [OF assms(1) assms(3) assms(4)]
  have "parse_time env (issued_at t) = Inr issued"
    "parse_time env (expires_at t) = Inr (issued + lifetime)"
    using assms(2) s(5,6) by (simp_all add: time_roundtrip_def)
  with verify_own [OF s(1,2,3,4)] show ?thesis by simp
qed

theorem issued_token_verifies_witness:
  "\<exists>t. token_issue sample_cap_env (Some ''key'') None sample_scope 100 50 ''id'' ''nc'' = Inr t
     \<and> token_verify sample_cap_env (Some ''key'') None 120 (token_to_dict t) = Inr t
     \<and> token_verify sample_cap_env (Some ''key'') None 150 (token_to_dict t)
         = Inl (CapabilityError ''capability token expired'')"
proof -
  have "isl (token_issue sample_cap_env (Some ''key'') None sample_scope 100 50 ''id'' ''nc'') = False"
    by code_simp
  then obtain t where
    t: "token_issue sample_cap_env (Some ''key'') None sample_scope 100 50 ''id'' ''nc'' = Inr t"
    by (metis sum.collapse(2))
  have m: "ascii (mac sample_cap_env k p)" if "Some ''key'' = Some k" for k p
    using that by (auto simp: sample_cap_env_def ascii_def)
  show ?thesis
    using t issued_token_verifies [OF t sample_time_roundtrip _ m, of 120]
      issued_token_verifies [OF t sample_time_roundtrip _ m, of 150] by simp
qed

text \<open>
  a mapping is accepted as a token only with a signature that the host's key or signer
  confirms for exactly the fields presented, at an instant inside the validity stated by the
  token; every field of the token is the one presented, so a capability that the host did not
  sign is never read out of a token.
\<close>

theorem token_verify_sound:
  assumes "token_verify env signing_key signer now v = Inr t"
  defines "p \<equiv> filter (\<lambda>(k, x). k \<noteq> ''signature'') v"
  shows "(case signer of
        Some sg \<Rightarrow> sg_verify sg p (signature t)
      | None \<Rightarrow> (case signing_key of None \<Rightarrow> False | Some key \<Rightarrow> signature t = mac env key p))
    \<and> (\<exists>i x. parse_time env (issued_at t) = Inr i \<and> parse_time env (expires_at t) = Inr x
        \<and> i \<le> now \<and> now < x)
    \<and> string_list p ''capabilities'' = Inr (capabilities t)
    \<and> string_list p ''allowed_paths'' = Inr (allowed_paths t)
    \<and> string_list p ''allowed_commands'' = Inr (allowed_commands t)
    \<and> py_str (dict_get p ''run_id'') = run_id t \<and> py_str (dict_get p ''vm_id'') = vm_id t"
  using verify_Inr [OF assms(1)] token_from_payload_Inr(6-10) [OF verify_Inr(4) [OF assms(1)]]
  unfolding p_def by (auto split: option.splits)

theorem token_verify_sound_witness:
  "\<exists>t. token_verify sample_cap_env (Some ''key'') None 120
         [(''schema'', PStr ''contained_capability.v1''), (''token_id'', PStr ''t''),
          (''run_id'', PStr ''r''), (''lease_id'', PStr ''l''), (''host_id'', PStr ''h''),
          (''vm_id'', PStr ''v''), (''repository'', PStr ''x''), (''branch'', PStr ''agent/b''),
          (''base_sha'', PStr ''0''), (''capabilities'', PList [PStr ''read'']),
          (''allowed_paths'', PList []), (''allowed_commands'', PList []),
          (''issued_at'', PStr ''p1''), (''expires_at'', PStr (CHR ''p'' # replicate 200 (CHR ''1''))),
          (''nonce'', PStr ''n''), (''signature'', PStr ''key-mac'')] = Inr t
     \<and> signature t = ''key-mac''"
proof -
  let ?v = "[(''schema'', PStr ''contained_capability.v1''), (''token_id'', PStr ''t''),
          (''run_id'', PStr ''r''), (''lease_id'', PStr ''l''), (''host_id'', PStr ''h''),
          (''vm_id'', PStr ''v''), (''repository'', PStr ''x''), (''branch'', PStr ''agent/b''),
          (''base_sha'', PStr ''0''), (''capabilities'', PList [PStr ''read'']),
          (''allowed_paths'', PList []), (''allowed_commands'', PList []),
          (''issued_at'', PStr ''p1''), (''expires_at'', PStr (CHR ''p'' # replicate 200 (CHR ''1''))),
          (''nonce'', PStr ''n''), (''signature'', PStr ''key-mac'')]"
  have "isl (token_verify sample_cap_env (Some ''key'') None 120 ?v) = False" by code_simp
  then obtain t where t: "token_verify sample_cap_env (Some ''key'') None 120 ?v = Inr t"
    by (metis sum.collapse(2))
  with token_verify_sound [OF t] show ?thesis by (simp add: sample_cap_env_def)
qed

end
