(* ===== verification/Worker.thy ===== *)
theory Worker
  imports Capability
begin

text \<open>
  The supervisor of one worker (\<open>WorkerSupervisor\<close> in \<open>src/testudo/runtime/capability.py\<close>)
  and the lifecycle that binds it to a VM handle (\<open>src/testudo/runtime/worker.py\<close>).

  The supervisor is generic in its four callbacks, which act on the same state; the lifecycle
  passes its own methods, so a trip runs through them. Calls that leave the program (the VM
  handle, the host's revoke and wipe callbacks, the event sink) are recorded in \<open>sv_log\<close> in
  order; \<open>cb_raises env n\<close> is what the \<open>n\<close>-th such call raises. \<open>now_of\<close>, \<open>mono_of\<close> and
  \<open>poll_of\<close> are the successive readings of the wall clock, of \<open>time.monotonic\<close> and of
  \<open>process.poll\<close>.
\<close>

record supervisor_event =
  ev_event :: string
  ev_reason :: string
  ev_token_id :: string
  ev_at :: string

datatype worker_effect =
    EvSink supervisor_event
  | EvRevoke string
  | EvTerminate
  | EvCleanup
  | EvWipe

record worker_env =
  cap_of :: cap_env
  now_of :: "nat \<Rightarrow> int"
  mono_of :: "nat \<Rightarrow> rat"
  poll_of :: "nat \<Rightarrow> int option"
  cb_raises :: "nat \<Rightarrow> exn option"

section \<open>The supervisor\<close>

record sup_state =
  sv_token :: capability_token
  sv_key :: "string option"
  sv_signer :: "token_signer option"
  sv_tripped :: bool
  sv_ticks :: nat
  sv_log :: "worker_effect list"

record 's sup_callbacks =
  cb_kill :: "('s, unit) act"
  cb_wipe :: "('s, unit) act"
  cb_revoke :: "string \<Rightarrow> ('s, unit) act"
  cb_sink :: "supervisor_event \<Rightarrow> ('s, unit) act"

definition sup_init ::
  "capability_token \<Rightarrow> string option \<Rightarrow> token_signer option \<Rightarrow> exn + sup_state" where
  "sup_init token signing_key signer =
     (if (signing_key = None) = (signer = None) then
        Inl (CapabilityError ''exactly one host verifier is required'')
      else Inr \<lparr>sv_token = token, sv_key = signing_key, sv_signer = signer, sv_tripped = False,
                sv_ticks = 0, sv_log = []\<rparr>)"

definition read_now :: "worker_env \<Rightarrow> ('x sup_state_scheme, int) act" where
  "read_now env s = (Inr (now_of env (sv_ticks s)), s\<lparr>sv_ticks := Suc (sv_ticks s)\<rparr>)"

definition trip ::
  "worker_env \<Rightarrow> 'x sup_state_scheme sup_callbacks \<Rightarrow> string
     \<Rightarrow> ('x sup_state_scheme, supervisor_event) act" where
  "trip env cb reason =
     abind (read_now env) (\<lambda>now. awith (\<lambda>s.
       let event = \<lparr>ev_event = ''worker_trip'', ev_reason = reason,
                    ev_token_id = token_id (sv_token s), ev_at = time_str (cap_of env) now\<rparr>
       in if sv_tripped s then aret event
          else abind (aset (\<lambda>s. s\<lparr>sv_tripped := True\<rparr>)) (\<lambda>_.
               abind (cb_sink cb event) (\<lambda>_.
               abind (cb_revoke cb (token_id (sv_token s))) (\<lambda>_.
               abind (cb_kill cb) (\<lambda>_.
               abind (cb_wipe cb) (\<lambda>_. aret event)))))))"

fun is_CapabilityError :: "exn \<Rightarrow> bool" where
  "is_CapabilityError (CapabilityError _) = True"
| "is_CapabilityError _ = False"

fun is_WorkerTerminated :: "exn \<Rightarrow> bool" where
  "is_WorkerTerminated (WorkerTerminated _) = True"
| "is_WorkerTerminated _ = False"

definition check_expiry ::
  "worker_env \<Rightarrow> 'x sup_state_scheme sup_callbacks \<Rightarrow> ('x sup_state_scheme, unit) act" where
  "check_expiry env cb =
     acatch is_CapabilityError
       (abind (read_now env) (\<lambda>now. awith (\<lambda>s.
          alift (rbind (token_verify (cap_of env) (sv_key s) (sv_signer s) now
                          (token_to_dict (sv_token s))) (\<lambda>_. Inr ())))))
       (\<lambda>exc. abind (trip env cb (''token_invalid_or_expired:'' @ exn_msg exc)) (\<lambda>_.
          araise (WorkerTerminated (exn_msg exc))))"

definition checkpoint_due ::
  "worker_env \<Rightarrow> 'x sup_state_scheme sup_callbacks \<Rightarrow> int \<Rightarrow> ('x sup_state_scheme, bool) act" where
  "checkpoint_due env cb margin =
     abind (check_expiry env cb) (\<lambda>_. awith (\<lambda>s.
     abind (alift (parse_time (cap_of env) (expires_at (sv_token s)))) (\<lambda>expires.
     abind (read_now env) (\<lambda>now. aret (expires - now \<le> margin)))))"

definition sup_request ::
  "worker_env \<Rightarrow> 'x sup_state_scheme sup_callbacks \<Rightarrow> string \<Rightarrow> string \<Rightarrow> bool
     \<Rightarrow> ('x sup_state_scheme, unit) act" where
  "sup_request env cb capability target destructive =
     abind (check_expiry env cb) (\<lambda>_. awith (\<lambda>s.
       if target \<noteq> ''microvm'' then
         abind (trip env cb ''host_boundary_operation_attempt'') (\<lambda>_.
           araise (WorkerTerminated ''host-boundary operation attempted''))
       else if capability \<notin> set (capabilities (sv_token s)) then
         (if destructive then
            abind (trip env cb ''unauthorized_destructive_operation'') (\<lambda>_.
              araise (WorkerTerminated ''unauthorized destructive operation''))
          else araise (CapabilityError (''capability not granted: '' @ capability)))
       else aret ()))"

section \<open>The lifecycle\<close>

record lifecycle = sup_state +
  lc_closed :: bool
  lc_revoked :: bool
  lc_wiped :: bool
  lc_polls :: nat
  lc_monos :: nat

definition lifecycle_init ::
  "capability_token \<Rightarrow> string option \<Rightarrow> token_signer option \<Rightarrow> exn + lifecycle" where
  "lifecycle_init token signing_key signer =
     rbind (sup_init token signing_key signer) (\<lambda>s.
       Inr (sup_state.extend s \<lparr>lc_closed = False, lc_revoked = False, lc_wiped = False,
              lc_polls = 0, lc_monos = 0\<rparr>))"

text \<open>A call that leaves the program: recorded, then it may raise.\<close>

definition call_out :: "worker_env \<Rightarrow> worker_effect \<Rightarrow> (lifecycle, unit) act" where
  "call_out env eff s =
     ((case cb_raises env (length (sv_log s)) of None \<Rightarrow> Inr () | Some exc \<Rightarrow> Inl exc),
      s\<lparr>sv_log := sv_log s @ [eff]\<rparr>)"

definition kill_vm :: "worker_env \<Rightarrow> (lifecycle, unit) act" where
  "kill_vm env = afinally (call_out env EvTerminate) (call_out env EvCleanup)"

definition wipe_vm :: "worker_env \<Rightarrow> (lifecycle, unit) act" where
  "wipe_vm env = awith (\<lambda>s. if lc_wiped s then aret ()
     else abind (aset (\<lambda>s. s\<lparr>lc_wiped := True\<rparr>)) (\<lambda>_.
       afinally (call_out env EvWipe) (call_out env EvCleanup)))"

definition revoke_once :: "worker_env \<Rightarrow> string \<Rightarrow> (lifecycle, unit) act" where
  "revoke_once env tid = awith (\<lambda>s. if lc_revoked s then aret ()
     else abind (aset (\<lambda>s. s\<lparr>lc_revoked := True\<rparr>)) (\<lambda>_. call_out env (EvRevoke tid)))"

definition lifecycle_callbacks :: "worker_env \<Rightarrow> lifecycle sup_callbacks" where
  "lifecycle_callbacks env = \<lparr>cb_kill = kill_vm env, cb_wipe = wipe_vm env,
     cb_revoke = revoke_once env, cb_sink = (\<lambda>ev. call_out env (EvSink ev))\<rparr>"

abbreviation close_lifecycle :: "(lifecycle, unit) act" where
  "close_lifecycle \<equiv> aset (\<lambda>s. s\<lparr>lc_closed := True\<rparr>)"

definition lc_check :: "worker_env \<Rightarrow> (lifecycle, unit) act" where
  "lc_check env = acatch is_WorkerTerminated (check_expiry env (lifecycle_callbacks env))
     (\<lambda>exc. abind close_lifecycle (\<lambda>_. araise exc))"

definition lc_stop :: "worker_env \<Rightarrow> string \<Rightarrow> (lifecycle, supervisor_event) act" where
  "lc_stop env reason = abind (trip env (lifecycle_callbacks env) reason) (\<lambda>event.
     abind close_lifecycle (\<lambda>_. aret event))"

definition lc_finish :: "worker_env \<Rightarrow> int \<Rightarrow> (lifecycle, unit) act" where
  "lc_finish env status = awith (\<lambda>s. if lc_closed s then aret ()
     else afinally (call_out env EvCleanup)
       (abind (revoke_once env (token_id (sv_token s))) (\<lambda>_.
        abind (wipe_vm env) (\<lambda>_.
        abind (read_now env) (\<lambda>now.
        abind (call_out env (EvSink \<lparr>ev_event = ''worker_exit'',
                 ev_reason = ''exit_status:'' @ int_str status,
                 ev_token_id = token_id (sv_token s), ev_at = time_str (cap_of env) now\<rparr>)) (\<lambda>_.
        close_lifecycle))))))"

definition read_poll :: "worker_env \<Rightarrow> (lifecycle, int option) act" where
  "read_poll env s = (Inr (poll_of env (lc_polls s)), s\<lparr>lc_polls := Suc (lc_polls s)\<rparr>)"

definition read_mono :: "worker_env \<Rightarrow> (lifecycle, rat) act" where
  "read_mono env s = (Inr (mono_of env (lc_monos s)), s\<lparr>lc_monos := Suc (lc_monos s)\<rparr>)"

definition past_deadline :: "worker_env \<Rightarrow> rat option \<Rightarrow> (lifecycle, bool) act" where
  "past_deadline env deadline = (case deadline of None \<Rightarrow> aret False
     | Some d \<Rightarrow> abind (read_mono env) (\<lambda>now. aret (now \<ge> d)))"

text \<open>
  The loop of \<open>wait\<close>. It runs as long as the worker does, so it takes fuel; \<open>None\<close> is a loop
  that has not ended within it.
\<close>

fun wait_loop :: "worker_env \<Rightarrow> rat option \<Rightarrow> nat \<Rightarrow> (lifecycle, int option) act" where
  "wait_loop env deadline 0 = aret None"
| "wait_loop env deadline (Suc fuel) =
     abind (acatch is_WorkerTerminated (lc_check env)
              (\<lambda>exc. abind close_lifecycle (\<lambda>_. araise exc))) (\<lambda>_.
     abind (read_poll env) (\<lambda>status.
     case status of
       Some st \<Rightarrow> abind (lc_finish env st) (\<lambda>_. aret (Some st))
     | None \<Rightarrow> abind (past_deadline env deadline) (\<lambda>expired.
         if expired then
           abind (trip env (lifecycle_callbacks env) ''worker_timeout'') (\<lambda>_.
           abind close_lifecycle (\<lambda>_. araise (WorkerTerminated ''worker timeout'')))
         else wait_loop env deadline fuel)))"

definition lc_wait ::
  "worker_env \<Rightarrow> nat \<Rightarrow> rat option \<Rightarrow> rat \<Rightarrow> (lifecycle, int option) act" where
  "lc_wait env fuel timeout poll_interval =
     (if poll_interval \<le> 0 then araise (ValueError ''poll_interval must be positive'')
      else awith (\<lambda>s. if lc_closed s then araise (WorkerTerminated ''worker lifecycle is closed'')
        else case timeout of
          None \<Rightarrow> wait_loop env None fuel
        | Some t \<Rightarrow> abind (read_mono env) (\<lambda>now. wait_loop env (Some (now + t)) fuel)))"

text \<open>What a host may do with a lifecycle, in any order.\<close>

datatype worker_op =
    WCheck
  | WStop string
  | WWait nat "rat option" rat
  | WRequest string string bool
  | WCheckpoint int

datatype worker_answer =
    WDone
  | WEvent supervisor_event
  | WStatus "int option"
  | WDue bool
  | WRaised exn

definition w_answer :: "('a \<Rightarrow> worker_answer) \<Rightarrow> (exn + 'a) \<times> lifecycle \<Rightarrow> worker_answer \<times> lifecycle"
  where "w_answer f r = ((case fst r of Inl exc \<Rightarrow> WRaised exc | Inr x \<Rightarrow> f x), snd r)"

lemma w_answer_snd [simp]: "snd (w_answer f r) = snd r"
  by (simp add: w_answer_def)

fun worker_step :: "worker_env \<Rightarrow> worker_op \<Rightarrow> lifecycle \<Rightarrow> worker_answer \<times> lifecycle" where
  "worker_step env WCheck s = w_answer (\<lambda>_. WDone) (lc_check env s)"
| "worker_step env (WStop reason) s = w_answer WEvent (lc_stop env reason s)"
| "worker_step env (WWait fuel timeout interval) s = w_answer WStatus (lc_wait env fuel timeout interval s)"
| "worker_step env (WRequest c target d) s =
     w_answer (\<lambda>_. WDone) (sup_request env (lifecycle_callbacks env) c target d s)"
| "worker_step env (WCheckpoint margin) s =
     w_answer WDue (checkpoint_due env (lifecycle_callbacks env) margin s)"

abbreviation worker_session where
  "worker_session env \<equiv> run_ops (worker_step env)"

section \<open>Revocation and wiping happen at most once\<close>

fun is_revoke :: "worker_effect \<Rightarrow> bool" where
  "is_revoke (EvRevoke _) = True"
| "is_revoke _ = False"

definition once :: "lifecycle \<Rightarrow> bool" where
  "once s \<longleftrightarrow>
     length (filter is_revoke (sv_log s)) \<le> (if lc_revoked s then 1 else 0)
     \<and> length (filter (\<lambda>e. e = EvWipe) (sv_log s)) \<le> (if lc_wiped s then 1 else 0)
     \<and> (lc_revoked s \<longrightarrow> EvRevoke (token_id (sv_token s)) \<in> set (sv_log s))
     \<and> (lc_wiped s \<longrightarrow> EvWipe \<in> set (sv_log s) \<and> EvCleanup \<in> set (sv_log s))"

text \<open>A step keeps the token and the invariant.\<close>

definition once_ext :: "lifecycle \<Rightarrow> lifecycle \<Rightarrow> bool" where
  "once_ext s s' \<longleftrightarrow> sv_token s' = sv_token s \<and> (once s \<longrightarrow> once s')"

lemma once_ext_refl: "reflp once_ext" and once_ext_trans: "transp once_ext"
  by (auto simp: once_ext_def reflp_def transp_def)

lemmas once_keeps = keeps_rules [where R = once_ext] once_ext_refl once_ext_trans

lemma once_call_out:
  "\<not> is_revoke eff \<Longrightarrow> eff \<noteq> EvWipe \<Longrightarrow> keeps once_ext (call_out env eff)"
  by (auto simp: keeps_def call_out_def once_ext_def once_def)

lemma once_reads:
  "keeps once_ext (read_now env)" "keeps once_ext (read_poll env)" "keeps once_ext (read_mono env)"
  by (auto simp: keeps_def read_now_def read_poll_def read_mono_def once_ext_def once_def)

lemma once_sets:
  "keeps once_ext (aset (\<lambda>s. s\<lparr>lc_closed := True\<rparr>))"
  "keeps once_ext (aset (\<lambda>s. s\<lparr>sv_tripped := True\<rparr>))"
  by (auto simp: keeps_def once_ext_def once_def)

lemma once_revoke: "once_ext s (snd (revoke_once env (token_id (sv_token s)) s))"
  by (auto simp: revoke_once_def abind_def call_out_def once_ext_def once_def)

lemma once_wipe: "keeps once_ext (wipe_vm env)"
  by (auto simp: keeps_def wipe_vm_def abind_def afinally_def call_out_def once_ext_def once_def
      split: sum.splits option.splits)

lemma once_kill: "keeps once_ext (kill_vm env)"
  unfolding kill_vm_def by (intro once_keeps once_call_out) simp_all

text \<open>The callbacks are called with the token identifier the supervisor holds.\<close>

lemma once_then_revoke:
  assumes "keeps once_ext m" and "\<And>x. keeps once_ext (f x)"
  shows "once_ext s (snd (abind m (\<lambda>_. abind (revoke_once env (token_id (sv_token s))) f) s))"
proof -
  obtain r s1 where m: "m s = (r, s1)" by (cases "m s")
  have 1: "once_ext s s1" using keepsD [OF assms(1) m] .
  show ?thesis
  proof (cases r)
    case (Inl e)
    with m 1 show ?thesis by simp
  next
    case (Inr x)
    have t: "sv_token s1 = sv_token s" using 1 by (simp add: once_ext_def)
    obtain r2 s2 where r: "revoke_once env (token_id (sv_token s)) s1 = (r2, s2)"
      by (cases "revoke_once env (token_id (sv_token s)) s1")
    have 2: "once_ext s1 s2" using once_revoke [of s1 env] r t by simp
    have 3: "once_ext s2 (snd (f y s2))" for y using assms(2) by (simp add: keeps_def)
    from 1 2 3 Inr m r show ?thesis
      by (cases r2) (auto dest: transpD [OF once_ext_trans])
  qed
qed

lemma once_trip: "keeps once_ext (trip env (lifecycle_callbacks env) reason)"
  unfolding keeps_def
proof
  fix s :: lifecycle
  let ?s1 = "s\<lparr>sv_ticks := Suc (sv_ticks s)\<rparr>"
  let ?ev = "\<lparr>ev_event = ''worker_trip'', ev_reason = reason, ev_token_id = token_id (sv_token s),
     ev_at = time_str (cap_of env) (now_of env (sv_ticks s))\<rparr>"
  have 0: "once_ext s ?s1" by (simp add: once_ext_def once_def)
  show "once_ext s (snd (trip env (lifecycle_callbacks env) reason s))"
  proof (cases "sv_tripped s")
    case True
    with 0 show ?thesis by (simp add: trip_def abind_def read_now_def Let_def)
  next
    case False
    let ?s2 = "?s1\<lparr>sv_tripped := True\<rparr>"
    have eq: "trip env (lifecycle_callbacks env) reason s =
       abind (call_out env (EvSink ?ev)) (\<lambda>_. abind (revoke_once env (token_id (sv_token ?s2))) (\<lambda>_.
         abind (kill_vm env) (\<lambda>_. abind (wipe_vm env) (\<lambda>_. aret ?ev)))) ?s2"
      using False by (simp add: trip_def abind_def read_now_def Let_def lifecycle_callbacks_def)
    have "once_ext ?s2 (snd (trip env (lifecycle_callbacks env) reason s))"
      unfolding eq
      by (rule once_then_revoke) (intro once_keeps once_call_out once_kill once_wipe; simp)+
    moreover have "once_ext s ?s2" by (simp add: once_ext_def once_def)
    ultimately show ?thesis by (rule transpD [OF once_ext_trans, rotated])
  qed
qed

lemma once_check_expiry: "keeps once_ext (check_expiry env (lifecycle_callbacks env))"
  unfolding check_expiry_def by (intro once_keeps once_reads once_trip)

lemma once_finish: "keeps once_ext (lc_finish env st)"
  unfolding keeps_def
proof
  fix s
  obtain r s1 where c: "call_out env EvCleanup s = (r, s1)" by (cases "call_out env EvCleanup s")
  have 1: "once_ext s s1" using keepsD [OF once_call_out c] by simp
  then have t: "sv_token s1 = sv_token s" by (simp add: once_ext_def)
  let ?rest = "\<lambda>_. abind (wipe_vm env) (\<lambda>_.
        abind (read_now env) (\<lambda>now.
        abind (call_out env (EvSink \<lparr>ev_event = ''worker_exit'',
                 ev_reason = ''exit_status:'' @ int_str st,
                 ev_token_id = token_id (sv_token s), ev_at = time_str (cap_of env) now\<rparr>)) (\<lambda>_.
        close_lifecycle)))"
  have k: "keeps once_ext (?rest x)" for x
    by (intro once_keeps once_wipe once_reads once_call_out once_sets; simp add: once_ext_def once_def)
  have "once_ext s1 (snd (abind (aret ()) (\<lambda>_. abind (revoke_once env (token_id (sv_token s1))) ?rest) s1))"
    by (rule once_then_revoke [OF _ k]) (intro once_keeps)
  then have 2: "once_ext s1 (snd (abind (revoke_once env (token_id (sv_token s))) ?rest s1))"
    using t by (simp add: abind_def)
  from once_ext_trans 1 2
  have 3: "once_ext s (snd (abind (revoke_once env (token_id (sv_token s))) ?rest s1))"
    by (rule transpD)
  show "once_ext s (snd (lc_finish env st s))"
    using 3 c
    by (auto simp: lc_finish_def afinally_def reflpD [OF once_ext_refl] split: sum.splits prod.splits)
qed

lemma once_check: "keeps once_ext (lc_check env)"
  unfolding lc_check_def by (intro once_keeps once_check_expiry once_sets; simp add: once_ext_def once_def)

lemma once_deadline: "keeps once_ext (past_deadline env d)"
  unfolding past_deadline_def by (intro once_keeps once_reads)

lemma once_wait_loop: "keeps once_ext (wait_loop env d fuel)"
proof (induction fuel)
  case 0
  show ?case unfolding wait_loop.simps by (intro once_keeps)
next
  case (Suc fuel)
  show ?case
    unfolding wait_loop.simps
    by (intro once_keeps once_check once_reads once_finish once_deadline once_trip Suc;
        simp add: once_ext_def once_def)
qed

lemma once_ops:
  "keeps once_ext (lc_stop env reason)"
  "keeps once_ext (lc_wait env fuel t i)"
  "keeps once_ext (sup_request env (lifecycle_callbacks env) c tg d)"
  "keeps once_ext (checkpoint_due env (lifecycle_callbacks env) margin)"
  unfolding lc_stop_def lc_wait_def sup_request_def checkpoint_due_def
  by (intro once_keeps once_trip once_check_expiry once_reads once_wait_loop;
      simp add: once_ext_def once_def)+

lemma worker_step_once: "once_ext s (snd (worker_step env a s))"
  using once_check once_ops by (cases a) (auto simp: keeps_def)

interpretation worker_once: guarded_machine "worker_step env" once for env
  using worker_step_once by unfold_locales (simp add: once_ext_def)

section \<open>Every terminal path revokes, cleans up and wipes\<close>

text \<open>When no callback raises, a tripped or closed worker is revoked and wiped.\<close>

definition quiet :: "worker_env \<Rightarrow> bool" where
  "quiet env \<longleftrightarrow> (\<forall>n. cb_raises env n = None)"

definition secured :: "lifecycle \<Rightarrow> bool" where
  "secured s \<longleftrightarrow> lc_revoked s \<and> lc_wiped s"

definition fail_closed :: "lifecycle \<Rightarrow> bool" where
  "fail_closed s \<longleftrightarrow> (sv_tripped s \<or> lc_closed s \<longrightarrow> secured s)"

lemma quiet_call: "quiet env \<Longrightarrow> call_out env eff s = (Inr (), s\<lparr>sv_log := sv_log s @ [eff]\<rparr>)"
  by (simp add: call_out_def quiet_def)

lemma quiet_wipe:
  "quiet env \<Longrightarrow> \<exists>s'. wipe_vm env s = (Inr (), s') \<and> lc_wiped s' \<and> lc_revoked s' = lc_revoked s
     \<and> sv_tripped s' = sv_tripped s \<and> lc_closed s' = lc_closed s"
  by (auto simp: wipe_vm_def abind_def afinally_def quiet_call)

lemma quiet_revoke:
  "quiet env \<Longrightarrow> \<exists>s'. revoke_once env tid s = (Inr (), s') \<and> lc_revoked s' \<and> lc_wiped s' = lc_wiped s
     \<and> sv_tripped s' = sv_tripped s \<and> lc_closed s' = lc_closed s"
  by (auto simp: revoke_once_def abind_def quiet_call)

lemma quiet_kill:
  "quiet env \<Longrightarrow> kill_vm env s = (Inr (), s\<lparr>sv_log := sv_log s @ [EvTerminate, EvCleanup]\<rparr>)"
  by (simp add: kill_vm_def afinally_def quiet_call)

lemma quiet_trip:
  assumes "quiet env" and "fail_closed s"
  shows "\<exists>ev s'. trip env (lifecycle_callbacks env) reason s = (Inr ev, s') \<and> sv_tripped s'
    \<and> secured s' \<and> lc_closed s' = lc_closed s"
proof (cases "sv_tripped s")
  case True
  with assms(2) show ?thesis
    by (simp add: trip_def abind_def read_now_def Let_def fail_closed_def secured_def)
next
  case False
  let ?ev = "\<lparr>ev_event = ''worker_trip'', ev_reason = reason, ev_token_id = token_id (sv_token s),
     ev_at = time_str (cap_of env) (now_of env (sv_ticks s))\<rparr>"
  let ?s1 = "s\<lparr>sv_ticks := Suc (sv_ticks s), sv_tripped := True, sv_log := sv_log s @ [EvSink ?ev]\<rparr>"
  obtain s2 where s2: "revoke_once env (token_id (sv_token s)) ?s1 = (Inr (), s2)" "lc_revoked s2"
    "sv_tripped s2" "lc_closed s2 = lc_closed s"
    using quiet_revoke [OF assms(1), of "token_id (sv_token s)" ?s1] by auto
  let ?s3 = "s2\<lparr>sv_log := sv_log s2 @ [EvTerminate, EvCleanup]\<rparr>"
  obtain s4 where s4: "wipe_vm env ?s3 = (Inr (), s4)" "lc_wiped s4" "lc_revoked s4" "sv_tripped s4"
    "lc_closed s4 = lc_closed s"
    using quiet_wipe [OF assms(1), of ?s3] s2 by auto
  have "trip env (lifecycle_callbacks env) reason s = (Inr ?ev, s4)"
    using False s2(1) s4(1)
    by (simp add: trip_def abind_def read_now_def Let_def lifecycle_callbacks_def
        quiet_call [OF assms(1)] quiet_kill [OF assms(1)])
  with s4 show ?thesis by (auto simp: secured_def)
qed

text \<open>Verification raises \<open>CapabilityError\<close>, or \<open>TypeError\<close> from the digest comparison.\<close>

fun verify_exn :: "exn \<Rightarrow> bool" where
  "verify_exn (CapabilityError _) = True"
| "verify_exn (TypeError _) = True"
| "verify_exn _ = False"

lemma parse_time_Inl: "parse_time env v = Inl e \<Longrightarrow> verify_exn e"
  by (auto simp: parse_time_def split: option.splits)

lemma string_list_Inl: "string_list p name = Inl e \<Longrightarrow> verify_exn e"
  by (auto simp: string_list_def split: pyval.splits if_splits)

lemma token_from_payload_Inl: "token_from_payload env p sig a k = Inl e \<Longrightarrow> verify_exn e"
  unfolding token_from_payload_def Let_def
  by (simp only: rbind_eq_Inl split: if_splits) (auto dest: parse_time_Inl string_list_Inl)

lemma check_signature_Inl: "check_signature env k sg p s = Inl e \<Longrightarrow> verify_exn e"
  by (auto simp: check_signature_def compare_digest_def Let_def split: option.splits if_splits)

lemma token_verify_Inl:
  assumes "token_verify env k sg now v = Inl e"
  shows "verify_exn e"
proof (cases "(k = None) = (sg = None) \<or> (\<nexists>s. dict_get v ''signature'' = PStr s)")
  case True
  with assms show ?thesis
    by (auto simp: token_verify_def Let_def split: pyval.splits if_splits)
next
  case False
  then show ?thesis
    using assms unfolding token_verify_def Let_def
    by (auto simp: rbind_eq_Inl split: if_splits
        dest: parse_time_Inl token_from_payload_Inl check_signature_Inl)
qed

lemma verify_exn_not_terminated: "verify_exn e \<Longrightarrow> \<not> is_WorkerTerminated e"
  by (cases e) auto

text \<open>
  A check that raises \<open>WorkerTerminated\<close> has tripped the worker first.
\<close>

lemma quiet_check_expiry:
  assumes "quiet env" and "fail_closed s"
    and "check_expiry env (lifecycle_callbacks env) s = (r, s')"
  shows "fail_closed s'" and "r = Inl exc \<Longrightarrow> is_WorkerTerminated exc \<Longrightarrow> secured s' \<and> sv_tripped s'"
    and "lc_closed s' = lc_closed s"
proof -
  let ?s1 = "s\<lparr>sv_ticks := Suc (sv_ticks s)\<rparr>"
  have fc: "fail_closed ?s1" using assms(2) by (simp add: fail_closed_def secured_def)
  let ?v = "token_verify (cap_of env) (sv_key s) (sv_signer s) (now_of env (sv_ticks s))
     (token_to_dict (sv_token s))"
  have "fail_closed s' \<and> (\<forall>exc. r = Inl exc \<longrightarrow> is_WorkerTerminated exc \<longrightarrow> secured s' \<and> sv_tripped s')
    \<and> lc_closed s' = lc_closed s"
  proof (cases ?v)
    case (Inr t)
    with assms(3) fc show ?thesis
      by (auto simp: check_expiry_def acatch_def abind_def read_now_def)
  next
    case (Inl e)
    note ve = verify_exn_not_terminated [OF token_verify_Inl [OF Inl]]
    show ?thesis
    proof (cases "is_CapabilityError e")
      case False
      with assms(3) fc Inl ve show ?thesis
        by (auto simp: check_expiry_def acatch_def abind_def read_now_def)
    next
      case True
      obtain ev s2 where "trip env (lifecycle_callbacks env)
          (''token_invalid_or_expired:'' @ exn_msg e) ?s1 = (Inr ev, s2)" "sv_tripped s2" "secured s2"
        "lc_closed s2 = lc_closed s"
        using quiet_trip [OF assms(1) fc, of "''token_invalid_or_expired:'' @ exn_msg e"] by auto
      with assms(3) Inl True show ?thesis
        by (auto simp: check_expiry_def acatch_def abind_def read_now_def fail_closed_def)
    qed
  qed
  then show "fail_closed s'" "r = Inl exc \<Longrightarrow> is_WorkerTerminated exc \<Longrightarrow> secured s' \<and> sv_tripped s'"
    "lc_closed s' = lc_closed s" by blast+
qed

text \<open>The operations one by one: each keeps the worker fail-closed when no callback raises.\<close>

abbreviation fc_ext :: "lifecycle \<Rightarrow> lifecycle \<Rightarrow> bool" where
  "fc_ext s s' \<equiv> fail_closed s \<longrightarrow> fail_closed s'"

lemma fc_rules: "reflp fc_ext" "transp fc_ext"
  by (auto simp: reflp_def transp_def)

lemmas fc_keeps = keeps_rules [where R = fc_ext] fc_rules

lemma fc_reads:
  "keeps fc_ext (read_now env)" "keeps fc_ext (read_poll env)" "keeps fc_ext (read_mono env)"
  by (auto simp: keeps_def read_now_def read_poll_def read_mono_def fail_closed_def secured_def)

lemma fc_trip: "quiet env \<Longrightarrow> keeps fc_ext (trip env (lifecycle_callbacks env) reason)"
  unfolding keeps_def
proof (intro allI impI)
  fix s assume "quiet env" "fail_closed s"
  then obtain ev s' where "trip env (lifecycle_callbacks env) reason s = (Inr ev, s')" "secured s'"
    using quiet_trip by blast
  then show "fail_closed (snd (trip env (lifecycle_callbacks env) reason s))"
    by (simp add: fail_closed_def)
qed

lemma fc_check_expiry: "quiet env \<Longrightarrow> keeps fc_ext (check_expiry env (lifecycle_callbacks env))"
  unfolding keeps_def using quiet_check_expiry(1) by (metis prod.collapse)

text \<open>A trip, or a check that terminated the worker, may close the lifecycle.\<close>

lemma fc_trip_close:
  assumes "quiet env" and that: "\<And>ev. keeps fc_ext (f ev)"
  shows "keeps fc_ext (abind (trip env (lifecycle_callbacks env) reason)
           (\<lambda>ev. abind close_lifecycle (\<lambda>_. f ev)))"
  unfolding keeps_def
proof (intro allI impI)
  fix s assume "fail_closed s"
  then obtain ev s' where t: "trip env (lifecycle_callbacks env) reason s = (Inr ev, s')" "secured s'"
    using quiet_trip [OF assms(1)] by blast
  have "fail_closed (s'\<lparr>lc_closed := True\<rparr>)" using t(2) by (simp add: fail_closed_def secured_def)
  then show "fail_closed (snd (abind (trip env (lifecycle_callbacks env) reason)
           (\<lambda>ev. abind close_lifecycle (\<lambda>_. f ev)) s))"
    using t that [of ev] by (simp add: abind_def keeps_def)
qed

lemma lc_check_quiet:
  assumes "quiet env" and "fail_closed s" and "lc_check env s = (r, s')"
  shows "fail_closed s'" and "r = Inl exc \<Longrightarrow> is_WorkerTerminated exc \<Longrightarrow> secured s' \<and> lc_closed s'"
proof -
  obtain r1 s1 where c: "check_expiry env (lifecycle_callbacks env) s = (r1, s1)"
    by (cases "check_expiry env (lifecycle_callbacks env) s")
  note q = quiet_check_expiry [OF assms(1,2) c]
  have "fail_closed s' \<and> (\<forall>exc. r = Inl exc \<longrightarrow> is_WorkerTerminated exc \<longrightarrow> secured s' \<and> lc_closed s')"
    using assms(3) c q(1) q(2)
    by (cases r1) (auto simp: lc_check_def acatch_def abind_def fail_closed_def secured_def split: if_splits)
  then show "fail_closed s'" "r = Inl exc \<Longrightarrow> is_WorkerTerminated exc \<Longrightarrow> secured s' \<and> lc_closed s'"
    by blast+
qed

lemma fc_check: "quiet env \<Longrightarrow> keeps fc_ext (lc_check env)"
  unfolding keeps_def using lc_check_quiet(1) by (metis prod.collapse)

lemma fc_check_close:
  assumes "quiet env"
  shows "keeps fc_ext (acatch is_WorkerTerminated (lc_check env)
     (\<lambda>exc. abind close_lifecycle (\<lambda>_. araise exc)))"
  unfolding keeps_def
proof (intro allI impI)
  fix s assume fc: "fail_closed s"
  obtain r s1 where c: "lc_check env s = (r, s1)" by (cases "lc_check env s")
  show "fail_closed (snd (acatch is_WorkerTerminated (lc_check env)
     (\<lambda>exc. abind close_lifecycle (\<lambda>_. araise exc)) s))"
    using c lc_check_quiet [OF assms fc c]
    by (cases r) (auto simp: acatch_def abind_def fail_closed_def secured_def split: if_splits)
qed

lemma fc_finish: "quiet env \<Longrightarrow> keeps fc_ext (lc_finish env st)"
  unfolding keeps_def
proof (intro allI impI)
  fix s assume q: "quiet env" and fc: "fail_closed s"
  let ?s1 = "s\<lparr>sv_log := sv_log s @ [EvCleanup]\<rparr>"
  obtain s2 where s2: "revoke_once env (token_id (sv_token s)) ?s1 = (Inr (), s2)" "lc_revoked s2"
    using quiet_revoke [OF q] by blast
  obtain s3 where s3: "wipe_vm env s2 = (Inr (), s3)" "lc_wiped s3" "lc_revoked s3"
    using quiet_wipe [OF q, of s2] s2 by auto
  show "fail_closed (snd (lc_finish env st s))"
    using fc s2(1) s3
    by (auto simp: lc_finish_def afinally_def abind_def quiet_call [OF q] read_now_def
        fail_closed_def secured_def)
qed

lemma fc_wait_loop: "quiet env \<Longrightarrow> keeps fc_ext (wait_loop env d fuel)"
proof (induction fuel)
  case 0
  show ?case unfolding wait_loop.simps by (intro fc_keeps)
next
  case (Suc fuel)
  show ?case
    unfolding wait_loop.simps past_deadline_def
    by (intro fc_keeps fc_check_close fc_reads fc_finish fc_trip_close Suc)
qed

lemma fc_ops:
  assumes "quiet env"
  shows "keeps fc_ext (lc_stop env reason)"
  and "keeps fc_ext (lc_wait env fuel t i)"
  and "keeps fc_ext (sup_request env (lifecycle_callbacks env) c tg dst)"
  and "keeps fc_ext (checkpoint_due env (lifecycle_callbacks env) margin)"
  unfolding lc_stop_def lc_wait_def sup_request_def checkpoint_due_def
  by (intro fc_keeps fc_trip_close fc_trip fc_check_expiry fc_reads fc_wait_loop assms)+

lemma worker_step_fail_closed:
  "quiet env \<Longrightarrow> fail_closed s \<Longrightarrow> fail_closed (snd (worker_step env a s))"
  using fc_check [of env] fc_ops [of env] by (cases a) (auto simp: keeps_def)

interpretation worker_closed: guarded_machine "worker_step env" "\<lambda>s. quiet env \<longrightarrow> fail_closed s" for env
  using worker_step_fail_closed by unfold_locales blast

section \<open>What a check establishes\<close>

lemma verify_before_expiry:
  assumes "token_verify env k sg now (token_to_dict t) = Inr t'"
  shows "\<exists>x. parse_time env (expires_at t) = Inr x \<and> now < x"
proof -
  note v = verify_Inr [OF assms]
  have "token_from_payload env (token_payload t) (signature t') None None = Inr t'"
    using v(4) by (simp add: token_dict_split)
  from token_from_payload_Inr(12) [OF this] have "expires_at t' = expires_at t"
    by (simp add: token_payload_get)
  with v(3) show ?thesis by auto
qed

lemma check_expiry_Inr:
  assumes "check_expiry env cb s = (Inr (), s')"
  shows "s' = s\<lparr>sv_ticks := Suc (sv_ticks s)\<rparr>"
    and "\<exists>t. token_verify (cap_of env) (sv_key s) (sv_signer s) (now_of env (sv_ticks s))
      (token_to_dict (sv_token s)) = Inr t"
  using assms
  by (auto simp: check_expiry_def acatch_def abind_def read_now_def rbind_def
      split: sum.splits prod.splits if_splits)

lemma lc_check_Inr:
  assumes "lc_check env s = (Inr (), s')"
  shows "check_expiry env (lifecycle_callbacks env) s = (Inr (), s')"
  using assms by (auto simp: lc_check_def acatch_def abind_def split: sum.splits prod.splits if_splits)

lemma check_close_Inr:
  assumes "acatch is_WorkerTerminated (lc_check env)
      (\<lambda>exc. abind close_lifecycle (\<lambda>_. araise exc)) s = (Inr (), s')"
  shows "lc_check env s = (Inr (), s')"
  using assms by (auto simp: acatch_def abind_def split: sum.splits prod.splits if_splits)

text \<open>
  The loop of \<open>wait\<close> ends: every round reads the clock in its check, and from the reading at
  which the token has expired on, the check does not return.
\<close>

lemma wait_loop_ends:
  assumes "\<And>x k. parse_time (cap_of env) (expires_at (sv_token s)) = Inr x \<Longrightarrow> n \<le> k \<Longrightarrow> x \<le> now_of env k"
    and "0 < fuel" and "n < sv_ticks s + fuel"
  shows "fst (wait_loop env d fuel s) \<noteq> Inr None"
  using assms
proof (induction fuel arbitrary: s)
  case (Suc fuel)
  let ?chk = "acatch is_WorkerTerminated (lc_check env) (\<lambda>exc. abind close_lifecycle (\<lambda>_. araise exc))"
  obtain r s1 where c: "?chk s = (r, s1)" by (cases "?chk s")
  show ?case
  proof (cases r)
    case (Inl exc)
    with c show ?thesis by (simp add: abind_def)
  next
    case (Inr u)
    have "?chk s = (Inr (), s1)" using c Inr by simp
    then have ce: "check_expiry env (lifecycle_callbacks env) s = (Inr (), s1)"
      by (intro lc_check_Inr check_close_Inr)
    note ok = check_expiry_Inr [OF ce]
    obtain x where x: "parse_time (cap_of env) (expires_at (sv_token s)) = Inr x"
      "now_of env (sv_ticks s) < x"
      using ok(2) verify_before_expiry by blast
    have lt: "sv_ticks s < n" using Suc.prems(1) [OF x(1), of "sv_ticks s"] x(2) by force
    have IH: "fst (wait_loop env d fuel s2) \<noteq> Inr None"
      if "sv_ticks s2 = sv_ticks s1" "sv_token s2 = sv_token s1" for s2
      using Suc.IH [of s2] Suc.prems lt that ok(1) by auto
    obtain s2 where p: "read_poll env s1 = (Inr (poll_of env (lc_polls s1)), s2)"
      "sv_ticks s2 = sv_ticks s1" "sv_token s2 = sv_token s1"
      by (simp add: read_poll_def)
    show ?thesis
    proof (cases "poll_of env (lc_polls s1)")
      case (Some st)
      with c Inr p show ?thesis
        by (cases "lc_finish env st s2") (auto simp: abind_def split: sum.splits)
    next
      case None
      obtain b s3 where b: "past_deadline env d s2 = (Inr b, s3)" "sv_ticks s3 = sv_ticks s1"
        "sv_token s3 = sv_token s1"
        using p by (cases d) (auto simp: past_deadline_def abind_def read_mono_def)
      have t: "fst (abind (trip env (lifecycle_callbacks env) ''worker_timeout'') (\<lambda>_.
           abind close_lifecycle (\<lambda>_. araise (WorkerTerminated ''worker timeout''))) s3) \<noteq> Inr (None :: int option)"
        by (auto simp: abind_def split: sum.splits prod.splits)
      show ?thesis using c Inr p None b t IH [of s3] by (simp add: abind_def)
    qed
  qed
qed simp

section \<open>Properties of the worker boundary\<close>

text \<open>A concrete worker for the witnesses: the token is valid from 0 to 100.\<close>

definition sample_token :: capability_token where
  "sample_token = \<lparr>token_id = ''t'', run_id = ''r'', lease_id = ''l'', host_id = ''h'', vm_id = ''v'',
     repository = ''x'', branch = ''agent/b'', base_sha = ''0'', capabilities = [''read''],
     allowed_paths = [], allowed_commands = [], issued_at = ''p'',
     expires_at = CHR ''p'' # replicate 100 (CHR ''1''), nonce = ''n'', signature = ''key-mac'',
     signature_algorithm = ''HS256'', key_id = ''prototype''\<rparr>"

definition sample_worker_env :: worker_env where
  "sample_worker_env = \<lparr>cap_of = sample_cap_env, now_of = (\<lambda>n. 40 * int n), mono_of = of_nat,
     poll_of = (\<lambda>_. None), cb_raises = (\<lambda>_. None)\<rparr>"

definition sample_worker :: lifecycle where
  "sample_worker = \<lparr>sv_token = sample_token, sv_key = Some ''key'', sv_signer = None,
     sv_tripped = False, sv_ticks = 0, sv_log = [], lc_closed = False, lc_revoked = False,
     lc_wiped = False, lc_polls = 0, lc_monos = 0\<rparr>"

lemma sample_worker_init: "lifecycle_init sample_token (Some ''key'') None = Inr sample_worker"
  by (simp add: lifecycle_init_def sup_init_def sample_worker_def sup_state.extend_def)

lemma lifecycle_init_Inr:
  "lifecycle_init token key sg = Inr s \<Longrightarrow>
     once s \<and> fail_closed s \<and> sv_token s = token \<and> sv_log s = [] \<and> \<not> lc_closed s"
  by (auto simp: lifecycle_init_def sup_init_def sup_state.extend_def once_def fail_closed_def
      split: if_splits)

lemma session_token: "sv_token (snd (worker_session env as s)) = sv_token s"
proof (induction as arbitrary: s)
  case (Cons a as)
  then show ?case using worker_step_once [of s env a] by (simp add: once_ext_def)
qed simp

text \<open>
  C20: whatever a host does with a worker, in any order, and whichever callbacks raise, the token
  is revoked at most once and the VM wiped at most once.
\<close>

theorem revoked_and_wiped_once:
  assumes "lifecycle_init token key signer = Inr s"
  shows "length (filter is_revoke (sv_log (snd (worker_session env as s)))) \<le> 1
    \<and> length (filter (\<lambda>e. e = EvWipe) (sv_log (snd (worker_session env as s)))) \<le> 1"
proof -
  have "once (snd (worker_session env as s))"
    using lifecycle_init_Inr [OF assms] worker_once.run_inv by blast
  then show ?thesis by (auto simp: once_def split: if_splits)
qed

theorem revoked_and_wiped_once_witness:
  "length (filter is_revoke (sv_log (snd (worker_session sample_worker_env
       [WStop ''a'', WCheck, WStop ''b''] sample_worker)))) \<le> 1
   \<and> EvRevoke ''t'' \<in> set (sv_log (snd (worker_session sample_worker_env
       [WStop ''a'', WCheck, WStop ''b''] sample_worker)))"
proof -
  have "EvRevoke ''t'' \<in> set (sv_log (snd (worker_session sample_worker_env
       [WStop ''a'', WCheck, WStop ''b''] sample_worker)))" by code_simp
  with revoked_and_wiped_once [OF sample_worker_init] show ?thesis by blast
qed

text \<open>
  C19: every terminal path is fail-closed. When no callback raises, a worker that was tripped or
  closed, by expiry, by a forbidden request, by a stop, by a time-out or by its own exit, has
  had its token revoked, its sockets cleaned up and its state wiped.
\<close>

theorem terminal_paths_fail_closed:
  assumes "lifecycle_init token key signer = Inr s" and "quiet env"
    and "snd (worker_session env as s) = s'" and "sv_tripped s' \<or> lc_closed s'"
  shows "EvRevoke (token_id token) \<in> set (sv_log s') \<and> EvCleanup \<in> set (sv_log s')
    \<and> EvWipe \<in> set (sv_log s')"
proof -
  have o: "once s'" using lifecycle_init_Inr [OF assms(1)] worker_once.run_inv assms(3) by blast
  have "fail_closed s'"
    using lifecycle_init_Inr [OF assms(1)] worker_closed.run_inv [of env s as] assms(2,3) by blast
  moreover have "sv_token s' = token"
    using lifecycle_init_Inr [OF assms(1)] session_token [of env as s] assms(3) by simp
  ultimately show ?thesis using o assms(4) by (auto simp: once_def fail_closed_def secured_def)
qed

theorem terminal_paths_fail_closed_witness:
  "lc_closed (snd (worker_session sample_worker_env [WWait 10 None 1] sample_worker))
   \<and> EvRevoke (token_id sample_token)
       \<in> set (sv_log (snd (worker_session sample_worker_env [WWait 10 None 1] sample_worker)))"
proof -
  have q: "quiet sample_worker_env" by (simp add: quiet_def sample_worker_env_def)
  have c: "lc_closed (snd (worker_session sample_worker_env [WWait 10 None 1] sample_worker))"
    by code_simp
  show ?thesis using terminal_paths_fail_closed [OF sample_worker_init q refl] c by blast
qed

text \<open>
  a request is let through only for a capability listed in the token, on the worker's own
  VM, at an instant at which the token verifies; nothing is called and nothing is revoked.
\<close>

theorem request_within_capabilities:
  assumes "sup_request env cb capability target destructive s = (Inr (), s')"
  shows "target = ''microvm'' \<and> capability \<in> set (capabilities (sv_token s))
    \<and> (\<exists>t x. token_verify (cap_of env) (sv_key s) (sv_signer s) (now_of env (sv_ticks s))
               (token_to_dict (sv_token s)) = Inr t
         \<and> parse_time (cap_of env) (expires_at (sv_token s)) = Inr x \<and> now_of env (sv_ticks s) < x)
    \<and> s' = s\<lparr>sv_ticks := Suc (sv_ticks s)\<rparr>"
proof -
  obtain s1 where c: "check_expiry env cb s = (Inr (), s1)"
    and r: "(if target \<noteq> ''microvm'' then
         abind (trip env cb ''host_boundary_operation_attempt'') (\<lambda>_.
           araise (WorkerTerminated ''host-boundary operation attempted''))
       else if capability \<notin> set (capabilities (sv_token s1)) then
         (if destructive then
            abind (trip env cb ''unauthorized_destructive_operation'') (\<lambda>_.
              araise (WorkerTerminated ''unauthorized destructive operation''))
          else araise (CapabilityError (''capability not granted: '' @ capability)))
       else aret ()) s1 = (Inr (), s')"
    using assms by (auto simp: sup_request_def abind_Inr_iff)
  note ok = check_expiry_Inr [OF c]
  from ok(2) obtain t where "token_verify (cap_of env) (sv_key s) (sv_signer s)
      (now_of env (sv_ticks s)) (token_to_dict (sv_token s)) = Inr t" by blast
  with r ok(1) verify_before_expiry [OF this] show ?thesis
    by (auto simp: abind_Inr_iff split: if_splits)
qed

theorem request_within_capabilities_witness:
  "\<exists>s'. sup_request sample_worker_env (lifecycle_callbacks sample_worker_env) ''read'' ''microvm'' True
       sample_worker = (Inr (), s')
     \<and> ''read'' \<in> set (capabilities (sv_token sample_worker))"
proof -
  have "fst (sup_request sample_worker_env (lifecycle_callbacks sample_worker_env) ''read'' ''microvm''
      True sample_worker) = Inr ()" by code_simp
  then obtain s' where r: "sup_request sample_worker_env (lifecycle_callbacks sample_worker_env)
      ''read'' ''microvm'' True sample_worker = (Inr (), s')"
    by (metis prod.collapse)
  with request_within_capabilities [OF r] show ?thesis by blast
qed

text \<open>
  \<open>wait\<close> ends. If the clock passes the token's expiry at its \<open>n\<close>-th reading, the loop has
  returned or raised within \<open>n + 1\<close> rounds, however long the guest runs and whatever the
  callbacks raise: no worker is supervised for ever on an expired token.
\<close>

theorem wait_terminates:
  assumes "\<And>x k. parse_time (cap_of env) (expires_at (sv_token s)) = Inr x \<Longrightarrow> n \<le> k \<Longrightarrow>
      x \<le> now_of env k"
  shows "fst (lc_wait env (Suc n) timeout interval s) \<noteq> Inr None"
proof -
  have "fst (wait_loop env d (Suc n) s') \<noteq> Inr None" if "sv_token s' = sv_token s" for d s'
    using wait_loop_ends [of env s' n "Suc n" d] assms that by simp
  then show ?thesis
    by (auto simp: lc_wait_def abind_def read_mono_def split: option.splits)
qed

theorem wait_terminates_witness:
  "fst (lc_wait sample_worker_env 4 None 1 sample_worker) \<noteq> Inr None"
proof -
  have p: "parse_time sample_cap_env (expires_at sample_token) = Inr 100" by code_simp
  have "fst (lc_wait sample_worker_env (Suc 3) None 1 sample_worker) \<noteq> Inr None"
  proof (rule wait_terminates)
    fix x k
    assume "parse_time (cap_of sample_worker_env) (expires_at (sv_token sample_worker)) = Inr x"
      and "(3 :: nat) \<le> k"
    with p show "x \<le> now_of sample_worker_env k"
      by (simp add: sample_worker_env_def sample_worker_def)
  qed
  then show ?thesis by (simp add: numeral_eq_Suc)
qed


end
