(* ===== verification/Transport.thy ===== *)
theory Transport
  imports Prelude "HOL-Library.Word"
begin

text \<open>
  Length-framed transport between host and guest: \<open>src/testudo/runtime/transport.py\<close>.

  A byte is an \<open>8 word\<close>. The CBOR package is a parameter \<open>cbor\<close>: \<open>cb_dumps\<close> is
  \<open>cbor2.dumps(..., canonical=True)\<close>, \<open>cb_loads\<close> decodes one item and returns it with the
  bytes left in the stream (\<open>None\<close> where it raises), \<open>cb_canon\<close> is the mapping as the decoder
  rebuilds it (canonical CBOR orders the keys).

  A connected socket holds the bytes its peer has sent before closing, what each call of
  \<open>recv\<close> does (deliver a chunk of at most the given size, or raise), what each call of
  \<open>sendall\<close> does, and the bytes sent so far. When the list of events is used up, \<open>recv\<close>
  delivers all it is asked for. The sizes are arbitrary, so the lists range over every way the
  kernel may split a stream.
\<close>

type_synonym byte = "8 word"

record cbor =
  cb_dumps :: "pyval \<Rightarrow> byte list"
  cb_loads :: "byte list \<Rightarrow> (pyval \<times> byte list) option"
  cb_canon :: "pydict \<Rightarrow> pydict"

datatype recv_event = Chunk nat | RecvFails

record sock =
  sk_in :: "byte list"
  sk_recvs :: "recv_event list"
  sk_sends :: "bool list"
  sk_out :: "byte list"

definition max_frame_bytes :: nat where "max_frame_bytes = 4 * 1024 * 1024"

definition frame_schema :: string where "frame_schema = ''testudo.vsock.frame.v1''"

definition frame_keys :: "string list" where
  "frame_keys = [''schema'', ''sequence'', ''run_id'', ''token_id'', ''nonce'', ''kind'', ''payload'']"

section \<open>Length prefix\<close>

text \<open>\<open>struct.Struct(">I")\<close>: four bytes, the most significant first.\<close>

definition length_pack :: "nat \<Rightarrow> byte list" where
  "length_pack n = (let i = int n in
     [word_of_int (i div 2 ^ 24), word_of_int (i div 2 ^ 16), word_of_int (i div 2 ^ 8), word_of_int i])"

definition length_unpack :: "byte list \<Rightarrow> nat" where
  "length_unpack bs = foldl (\<lambda>acc b. acc * 2 ^ 8 + unat b) 0 bs"

section \<open>Frames\<close>

record frame =
  fr_sequence :: int
  fr_run_id :: string
  fr_token_id :: string
  fr_nonce :: string
  fr_kind :: string
  fr_payload :: pydict

definition make_frame :: "int \<Rightarrow> string \<Rightarrow> string \<Rightarrow> string \<Rightarrow> string \<Rightarrow> pydict \<Rightarrow> exn + frame" where
  "make_frame sequence rid tid nc kind payload =
     (if sequence < 0 then Inl (TransportError ''frame sequence must be non-negative'')
      else case List.find (\<lambda>(name, v). v = []) [(''run_id'', rid), (''token_id'', tid),
             (''nonce'', nc), (''kind'', kind)] of
        Some (name, _) \<Rightarrow> Inl (TransportError (''frame '' @ name @ '' is required''))
      | None \<Rightarrow> Inr \<lparr>fr_sequence = sequence, fr_run_id = rid, fr_token_id = tid, fr_nonce = nc,
                     fr_kind = kind, fr_payload = payload\<rparr>)"

definition frame_to_mapping :: "frame \<Rightarrow> pydict" where
  "frame_to_mapping f =
     [(''schema'', PStr frame_schema),
      (''sequence'', PInt (fr_sequence f)),
      (''run_id'', PStr (fr_run_id f)),
      (''token_id'', PStr (fr_token_id f)),
      (''nonce'', PStr (fr_nonce f)),
      (''kind'', PStr (fr_kind f)),
      (''payload'', PDict (fr_payload f))]"

definition required_str :: "pydict \<Rightarrow> string \<Rightarrow> exn + string" where
  "required_str d name =
     (case dict_get d name of
        PStr s \<Rightarrow> if s = [] then Inl (TransportError (''frame '' @ name @ '' is required'')) else Inr s
      | _ \<Rightarrow> Inl (TransportError (''frame '' @ name @ '' is required'')))"

definition frame_from_mapping :: "pydict \<Rightarrow> exn + frame" where
  "frame_from_mapping value =
     (if set (map fst value) \<noteq> set frame_keys then
        Inl (TransportError ''frame keys do not match the canonical schema'')
      else if dict_get value ''schema'' \<noteq> PStr frame_schema then
        Inl (TransportError ''unsupported frame schema'')
      else (case dict_get value ''sequence'' of
        PInt sequence \<Rightarrow>
          rbind (required_str value ''run_id'') (\<lambda>rid.
          rbind (required_str value ''token_id'') (\<lambda>tid.
          rbind (required_str value ''nonce'') (\<lambda>nc.
          rbind (required_str value ''kind'') (\<lambda>kind.
            case dict_get value ''payload'' of
              PDict payload \<Rightarrow> make_frame sequence rid tid nc kind payload
            | _ \<Rightarrow> Inl (TransportError ''frame payload must be a map'')))))
      | _ \<Rightarrow> Inl (TransportError ''frame sequence must be an integer'')))"

definition encode_frame :: "cbor \<Rightarrow> nat \<Rightarrow> frame \<Rightarrow> exn + byte list" where
  "encode_frame c max_bytes f =
     (let body = cb_dumps c (PDict (frame_to_mapping f)) in
      if length body > max_bytes \<or> int (length body) > 2 ^ 32 - 1 then
        Inl (TransportError ''frame exceeds maximum size'')
      else Inr (length_pack (length body) @ body))"

definition decode_frame :: "cbor \<Rightarrow> nat \<Rightarrow> byte list \<Rightarrow> exn + frame" where
  "decode_frame c max_bytes body =
     (if body = [] \<or> length body > max_bytes then
        Inl (TransportError ''frame body exceeds maximum size'')
      else (case cb_loads c body of
        None \<Rightarrow> Inl (TransportError ''invalid canonical-CBOR frame'')
      | Some (value, rest) \<Rightarrow>
          if rest \<noteq> [] then Inl (TransportError ''trailing bytes after frame'')
          else (case value of
            PDict d \<Rightarrow>
              if cb_dumps c value \<noteq> body then Inl (TransportError ''frame is not canonical CBOR'')
              else frame_from_mapping d
          | _ \<Rightarrow> Inl (TransportError ''frame root must be a map''))))"

section \<open>The socket\<close>

definition recv :: "nat \<Rightarrow> (sock, byte list) act" where
  "recv sz s =
     (case sk_recvs s of
        [] \<Rightarrow> (Inr (take sz (sk_in s)), s\<lparr>sk_in := drop sz (sk_in s)\<rparr>)
      | RecvFails # evs \<Rightarrow> (Inl (OSError ''recv''), s\<lparr>sk_recvs := evs\<rparr>)
      | Chunk n # evs \<Rightarrow>
          let k = max 1 (min n sz)
          in (Inr (take k (sk_in s)), s\<lparr>sk_in := drop k (sk_in s), sk_recvs := evs\<rparr>))"

definition sendall :: "byte list \<Rightarrow> (sock, unit) act" where
  "sendall bs s =
     (case sk_sends s of
        True # evs \<Rightarrow> (Inl (OSError ''send''), s\<lparr>sk_sends := evs\<rparr>)
      | _ \<Rightarrow> (Inr (), s\<lparr>sk_sends := tl (sk_sends s), sk_out := sk_out s @ bs\<rparr>))"

text \<open>
  \<open>_read_exact\<close>: the loop asks for what remains and stops on an empty chunk. Each round with
  a chunk makes the remainder smaller, so the fuel \<open>remaining\<close> is enough.
\<close>

fun read_loop :: "nat \<Rightarrow> nat \<Rightarrow> byte list \<Rightarrow> (sock, byte list) act" where
  "read_loop fuel remaining acc =
     (if remaining = 0 then aret acc
      else case fuel of 0 \<Rightarrow> araise (RuntimeError ''out of fuel'')
      | Suc fuel' \<Rightarrow> abind (recv remaining) (\<lambda>chunk.
          if chunk = [] then araise (TransportError ''socket closed before complete frame'')
          else read_loop fuel' (remaining - length chunk) (acc @ chunk)))"

declare read_loop.simps [simp del]

definition read_exact :: "nat \<Rightarrow> (sock, byte list) act" where
  "read_exact sz = read_loop sz sz []"

definition write_frame :: "cbor \<Rightarrow> nat \<Rightarrow> frame \<Rightarrow> (sock, unit) act" where
  "write_frame c max_bytes f = abind (alift (encode_frame c max_bytes f)) sendall"

definition read_frame :: "cbor \<Rightarrow> nat \<Rightarrow> (sock, frame) act" where
  "read_frame c max_bytes =
     abind (read_exact 4) (\<lambda>pre.
       let sz = length_unpack pre in
       if sz = 0 \<or> sz > max_bytes then
         araise (TransportError ''frame length exceeds maximum size'')
       else abind (read_exact sz) (\<lambda>body. alift (decode_frame c max_bytes body)))"

section \<open>Length prefix round trip\<close>

lemma length_pack_length [simp]: "length (length_pack n) = 4"
  by (simp add: length_pack_def Let_def)

lemma length_pack_nat:
  "length_pack n = [word_of_nat (n div 2 ^ 24), word_of_nat (n div 2 ^ 16),
     word_of_nat (n div 2 ^ 8), word_of_nat n]"
proof -
  have w: "(word_of_int (int m) :: byte) = word_of_nat m" for m by simp
  have d: "int n div 2 ^ k = int (n div 2 ^ k)" for k by (simp add: zdiv_int)
  show ?thesis unfolding length_pack_def Let_def d w by (rule refl)
qed

lemma unpack_pack:
  assumes "n < 2 ^ 32"
  shows "length_unpack (length_pack n) = n"
proof -
  have u: "unat (word_of_nat m :: byte) = m mod 256" for m
    by (simp add: unat_of_nat)
  let ?a = "n div 256" let ?b = "?a div 256" let ?c = "?b div 256"
  have d: "n div 65536 = ?b" "n div 16777216 = ?c" by (simp_all flip: div_mult2_eq)
  have "?c < 256" using assms by simp
  then have "n = 16777216 * ?c + 65536 * (?b mod 256) + ?a mod 256 * 256 + n mod 256"
    using mult_div_mod_eq [of 256 n] mult_div_mod_eq [of 256 ?a] mult_div_mod_eq [of 256 ?b]
    by linarith
  then show ?thesis
    using assms by (simp add: length_unpack_def length_pack_nat u d)
qed

section \<open>Reading under any chunking\<close>

definition no_failure :: "sock \<Rightarrow> bool" where
  "no_failure s \<longleftrightarrow> RecvFails \<notin> set (sk_recvs s)"

lemma recv_chunk:
  assumes "no_failure s" and "0 < sz" and "sz \<le> length (sk_in s)"
  obtains k evs where "0 < k" "k \<le> sz"
    "recv sz s = (Inr (take k (sk_in s)), s\<lparr>sk_in := drop k (sk_in s), sk_recvs := evs\<rparr>)"
    "RecvFails \<notin> set evs"
proof (cases "sk_recvs s")
  case Nil
  then have "recv sz s = (Inr (take sz (sk_in s)), s\<lparr>sk_in := drop sz (sk_in s), sk_recvs := []\<rparr>)"
    by (simp add: recv_def)
  with assms that [of sz "[]"] show thesis by simp
next
  case (Cons ev evs)
  with assms(1) obtain n where "ev = Chunk n" "RecvFails \<notin> set evs"
    by (cases ev) (auto simp: no_failure_def)
  with Cons assms that [of "max 1 (min n sz)" evs] show thesis
    by (simp add: recv_def Let_def)
qed

lemma read_loop_exact:
  "\<lbrakk>no_failure s; remaining \<le> length (sk_in s); remaining \<le> fuel\<rbrakk> \<Longrightarrow>
     \<exists>s'. read_loop fuel remaining acc s = (Inr (acc @ take remaining (sk_in s)), s')
       \<and> sk_in s' = drop remaining (sk_in s) \<and> no_failure s' \<and> sk_out s' = sk_out s
       \<and> sk_sends s' = sk_sends s"
proof (induction fuel arbitrary: remaining acc s)
  case 0
  then show ?case by (simp add: read_loop.simps)
next
  case (Suc fuel)
  show ?case
  proof (cases "remaining = 0")
    case True
    with Suc.prems show ?thesis by (simp add: read_loop.simps)
  next
    case False
    then obtain k evs where k: "0 < k" "k \<le> remaining"
      "recv remaining s = (Inr (take k (sk_in s)), s\<lparr>sk_in := drop k (sk_in s), sk_recvs := evs\<rparr>)"
      "RecvFails \<notin> set evs"
      using recv_chunk [OF Suc.prems(1) _ Suc.prems(2)] by blast
    let ?s1 = "s\<lparr>sk_in := drop k (sk_in s), sk_recvs := evs\<rparr>"
    have len: "length (take k (sk_in s)) = k" using k(2) Suc.prems(2) by simp
    have ne: "take k (sk_in s) \<noteq> []" using len k(1) by (metis length_greater_0_conv)
    have step: "read_loop (Suc fuel) remaining acc s
        = read_loop fuel (remaining - k) (acc @ take k (sk_in s)) ?s1"
      using False k(3) len ne by (subst read_loop.simps) (simp add: abind_def)
    have "no_failure ?s1" "remaining - k \<le> length (sk_in ?s1)" "remaining - k \<le> fuel"
      using k Suc.prems by (auto simp: no_failure_def)
    from Suc.IH [OF this, of "acc @ take k (sk_in s)"] obtain s' where
      s': "read_loop fuel (remaining - k) (acc @ take k (sk_in s)) ?s1
        = (Inr ((acc @ take k (sk_in s)) @ take (remaining - k) (drop k (sk_in s))), s')"
      "sk_in s' = drop (remaining - k) (drop k (sk_in s))" "no_failure s'" "sk_out s' = sk_out s"
      "sk_sends s' = sk_sends s"
      by auto
    have "take k (sk_in s) @ take (remaining - k) (drop k (sk_in s)) = take remaining (sk_in s)"
      using k(2) by (metis append_take_drop_id le_add_diff_inverse take_add)
    with s' step k(2) show ?thesis by simp
  qed
qed

lemma read_exact_ok:
  "\<lbrakk>no_failure s; sz \<le> length (sk_in s)\<rbrakk> \<Longrightarrow>
     \<exists>s'. read_exact sz s = (Inr (take sz (sk_in s)), s') \<and> sk_in s' = drop sz (sk_in s)
       \<and> no_failure s' \<and> sk_out s' = sk_out s \<and> sk_sends s' = sk_sends s"
  using read_loop_exact [of s sz sz "[]"] by (simp add: read_exact_def)

text \<open>Whatever the socket does, a read takes exactly its bytes off the stream, and ends.\<close>

lemma recv_Inr:
  "recv sz s = (Inr chunk, s') \<Longrightarrow> 0 < sz \<Longrightarrow> length chunk \<le> sz \<and> sk_in s = chunk @ sk_in s'
     \<and> sk_out s' = sk_out s \<and> sk_sends s' = sk_sends s"
  by (auto simp: recv_def Let_def split: list.splits recv_event.splits)

lemma read_loop_sound:
  "read_loop fuel remaining acc s = (Inr bs, s') \<Longrightarrow>
     \<exists>x. bs = acc @ x \<and> length x = remaining \<and> sk_in s = x @ sk_in s'"
proof (induction fuel arbitrary: remaining acc s)
  case 0
  then show ?case by (auto simp: read_loop.simps split: if_splits)
next
  case (Suc fuel)
  show ?case
  proof (cases "remaining = 0")
    case True
    with Suc.prems show ?thesis by (simp add: read_loop.simps)
  next
    case False
    with Suc.prems obtain chunk s1 where c: "recv remaining s = (Inr chunk, s1)" "chunk \<noteq> []"
      and r: "read_loop fuel (remaining - length chunk) (acc @ chunk) s1 = (Inr bs, s')"
      by (subst (asm) read_loop.simps) (auto simp: abind_Inr_iff split: if_splits)
    note i = recv_Inr [OF c(1)]
    from Suc.IH [OF r] obtain x where "bs = (acc @ chunk) @ x" "length x = remaining - length chunk"
      "sk_in s1 = x @ sk_in s'" by blast
    with i False show ?thesis by (intro exI [of _ "chunk @ x"]) auto
  qed
qed

lemma read_loop_fuel:
  "remaining \<le> fuel \<Longrightarrow> fst (read_loop fuel remaining acc s) \<noteq> Inl (RuntimeError m)"
proof (induction fuel arbitrary: remaining acc s)
  case 0
  then show ?case by (simp add: read_loop.simps)
next
  case (Suc fuel)
  show ?case
  proof (cases "remaining = 0")
    case True
    then show ?thesis by (simp add: read_loop.simps)
  next
    case False
    obtain r s1 where c: "recv remaining s = (r, s1)" by (cases "recv remaining s")
    show ?thesis
    proof (cases r)
      case (Inl e)
      with c have "e = OSError ''recv''" by (auto simp: recv_def Let_def split: list.splits recv_event.splits)
      with False c Inl show ?thesis by (subst read_loop.simps) (simp add: abind_def)
    next
      case (Inr chunk)
      have "chunk \<noteq> [] \<Longrightarrow> remaining - length chunk \<le> fuel"
        using Suc.prems by (cases chunk) auto
      with Suc.IH [of "remaining - length chunk"] False c Inr show ?thesis
        by (subst read_loop.simps) (simp add: abind_def)
    qed
  qed
qed

section \<open>Frames survive the transport\<close>

text \<open>
  What the code relies on in CBOR, for one frame: its encoding decodes as a whole to the same
  mapping up to the order of keys, and that mapping encodes to the same bytes.
\<close>

definition cbor_carries :: "cbor \<Rightarrow> frame \<Rightarrow> bool" where
  "cbor_carries c f \<longleftrightarrow>
     cb_dumps c (PDict (frame_to_mapping f)) \<noteq> []
     \<and> (\<exists>m. cb_loads c (cb_dumps c (PDict (frame_to_mapping f))) = Some (PDict m, [])
          \<and> cb_dumps c (PDict m) = cb_dumps c (PDict (frame_to_mapping f))
          \<and> set (map fst m) = set (map fst (frame_to_mapping f))
          \<and> list_all (\<lambda>name. dict_get m name = dict_get (frame_to_mapping f) name)
              [''schema'', ''sequence'', ''run_id'', ''token_id'', ''nonce'', ''kind'']
          \<and> dict_get m ''payload'' = PDict (cb_canon c (fr_payload f)))"

definition frame_ok :: "frame \<Rightarrow> bool" where
  "frame_ok f \<longleftrightarrow> 0 \<le> fr_sequence f \<and> fr_run_id f \<noteq> [] \<and> fr_token_id f \<noteq> [] \<and> fr_nonce f \<noteq> []
     \<and> fr_kind f \<noteq> []"

lemma make_frame_Inr:
  "make_frame n r t nc k p = Inr f \<longleftrightarrow> 0 \<le> n \<and> r \<noteq> [] \<and> t \<noteq> [] \<and> nc \<noteq> [] \<and> k \<noteq> []
     \<and> f = \<lparr>fr_sequence = n, fr_run_id = r, fr_token_id = t, fr_nonce = nc, fr_kind = k, fr_payload = p\<rparr>"
  by (auto simp: make_frame_def)

lemma frame_mapping_get:
  "dict_get (frame_to_mapping f) ''schema'' = PStr frame_schema"
  "dict_get (frame_to_mapping f) ''sequence'' = PInt (fr_sequence f)"
  "dict_get (frame_to_mapping f) ''run_id'' = PStr (fr_run_id f)"
  "dict_get (frame_to_mapping f) ''token_id'' = PStr (fr_token_id f)"
  "dict_get (frame_to_mapping f) ''nonce'' = PStr (fr_nonce f)"
  "dict_get (frame_to_mapping f) ''kind'' = PStr (fr_kind f)"
  "set (map fst (frame_to_mapping f)) = set frame_keys"
  by (simp_all add: dict_get_def frame_to_mapping_def frame_keys_def)

lemma decode_carried:
  assumes "cbor_carries c f" and "frame_ok f"
    and "length (cb_dumps c (PDict (frame_to_mapping f))) \<le> max_bytes"
  shows "decode_frame c max_bytes (cb_dumps c (PDict (frame_to_mapping f)))
    = Inr (f\<lparr>fr_payload := cb_canon c (fr_payload f)\<rparr>)"
proof -
  obtain m where m: "cb_loads c (cb_dumps c (PDict (frame_to_mapping f))) = Some (PDict m, [])"
    "cb_dumps c (PDict m) = cb_dumps c (PDict (frame_to_mapping f))"
    "set (map fst m) = set frame_keys"
    "dict_get m ''schema'' = PStr frame_schema" "dict_get m ''sequence'' = PInt (fr_sequence f)"
    "dict_get m ''run_id'' = PStr (fr_run_id f)" "dict_get m ''token_id'' = PStr (fr_token_id f)"
    "dict_get m ''nonce'' = PStr (fr_nonce f)" "dict_get m ''kind'' = PStr (fr_kind f)"
    "dict_get m ''payload'' = PDict (cb_canon c (fr_payload f))"
    and ne: "cb_dumps c (PDict (frame_to_mapping f)) \<noteq> []"
    using assms(1) frame_mapping_get(7) [of f] by (auto simp: cbor_carries_def frame_mapping_get(1-6))
  have "frame_from_mapping m = Inr (f\<lparr>fr_payload := cb_canon c (fr_payload f)\<rparr>)"
    using assms(2) m by (simp add: frame_from_mapping_def required_str_def make_frame_Inr frame_ok_def)
  with m assms(3) ne show ?thesis by (simp add: decode_frame_def)
qed

lemma read_encoded:
  assumes "cbor_carries c f" and "frame_ok f" and "encode_frame c max_bytes f = Inr bs"
    and "no_failure s" and "sk_in s = bs @ rest"
  shows "\<exists>s'. read_frame c max_bytes s = (Inr (f\<lparr>fr_payload := cb_canon c (fr_payload f)\<rparr>), s')
    \<and> sk_in s' = rest \<and> no_failure s' \<and> sk_out s' = sk_out s \<and> sk_sends s' = sk_sends s"
proof -
  let ?body = "cb_dumps c (PDict (frame_to_mapping f))"
  have bs: "bs = length_pack (length ?body) @ ?body" "length ?body \<le> max_bytes" "length ?body < 2 ^ 32"
    using assms(3) by (auto simp: encode_frame_def Let_def split: if_splits)
  have ne: "?body \<noteq> []" using assms(1) by (simp add: cbor_carries_def)
  obtain s1 where s1: "read_exact 4 s = (Inr (length_pack (length ?body)), s1)"
    "sk_in s1 = ?body @ rest" "no_failure s1" "sk_out s1 = sk_out s" "sk_sends s1 = sk_sends s"
    using read_exact_ok [OF assms(4), of 4] assms(5) bs(1) by auto
  obtain s2 where s2: "read_exact (length ?body) s1 = (Inr ?body, s2)" "sk_in s2 = rest" "no_failure s2"
    "sk_out s2 = sk_out s" "sk_sends s2 = sk_sends s"
    using read_exact_ok [OF s1(3), of "length ?body"] s1(2,4,5) by auto
  have "length_unpack (length_pack (length ?body)) = length ?body" using bs(3) by (rule unpack_pack)
  then have "read_frame c max_bytes s = (Inr (f\<lparr>fr_payload := cb_canon c (fr_payload f)\<rparr>), s2)"
    using s1(1) s2(1) ne bs(2) decode_carried [OF assms(1,2) bs(2)]
    by (simp add: read_frame_def abind_def)
  with s2 show ?thesis by blast
qed

text \<open>Reading frame after frame.\<close>

fun read_frames :: "cbor \<Rightarrow> nat \<Rightarrow> nat \<Rightarrow> (sock, frame list) act" where
  "read_frames c max_bytes 0 = aret []"
| "read_frames c max_bytes (Suc n) =
     abind (read_frame c max_bytes) (\<lambda>f. abind (read_frames c max_bytes n) (\<lambda>fs. aret (f # fs)))"

section \<open>Properties of the transport\<close>

lemma read_frames_encoded:
  assumes "list_all (\<lambda>f. cbor_carries c f \<and> frame_ok f) fs"
    and "rmap (encode_frame c max_bytes) fs = Inr bss"
    and "no_failure s" and "sk_in s = concat bss @ rest"
  shows "\<exists>s'. read_frames c max_bytes (length fs) s
      = (Inr (map (\<lambda>f. f\<lparr>fr_payload := cb_canon c (fr_payload f)\<rparr>) fs), s') \<and> sk_in s' = rest"
  using assms
proof (induction fs arbitrary: bss s)
  case (Cons f fs)
  obtain bs bss' where b: "encode_frame c max_bytes f = Inr bs"
    "rmap (encode_frame c max_bytes) fs = Inr bss'" "bss = bs # bss'"
    using Cons.prems(2) by auto
  obtain s1 where s1: "read_frame c max_bytes s = (Inr (f\<lparr>fr_payload := cb_canon c (fr_payload f)\<rparr>), s1)"
    "sk_in s1 = concat bss' @ rest" "no_failure s1"
    using read_encoded [of c f max_bytes bs s "concat bss' @ rest"] Cons.prems b by auto
  with Cons.IH [OF _ b(2) s1(3,2)] Cons.prems(1) show ?case by (auto simp: abind_def)
qed simp

text \<open>A codec for the witnesses: one frame has a two-byte body.\<close>

definition sample_frame :: frame where
  "sample_frame = \<lparr>fr_sequence = 0, fr_run_id = ''r'', fr_token_id = ''t'', fr_nonce = ''n'',
     fr_kind = ''ready'', fr_payload = []\<rparr>"

definition sample_cbor :: cbor where
  "sample_cbor = \<lparr>cb_dumps = (\<lambda>v. [7, 9]),
     cb_loads = (\<lambda>bs. Some (PDict (frame_to_mapping sample_frame), drop 2 bs)), cb_canon = id\<rparr>"

definition sample_sock :: "byte list \<Rightarrow> sock" where
  "sample_sock bs = \<lparr>sk_in = bs, sk_recvs = [Chunk 3, Chunk 1, Chunk 1], sk_sends = [], sk_out = []\<rparr>"

lemma sample_carries: "cbor_carries sample_cbor sample_frame"
  by (simp add: cbor_carries_def sample_cbor_def frame_to_mapping_def sample_frame_def dict_get_def)

text \<open>
  C30: frames survive the stream. However the kernel splits the bytes into chunks, reading as
  many frames as were encoded returns exactly those frames, in order (their payloads with keys
  in canonical order), and leaves the rest of the stream untouched.
\<close>

theorem frames_roundtrip:
  assumes "list_all (\<lambda>f. cbor_carries c f \<and> frame_ok f) fs"
    and "rmap (encode_frame c max_bytes) fs = Inr bss"
    and "no_failure s" and "sk_in s = concat bss @ rest"
  shows "\<exists>s'. read_frames c max_bytes (length fs) s
      = (Inr (map (\<lambda>f. f\<lparr>fr_payload := cb_canon c (fr_payload f)\<rparr>) fs), s') \<and> sk_in s' = rest"
  using assms by (rule read_frames_encoded)

theorem frames_roundtrip_witness:
  "\<exists>s'. read_frames sample_cbor 100 2 (sample_sock ([0, 0, 0, 2, 7, 9] @ [0, 0, 0, 2, 7, 9] @ [5]))
     = (Inr [sample_frame, sample_frame], s') \<and> sk_in s' = [5]"
proof -
  have 1: "list_all (\<lambda>f. cbor_carries sample_cbor f \<and> frame_ok f) [sample_frame, sample_frame]"
    using sample_carries by (simp add: frame_ok_def sample_frame_def)
  have 2: "rmap (encode_frame sample_cbor 100) [sample_frame, sample_frame]
      = Inr [[0, 0, 0, 2, 7, 9], [0, 0, 0, 2, 7, 9]]"
    by (simp add: encode_frame_def sample_cbor_def length_pack_nat)
  have 3: "no_failure (sample_sock ([0, 0, 0, 2, 7, 9] @ [0, 0, 0, 2, 7, 9] @ [5]))"
    "sk_in (sample_sock ([0, 0, 0, 2, 7, 9] @ [0, 0, 0, 2, 7, 9] @ [5]))
       = concat [[0, 0, 0, 2, 7, 9], [0, 0, 0, 2, 7, 9]] @ [5]"
    by (simp_all add: no_failure_def sample_sock_def)
  have 4: "map (\<lambda>f. f\<lparr>fr_payload := cb_canon sample_cbor (fr_payload f)\<rparr>) [sample_frame, sample_frame]
      = [sample_frame, sample_frame]"
    by (simp add: sample_cbor_def)
  have 5: "length [sample_frame, sample_frame] = 2" by simp
  show ?thesis using frames_roundtrip [OF 1 2 3] unfolding 4 5 .
qed

text \<open>
  \<open>_read_exact\<close> ends, and takes exactly the bytes asked for: its loop never runs out of
  the fuel given by the byte count, and when it returns, what it returns is the next \<open>sz\<close>
  bytes of the stream.
\<close>

theorem read_exact_exact:
  "fst (read_exact sz s) \<noteq> Inl (RuntimeError m)
   \<and> (case read_exact sz s of (Inl e, s') \<Rightarrow> True
      | (Inr bs, s') \<Rightarrow> length bs = sz \<and> sk_in s = bs @ sk_in s')"
  using read_loop_fuel [of sz sz "[]" s m] read_loop_sound [of sz sz "[]" s]
  by (auto simp: read_exact_def split: prod.splits sum.splits)

text \<open>
  a frame whose announced length is zero or over the limit is refused after its four length
  bytes; not one byte of its body is read.
\<close>

theorem oversized_frame_not_read:
  assumes "no_failure s" and "sk_in s = length_pack n @ rest" and "n < 2 ^ 32"
    and "n = 0 \<or> max_bytes < n"
  shows "\<exists>s'. read_frame c max_bytes s
      = (Inl (TransportError ''frame length exceeds maximum size''), s') \<and> sk_in s' = rest"
proof -
  obtain s1 where "read_exact 4 s = (Inr (length_pack n), s1)" "sk_in s1 = rest"
    using read_exact_ok [OF assms(1), of 4] assms(2) by auto
  with unpack_pack [OF assms(3)] assms(4) show ?thesis
    by (auto simp: read_frame_def abind_def)
qed

theorem oversized_frame_not_read_witness:
  "\<exists>s'. read_frame sample_cbor 100 (sample_sock ([0, 0, 1, 0] @ [7, 9]))
     = (Inl (TransportError ''frame length exceeds maximum size''), s') \<and> sk_in s' = [7, 9]"
proof -
  have p: "length_pack 256 = [0, 0, 1, 0]" by (simp add: length_pack_nat)
  have 1: "no_failure (sample_sock ([0, 0, 1, 0] @ [7, 9]))" by (simp add: no_failure_def sample_sock_def)
  have 2: "sk_in (sample_sock ([0, 0, 1, 0] @ [7, 9])) = length_pack 256 @ [7, 9]"
    unfolding p by (simp add: sample_sock_def)
  show ?thesis using oversized_frame_not_read [OF 1 2, of 100 sample_cbor] by simp
qed

text \<open>
  what the decoder accepts is canonical and complete: the body is the canonical encoding of
  the mapping it was read from, with the seven fields and no other, and the frame satisfies
  its invariant. Two bodies for the same mapping are the same bytes.
\<close>

theorem decoded_frame_canonical:
  assumes "decode_frame c max_bytes body = Inr f"
  shows "\<exists>d. cb_loads c body = Some (PDict d, []) \<and> cb_dumps c (PDict d) = body
    \<and> set (map fst d) = set frame_keys \<and> fr_payload f = (case dict_get d ''payload'' of PDict p \<Rightarrow> p | _ \<Rightarrow> [])
    \<and> frame_ok f \<and> length body \<le> max_bytes"
  using assms
  by (auto simp: decode_frame_def frame_from_mapping_def required_str_def make_frame_Inr frame_ok_def
      split: if_splits option.splits prod.splits pyval.splits)

theorem decoded_frame_canonical_witness:
  "decode_frame sample_cbor 100 [7, 9] = Inr sample_frame \<and> frame_ok sample_frame"
proof -
  have d: "decode_frame sample_cbor 100 [7, 9] = Inr sample_frame"
    using decode_carried [OF sample_carries, of 100]
    by (simp add: sample_cbor_def sample_frame_def frame_ok_def)
  with decoded_frame_canonical [OF d] show ?thesis by blast
qed

end
