(* ===== verification/Broker.thy ===== *)
theory Broker
  imports Transport
begin

text \<open>
  The host side of the guest protocol: \<open>src/testudo/runtime/broker.py\<close>.

  \<open>BrokerSession\<close> is the record \<open>broker\<close> with its socket. The protocol it is meant to follow
  is stated on its own as the relation \<open>proto_step\<close> on protocol states, and every operation of
  the session is shown to be a sequence of its steps.
\<close>

datatype bstate = New | Ready | Running | StopRequested | Terminal | Closed

fun bstate_str :: "bstate \<Rightarrow> string" where
  "bstate_str New = ''new''"
| "bstate_str Ready = ''ready''"
| "bstate_str Running = ''running''"
| "bstate_str StopRequested = ''stop_requested''"
| "bstate_str Terminal = ''terminal''"
| "bstate_str Closed = ''closed''"

definition host_kinds :: "string list" where
  "host_kinds = [''bootstrap'', ''run'', ''stop'']"

definition guest_kinds :: "string list" where
  "guest_kinds = [''ready'', ''stdout'', ''stderr'', ''result'', ''error'', ''receipt'']"

definition stream_kinds :: "string list" where
  "stream_kinds = [''stdout'', ''stderr'', ''receipt'']"

record broker =
  bk_sock :: sock
  bk_run_id :: string
  bk_token_id :: string
  bk_nonce :: string
  bk_max_bytes :: nat
  bk_send_seq :: nat
  bk_recv_seq :: nat
  bk_state :: bstate
  bk_closed :: bool

definition broker_init :: "sock \<Rightarrow> string \<Rightarrow> string \<Rightarrow> string \<Rightarrow> int \<Rightarrow> exn + broker" where
  "broker_init sk rid tid nc max_bytes =
     (if rid = [] \<or> tid = [] \<or> nc = [] then
        Inl (BrokerError ''run_id, token_id and nonce are required'')
      else if max_bytes \<le> 0 \<or> max_bytes > int max_frame_bytes then
        Inl (BrokerError ''max_bytes is outside the transport limit'')
      else Inr \<lparr>bk_sock = sk, bk_run_id = rid, bk_token_id = tid, bk_nonce = nc,
                bk_max_bytes = nat max_bytes, bk_send_seq = 0, bk_recv_seq = 0, bk_state = New,
                bk_closed = False\<rparr>)"

text \<open>An operation on the socket the session holds.\<close>

definition on_sock :: "(sock, 'a) act \<Rightarrow> (broker, 'a) act" where
  "on_sock m b = (case m (bk_sock b) of (r, sk) \<Rightarrow> (r, b\<lparr>bk_sock := sk\<rparr>))"

fun is_transport_failure :: "exn \<Rightarrow> bool" where
  "is_transport_failure (OSError _) = True"
| "is_transport_failure (TransportError _) = True"
| "is_transport_failure (BrokerError _) = True"
| "is_transport_failure _ = False"

definition reject :: "string \<Rightarrow> (broker, 'a) act" where
  "reject reason = abind (aset (\<lambda>b. b\<lparr>bk_state := Terminal\<rparr>)) (\<lambda>_. araise (BrokerError reason))"

definition send_allowed :: "string \<Rightarrow> bstate list" where
  "send_allowed kind = (if kind = ''bootstrap'' then [New] else if kind = ''run'' then [Ready]
     else [Ready, Running])"

definition check_send_state :: "string \<Rightarrow> (broker, unit) act" where
  "check_send_state kind = awith (\<lambda>b. if bk_state b \<notin> set (send_allowed kind)
     then araise (BrokerError (''cannot send '' @ kind @ '' in state '' @ bstate_str (bk_state b)))
     else aret ())"

definition receive_allowed :: "string \<Rightarrow> bstate list" where
  "receive_allowed kind = (if kind = ''ready'' then [New] else [Running, StopRequested])"

definition check_receive_state :: "string \<Rightarrow> (broker, unit) act" where
  "check_receive_state kind = awith (\<lambda>b. if bk_state b \<notin> set (receive_allowed kind)
     then reject (''cannot receive '' @ kind @ '' in state '' @ bstate_str (bk_state b))
     else aret ())"

definition bsend :: "cbor \<Rightarrow> string \<Rightarrow> pydict \<Rightarrow> (broker, frame) act" where
  "bsend c kind payload = awith (\<lambda>b.
     if bk_closed b then araise (BrokerError ''broker session is closed'')
     else if kind \<notin> set host_kinds then
       araise (BrokerError (''host frame kind is not allowed: '' @ kind))
     else abind (check_send_state kind) (\<lambda>_.
       abind (alift (make_frame (int (bk_send_seq b)) (bk_run_id b) (bk_token_id b) (bk_nonce b)
                kind payload)) (\<lambda>f.
       abind (acatch is_transport_failure (on_sock (write_frame c (bk_max_bytes b) f))
                (\<lambda>exc. abind (aset (\<lambda>b. b\<lparr>bk_state := Terminal\<rparr>)) (\<lambda>_.
                   araise (BrokerError (''failed to send '' @ kind @ '' frame: '' @ exn_msg exc))))) (\<lambda>_.
       abind (aset (\<lambda>b. b\<lparr>bk_send_seq := Suc (bk_send_seq b)\<rparr>)) (\<lambda>_.
       abind (aset (\<lambda>b. if kind = ''run'' then b\<lparr>bk_state := Running\<rparr>
                        else if kind = ''stop'' then b\<lparr>bk_state := StopRequested\<rparr> else b)) (\<lambda>_.
       aret f))))))"

text \<open>The checks on a frame that was read, and the transition it makes.\<close>

definition admit_frame :: "frame \<Rightarrow> (broker, frame) act" where
  "admit_frame f = awith (\<lambda>b.
     if fr_run_id f \<noteq> bk_run_id b \<or> fr_token_id f \<noteq> bk_token_id b then
       reject ''guest frame identity does not match session''
     else if fr_nonce f \<noteq> bk_nonce b then reject ''guest frame nonce does not match session''
     else if fr_sequence f \<noteq> int (bk_recv_seq b) then
       reject (''guest frame sequence is '' @ int_str (fr_sequence f) @ '', expected ''
               @ nat_str (bk_recv_seq b))
     else if fr_kind f \<notin> set guest_kinds then
       reject (''guest frame kind is not allowed: '' @ fr_kind f)
     else abind (check_receive_state (fr_kind f)) (\<lambda>_.
       abind (aset (\<lambda>b. b\<lparr>bk_recv_seq := Suc (bk_recv_seq b)\<rparr>)) (\<lambda>_.
       abind (aset (\<lambda>b. if fr_kind f = ''ready'' then b\<lparr>bk_state := Ready\<rparr>
                        else if fr_kind f \<in> {''result'', ''error''} then b\<lparr>bk_state := Terminal\<rparr>
                        else b)) (\<lambda>_.
       aret f))))"

definition breceive :: "cbor \<Rightarrow> (broker, frame) act" where
  "breceive c = awith (\<lambda>b.
     if bk_closed b then araise (BrokerError ''broker session is closed'')
     else abind (acatch is_transport_failure (on_sock (read_frame c (bk_max_bytes b)))
                (\<lambda>exc. abind (aset (\<lambda>b. b\<lparr>bk_state := Terminal\<rparr>)) (\<lambda>_.
                   araise (BrokerError (''failed to read guest frame: '' @ exn_msg exc))))) admit_frame)"

definition bootstrap :: "cbor \<Rightarrow> pydict \<Rightarrow> (broker, frame) act" where
  "bootstrap c contract =
     abind (bsend c ''bootstrap'' contract) (\<lambda>_.
     abind (breceive c) (\<lambda>ready.
       if fr_kind ready \<noteq> ''ready'' then
         reject (''bootstrap expected ready, received '' @ fr_kind ready)
       else aret ready))"

definition brun :: "cbor \<Rightarrow> pydict \<Rightarrow> pydict \<Rightarrow> (broker, frame) act" where
  "brun c workflow inputs =
     bsend c ''run'' [(''workflow'', PDict workflow), (''inputs'', PDict inputs)]"

definition bstop :: "cbor \<Rightarrow> string \<Rightarrow> (broker, frame) act" where
  "bstop c reason =
     (if reason = [] then araise (BrokerError ''stop reason is required'')
      else bsend c ''stop'' [(''reason'', PStr reason)])"

definition bclose :: "(broker, unit) act" where
  "bclose = awith (\<lambda>b. if bk_closed b then aret ()
     else aset (\<lambda>b. b\<lparr>bk_closed := True, bk_state := Closed\<rparr>))"

section \<open>The protocol\<close>

datatype proto_event = Sent string | Received string | Failed | Shut

inductive proto_step :: "bstate \<Rightarrow> proto_event \<Rightarrow> bstate \<Rightarrow> bool" where
  offer: "proto_step New (Sent ''bootstrap'') New"
| ready: "proto_step New (Received ''ready'') Ready"
| start: "proto_step Ready (Sent ''run'') Running"
| halt: "st = Ready \<or> st = Running \<Longrightarrow> proto_step st (Sent ''stop'') StopRequested"
| stream: "k \<in> set stream_kinds \<Longrightarrow> st = Running \<or> st = StopRequested \<Longrightarrow>
    proto_step st (Received k) st"
| finish: "k = ''result'' \<or> k = ''error'' \<Longrightarrow> st = Running \<or> st = StopRequested \<Longrightarrow>
    proto_step st (Received k) Terminal"
| failed: "proto_step st Failed Terminal"
| shut: "proto_step st Shut Closed"

inductive proto_run :: "bstate \<Rightarrow> proto_event list \<Rightarrow> bstate \<Rightarrow> bool" where
  idle: "proto_run st [] st"
| more: "proto_step st e st1 \<Longrightarrow> proto_run st1 es st2 \<Longrightarrow> proto_run st (e # es) st2"

inductive_simps proto_run_Nil [simp]: "proto_run st [] st'"
inductive_simps proto_run_Cons: "proto_run st (e # es) st'"
inductive_cases proto_SentE: "proto_step st (Sent k) st'"
inductive_cases proto_ReceivedE: "proto_step st (Received k) st'"

lemma proto_run_append:
  "proto_run st es st1 \<Longrightarrow> proto_run st1 fs st2 \<Longrightarrow> proto_run st (es @ fs) st2"
  by (induction rule: proto_run.induct) (auto intro: proto_run.more)

section \<open>Sessions\<close>

text \<open>
  What a host does on a session: \<open>run\<close> and \<open>stop\<close> are sends, \<open>bootstrap\<close> is a send and a
  receive (\<open>bootstrap_two_steps\<close> below).
\<close>

datatype broker_op = BSend string pydict | BReceive | BClose

fun broker_step :: "cbor \<Rightarrow> broker_op \<Rightarrow> broker \<Rightarrow> (exn + frame option) \<times> broker" where
  "broker_step c (BSend kind payload) b = abind (bsend c kind payload) (\<lambda>f. aret (Some f)) b"
| "broker_step c BReceive b = abind (breceive c) (\<lambda>f. aret (Some f)) b"
| "broker_step c BClose b = abind bclose (\<lambda>_. aret None) b"

abbreviation broker_session where
  "broker_session c \<equiv> run_ops (broker_step c)"

fun events_of :: "broker_op \<Rightarrow> exn + frame option \<Rightarrow> proto_event list" where
  "events_of (BSend kind payload) (Inr (Some f)) = [Sent (fr_kind f)]"
| "events_of BReceive (Inr (Some f)) = [Received (fr_kind f)]"
| "events_of _ _ = []"

fun frame_event :: "proto_event \<Rightarrow> bool" where
  "frame_event (Sent _) = True"
| "frame_event (Received _) = True"
| "frame_event _ = False"

text \<open>What never changes, and what the socket operations leave alone.\<close>

lemma on_sock_simps:
  "snd (on_sock m b) = b\<lparr>bk_sock := snd (m (bk_sock b))\<rparr>"
  "fst (on_sock m b) = fst (m (bk_sock b))"
  by (simp_all add: on_sock_def split: prod.splits)

definition same_session :: "broker \<Rightarrow> broker \<Rightarrow> bool" where
  "same_session b b' \<longleftrightarrow> bk_run_id b' = bk_run_id b \<and> bk_token_id b' = bk_token_id b
     \<and> bk_nonce b' = bk_nonce b \<and> bk_max_bytes b' = bk_max_bytes b"

lemma bsend_cases:
  assumes "bsend c kind payload b = (r, b')"
  obtains (ok) f sk where "r = Inr f" "\<not> bk_closed b" "kind \<in> set host_kinds"
      "bk_state b \<in> set (send_allowed kind)"
      "make_frame (int (bk_send_seq b)) (bk_run_id b) (bk_token_id b) (bk_nonce b) kind payload = Inr f"
      "b' = b\<lparr>bk_sock := sk, bk_send_seq := Suc (bk_send_seq b),
              bk_state := (if kind = ''run'' then Running else if kind = ''stop'' then StopRequested
                           else bk_state b)\<rparr>"
      "write_frame c (bk_max_bytes b) f (bk_sock b) = (Inr (), sk)"
  | (refused) e where "r = Inl e" "b' = b"
  | (failed) e sk where "r = Inl e" "\<not> bk_closed b" "b' = b\<lparr>bk_sock := sk, bk_state := Terminal\<rparr>"
  | (broken) e sk where "r = Inl e" "\<not> bk_closed b" "b' = b\<lparr>bk_sock := sk\<rparr>"
proof -
  show thesis
  proof (cases "bk_closed b \<or> kind \<notin> set host_kinds \<or> bk_state b \<notin> set (send_allowed kind)")
    case True
    with assms refused show thesis
      by (auto simp: bsend_def check_send_state_def abind_def split: if_splits)
  next
    case False
    then show thesis
    proof (cases "make_frame (int (bk_send_seq b)) (bk_run_id b) (bk_token_id b) (bk_nonce b) kind payload")
      case (Inl e)
      have "r = Inl e" "b' = b"
        using Inl False assms by (simp_all add: bsend_def check_send_state_def abind_def)
      then show thesis by (rule refused)
    next
      case (Inr f)
      note mk = this
      obtain r1 sk where w: "write_frame c (bk_max_bytes b) f (bk_sock b) = (r1, sk)"
        by (cases "write_frame c (bk_max_bytes b) f (bk_sock b)")
      show thesis
      proof (cases r1)
        case (Inl e)
        have "\<exists>e'. r = Inl e' \<and> (b' = b\<lparr>bk_sock := sk, bk_state := Terminal\<rparr> \<or> b' = b\<lparr>bk_sock := sk\<rparr>)"
          using False assms mk w Inl
          by (auto simp: bsend_def check_send_state_def abind_def acatch_def on_sock_def split: if_splits)
        with False failed broken show thesis by blast
      next
        case (Inr u)
        have "r = Inr f" "b' = b\<lparr>bk_sock := sk, bk_send_seq := Suc (bk_send_seq b),
              bk_state := (if kind = ''run'' then Running else if kind = ''stop'' then StopRequested
                           else bk_state b)\<rparr>"
          using False assms mk w Inr
          by (auto simp: bsend_def check_send_state_def abind_def acatch_def on_sock_def)
        with False mk w Inr show thesis by (intro ok [of f sk]) auto
      qed
    qed
  qed
qed

lemma admit_frame_cases:
  obtains (ok) "fr_run_id f = bk_run_id b" "fr_token_id f = bk_token_id b" "fr_nonce f = bk_nonce b"
      "fr_sequence f = int (bk_recv_seq b)" "fr_kind f \<in> set guest_kinds"
      "bk_state b \<in> set (receive_allowed (fr_kind f))"
      "admit_frame f b = (Inr f, b\<lparr>bk_recv_seq := Suc (bk_recv_seq b),
              bk_state := (if fr_kind f = ''ready'' then Ready
                           else if fr_kind f \<in> {''result'', ''error''} then Terminal else bk_state b)\<rparr>)"
  | (rejected) m where "admit_frame f b = (Inl (BrokerError m), b\<lparr>bk_state := Terminal\<rparr>)"
proof -
  have rej: "(reject m b :: (exn + frame) \<times> broker) = (Inl (BrokerError m), b\<lparr>bk_state := Terminal\<rparr>)" for m
    by (simp add: reject_def abind_def)
  show thesis
  proof (cases "fr_run_id f \<noteq> bk_run_id b \<or> fr_token_id f \<noteq> bk_token_id b \<or> fr_nonce f \<noteq> bk_nonce b
      \<or> fr_sequence f \<noteq> int (bk_recv_seq b) \<or> fr_kind f \<notin> set guest_kinds")
    case True
    then have "\<exists>m. admit_frame f b = reject m b"
      unfolding admit_frame_def act_simps by (auto split: if_split)
    then obtain m where "admit_frame f b = reject m b" by blast
    then show thesis using rejected [of m] rej by simp
  next
    case False
    note good = this
    show thesis
    proof (cases "bk_state b \<in> set (receive_allowed (fr_kind f))")
      case True
      show thesis
        by (rule ok) (use good True in \<open>auto simp: admit_frame_def abind_def check_receive_state_def\<close>)
    next
      case False
      let ?m = "''cannot receive '' @ fr_kind f @ '' in state '' @ bstate_str (bk_state b)"
      have chk: "check_receive_state (fr_kind f) b = (Inl (BrokerError ?m), b\<lparr>bk_state := Terminal\<rparr>)"
        using False by (simp add: check_receive_state_def reject_def abind_def)
      have "admit_frame f b = (Inl (BrokerError ?m), b\<lparr>bk_state := Terminal\<rparr>)"
        using good by (simp add: admit_frame_def abind_simps(1) [where m = "check_receive_state (fr_kind f)", OF chk])
      then show thesis by (rule rejected)
    qed
  qed
qed

lemma breceive_cases:
  assumes "breceive c b = (r, b')"
  obtains (ok) f sk where "r = Inr f" "\<not> bk_closed b"
      "read_frame c (bk_max_bytes b) (bk_sock b) = (Inr f, sk)"
      "fr_run_id f = bk_run_id b" "fr_token_id f = bk_token_id b" "fr_nonce f = bk_nonce b"
      "fr_sequence f = int (bk_recv_seq b)" "fr_kind f \<in> set guest_kinds"
      "bk_state b \<in> set (receive_allowed (fr_kind f))"
      "b' = b\<lparr>bk_sock := sk, bk_recv_seq := Suc (bk_recv_seq b),
              bk_state := (if fr_kind f = ''ready'' then Ready
                           else if fr_kind f \<in> {''result'', ''error''} then Terminal else bk_state b)\<rparr>"
  | (closed) e where "r = Inl e" "bk_closed b" "b' = b"
  | (failed) e sk where "r = Inl e" "\<not> bk_closed b" "b' = b\<lparr>bk_sock := sk, bk_state := Terminal\<rparr>"
  | (broken) e sk where "r = Inl e" "\<not> bk_closed b" "b' = b\<lparr>bk_sock := sk\<rparr>"
proof (cases "bk_closed b")
  case True
  have "r = Inl (BrokerError ''broker session is closed'')" "b' = b"
    using assms True by (simp_all add: breceive_def)
  with True show thesis by (intro closed)
next
  case False
  obtain r1 sk where w: "read_frame c (bk_max_bytes b) (bk_sock b) = (r1, sk)"
    by (cases "read_frame c (bk_max_bytes b) (bk_sock b)")
  show thesis
  proof (cases r1)
    case (Inl e)
    have "\<exists>e'. r = Inl e' \<and> (b' = b\<lparr>bk_sock := sk, bk_state := Terminal\<rparr> \<or> b' = b\<lparr>bk_sock := sk\<rparr>)"
      using False assms w Inl
      by (cases "is_transport_failure e") (auto simp: breceive_def abind_def acatch_def on_sock_def)
    then show thesis using False failed broken by blast
  next
    case (Inr f)
    let ?b1 = "b\<lparr>bk_sock := sk\<rparr>"
    have ad: "admit_frame f ?b1 = (r, b')"
      using False assms w Inr by (simp add: breceive_def abind_def acatch_def on_sock_def)
    show thesis
    proof (cases rule: admit_frame_cases [of f ?b1])
      case ok
      have "r = Inr f" using ad ok(7) by simp
      moreover have "b' = b\<lparr>bk_sock := sk, bk_recv_seq := Suc (bk_recv_seq b),
              bk_state := (if fr_kind f = ''ready'' then Ready
                           else if fr_kind f \<in> {''result'', ''error''} then Terminal else bk_state b)\<rparr>"
        using ad ok(7) by auto
      ultimately show thesis using False w Inr ok(1-6) by (intro that(1) [of f sk]) auto
    next
      case (rejected m)
      with ad False failed show thesis by auto
    qed
  qed
qed

section \<open>The session follows the protocol\<close>

lemma host_kind_step:
  assumes "kind \<in> set host_kinds" and "st \<in> set (send_allowed kind)"
  shows "proto_step st (Sent kind)
    (if kind = ''run'' then Running else if kind = ''stop'' then StopRequested else st)"
proof -
  consider "kind = ''bootstrap''" | "kind = ''run''" | "kind = ''stop''"
    using assms(1) unfolding host_kinds_def list.set insert_iff empty_iff by blast
  then show ?thesis
    using assms(2) by cases (auto simp: send_allowed_def intro: proto_step.intros)
qed

lemma guest_kind_cases:
  assumes "k \<in> set guest_kinds"
  shows "k = ''ready'' \<or> k = ''result'' \<or> k = ''error'' \<or> k \<in> set stream_kinds"
proof -
  have "k \<in> set [a, b, c, d, e, f] \<Longrightarrow> k = a \<or> k = d \<or> k = e \<or> k \<in> set [b, c, f]"
    for k a b c d e f :: string by auto
  from this [OF assms [unfolded guest_kinds_def]] show ?thesis unfolding stream_kinds_def .
qed

lemma guest_kind_step:
  assumes "k \<in> set guest_kinds" and "st \<in> set (receive_allowed k)"
  shows "proto_step st (Received k)
    (if k = ''ready'' then Ready else if k \<in> {''result'', ''error''} then Terminal else st)"
proof -
  consider "k = ''ready''" | "k = ''result''" | "k = ''error''" | "k \<in> set stream_kinds"
    using guest_kind_cases [OF assms(1)] by blast
  then show ?thesis
  proof cases
    case 1
    with assms(2) show ?thesis by (simp add: receive_allowed_def proto_step.ready)
  next
    case 2
    with assms(2) show ?thesis by (simp add: receive_allowed_def proto_step.finish)
  next
    case 3
    with assms(2) show ?thesis by (simp add: receive_allowed_def proto_step.finish)
  next
    case 4
    then have ne: "k \<noteq> ''ready''" "k \<notin> {''result'', ''error''}" by (auto simp: stream_kinds_def)
    then have "st = Running \<or> st = StopRequested" using assms(2) by (auto simp: receive_allowed_def)
    with 4 have "proto_step st (Received k) st" by (rule proto_step.stream)
    with ne show ?thesis by simp
  qed
qed

lemma step_simulates:
  assumes "broker_step c a b = (r, b')"
  shows "\<exists>es. proto_run (bk_state b) es (bk_state b') \<and> filter frame_event es = events_of a r"
proof (cases a)
  case (BSend kind payload)
  obtain r1 b1 where s: "bsend c kind payload b = (r1, b1)" by (cases "bsend c kind payload b")
  show ?thesis
  proof (cases rule: bsend_cases [OF s])
    case (1 f sk)
    have k: "fr_kind f = kind" using 1(5) by (auto simp: make_frame_Inr)
    have "proto_run (bk_state b) [Sent kind] (bk_state b1)"
      using host_kind_step [OF 1(3,4)] 1(6) by (auto simp: proto_run_Cons)
    with assms BSend s 1(1) k show ?thesis
      by (intro exI [of _ "[Sent kind]"]) (auto simp: abind_def)
  next
    case (2 e)
    with assms BSend s show ?thesis by (intro exI [of _ "[]"]) (auto simp: abind_def)
  next
    case (3 e sk)
    with assms BSend s show ?thesis
      by (intro exI [of _ "[Failed]"]) (auto simp: abind_def proto_run_Cons intro: proto_step.failed)
  next
    case (4 e sk)
    with assms BSend s show ?thesis by (intro exI [of _ "[]"]) (auto simp: abind_def)
  qed
next
  case BReceive
  obtain r1 b1 where s: "breceive c b = (r1, b1)" by (cases "breceive c b")
  show ?thesis
  proof (cases rule: breceive_cases [OF s])
    case (1 f sk)
    have "proto_run (bk_state b) [Received (fr_kind f)] (bk_state b1)"
      using guest_kind_step [OF 1(8,9)] 1(10) by (auto simp: proto_run_Cons)
    with assms BReceive s 1(1) show ?thesis
      by (intro exI [of _ "[Received (fr_kind f)]"]) (auto simp: abind_def)
  next
    case (2 e)
    with assms BReceive s show ?thesis by (intro exI [of _ "[]"]) (auto simp: abind_def)
  next
    case (3 e sk)
    with assms BReceive s show ?thesis
      by (intro exI [of _ "[Failed]"]) (auto simp: abind_def proto_run_Cons intro: proto_step.failed)
  next
    case (4 e sk)
    with assms BReceive s show ?thesis by (intro exI [of _ "[]"]) (auto simp: abind_def)
  qed
next
  case BClose
  show ?thesis
  proof (cases "bk_closed b")
    case True
    with assms BClose show ?thesis
      by (intro exI [of _ "[]"]) (auto simp: bclose_def abind_def)
  next
    case False
    with assms BClose show ?thesis
      by (intro exI [of _ "[Shut]"]) (auto simp: bclose_def abind_def proto_run_Cons intro: proto_step.shut)
  qed
qed

lemma session_simulates:
  "\<exists>es. proto_run (bk_state b) es (bk_state (snd (broker_session c as b)))
     \<and> filter frame_event es = concat (map2 events_of as (fst (broker_session c as b)))"
proof (induction as arbitrary: b)
  case (Cons a as)
  obtain r b1 where s: "broker_step c a b = (r, b1)" by (cases "broker_step c a b")
  obtain es where es: "proto_run (bk_state b) es (bk_state b1)" "filter frame_event es = events_of a r"
    using step_simulates [OF s] by blast
  obtain fs where fs: "proto_run (bk_state b1) fs (bk_state (snd (broker_session c as b1)))"
    "filter frame_event fs = concat (map2 events_of as (fst (broker_session c as b1)))"
    using Cons.IH by blast
  show ?case
    using s es(2) fs(2) proto_run_append [OF es(1) fs(1)] by (intro exI [of _ "es @ fs"]) auto
qed (auto intro: exI [of _ "[]"])

section \<open>Facts of the protocol\<close>

lemma no_run_once_running:
  "proto_run st es st' \<Longrightarrow> st \<notin> {New, Ready} \<Longrightarrow> Sent ''run'' \<notin> set es \<and> Received ''ready'' \<notin> set es"
proof (induction rule: proto_run.induct)
  case (more st e st1 es st2)
  have "e \<noteq> Sent ''run'' \<and> e \<noteq> Received ''ready'' \<and> st1 \<notin> {New, Ready}"
    using more.hyps(1) more.prems by cases (auto simp: stream_kinds_def)
  with more.IH show ?case by auto
qed simp

lemma no_run_before_ready:
  "proto_run st es st' \<Longrightarrow> st = New \<Longrightarrow> Received ''ready'' \<notin> set es \<Longrightarrow> Sent ''run'' \<notin> set es"
proof (induction rule: proto_run.induct)
  case (more st e st1 es st2)
  from more.hyps(1) more.prems have "e \<noteq> Sent ''run'' \<and> (st1 = New \<or> st1 \<notin> {New, Ready})"
    by cases auto
  then show ?case
    using more.IH more.prems no_run_once_running [OF more.hyps(2)] by auto
qed simp

lemma proto_run_split:
  "proto_run st (xs @ ys) st2 \<Longrightarrow> \<exists>st1. proto_run st xs st1 \<and> proto_run st1 ys st2"
proof (induction xs arbitrary: st)
  case (Cons e xs)
  then obtain st1 where "proto_step st e st1" "proto_run st1 (xs @ ys) st2"
    by (auto simp: proto_run_Cons)
  with Cons.IH [of st1] show ?case by (auto simp: proto_run_Cons)
qed simp

lemma never_ready_again:
  "proto_run st es st' \<Longrightarrow> st \<notin> {New, Ready} \<Longrightarrow> st' \<notin> {New, Ready}"
proof (induction rule: proto_run.induct)
  case (more st e st1 es st2)
  have "st1 \<notin> {New, Ready}" using more.hyps(1) more.prems by cases auto
  with more.IH show ?case .
qed

lemma not_ready_without_ready:
  "proto_run st es st' \<Longrightarrow> st \<noteq> Ready \<Longrightarrow> Received ''ready'' \<notin> set es \<Longrightarrow> st' \<noteq> Ready"
proof (induction rule: proto_run.induct)
  case (more st e st1 es st2)
  have "st1 \<noteq> Ready" using more.hyps(1) more.prems by cases auto
  with more.IH more.prems show ?case by simp
qed simp

lemma run_needs_ready:
  assumes "proto_run New (us @ Sent ''run'' # vs) st'"
  shows "Received ''ready'' \<in> set us \<and> Sent ''run'' \<notin> set us \<and> Sent ''run'' \<notin> set vs"
proof -
  obtain st1 where u: "proto_run New us st1" and s: "proto_run st1 (Sent ''run'' # vs) st'"
    using proto_run_split [OF assms] by blast
  from s have r: "st1 = Ready" and v: "proto_run Running vs st'"
    by (auto simp: proto_run_Cons elim!: proto_SentE)
  have "Sent ''run'' \<notin> set us"
  proof
    assume "Sent ''run'' \<in> set us"
    then obtain as bs where us: "us = as @ Sent ''run'' # bs" by (meson split_list)
    obtain st2 where "proto_run st2 (Sent ''run'' # bs) st1"
      using u us proto_run_split by blast
    then have "proto_run Running bs st1" by (auto simp: proto_run_Cons elim!: proto_SentE)
    from never_ready_again [OF this] r show False by simp
  qed
  moreover have "Received ''ready'' \<in> set us" using not_ready_without_ready [OF u] r by auto
  moreover have "Sent ''run'' \<notin> set vs" using no_run_once_running [OF v] by simp
  ultimately show ?thesis by blast
qed

section \<open>Sequence numbers\<close>

fun sent_seq :: "broker_op \<times> (exn + frame option) \<Rightarrow> nat option" where
  "sent_seq (BSend k p, Inr (Some f)) = Some (nat (fr_sequence f))"
| "sent_seq _ = None"

fun received_seq :: "broker_op \<times> (exn + frame option) \<Rightarrow> nat option" where
  "received_seq (BReceive, Inr (Some f)) = Some (nat (fr_sequence f))"
| "received_seq _ = None"

text \<open>The step with its operation in the answer, so that a stamp can tell sends from receives.\<close>

definition broker_step_op ::
  "cbor \<Rightarrow> broker_op \<Rightarrow> broker \<Rightarrow> (broker_op \<times> (exn + frame option)) \<times> broker" where
  "broker_step_op c a b = ((a, fst (broker_step c a b)), snd (broker_step c a b))"

lemma run_ops_with_op:
  "fst (run_ops (broker_step_op c) as b) = zip as (fst (broker_session c as b))"
  "snd (run_ops (broker_step_op c) as b) = snd (broker_session c as b)"
  by (induction as arbitrary: b) (simp_all add: broker_step_op_def)

lemma step_seqs:
  assumes "broker_step c a b = (r, b')"
  shows "(case sent_seq (a, r) of None \<Rightarrow> bk_send_seq b' = bk_send_seq b
          | Some n \<Rightarrow> n = bk_send_seq b \<and> bk_send_seq b' = Suc n)
    \<and> (case received_seq (a, r) of None \<Rightarrow> bk_recv_seq b' = bk_recv_seq b
          | Some n \<Rightarrow> n = bk_recv_seq b \<and> bk_recv_seq b' = Suc n)"
proof (cases a)
  case (BSend kind payload)
  obtain r1 b1 where s: "bsend c kind payload b = (r1, b1)" by (cases "bsend c kind payload b")
  show ?thesis
    using assms BSend s
    by (cases rule: bsend_cases [OF s]) (auto simp: abind_def make_frame_Inr)
next
  case BReceive
  obtain r1 b1 where s: "breceive c b = (r1, b1)" by (cases "breceive c b")
  show ?thesis
    using assms BReceive s by (cases rule: breceive_cases [OF s]) (auto simp: abind_def)
next
  case BClose
  with assms show ?thesis by (auto simp: bclose_def abind_def split: if_splits)
qed

interpretation sent: stamped_machine "broker_step_op c" "\<lambda>_. True" sent_seq bk_send_seq for c
proof unfold_locales
  fix a b n
  show "bk_send_seq b \<le> bk_send_seq (snd (broker_step_op c a b))"
    using step_seqs [of c a b] by (cases "broker_step c a b") (auto simp: broker_step_op_def split: option.splits)
  show "sent_seq (fst (broker_step_op c a b)) = Some n \<Longrightarrow>
      bk_send_seq b \<le> n \<and> n < bk_send_seq (snd (broker_step_op c a b))"
    using step_seqs [of c a b] by (cases "broker_step c a b") (auto simp: broker_step_op_def)
qed simp

interpretation received: stamped_machine "broker_step_op c" "\<lambda>_. True" received_seq bk_recv_seq for c
proof unfold_locales
  fix a b n
  show "bk_recv_seq b \<le> bk_recv_seq (snd (broker_step_op c a b))"
    using step_seqs [of c a b] by (cases "broker_step c a b") (auto simp: broker_step_op_def split: option.splits)
  show "received_seq (fst (broker_step_op c a b)) = Some n \<Longrightarrow>
      bk_recv_seq b \<le> n \<and> n < bk_recv_seq (snd (broker_step_op c a b))"
    using step_seqs [of c a b] by (cases "broker_step c a b") (auto simp: broker_step_op_def)
qed

lemma received_consecutive:
  "stamps received_seq (zip as (fst (broker_session c as b)))
     = [bk_recv_seq b ..< bk_recv_seq (snd (broker_session c as b))]"
proof (induction as arbitrary: b)
  case (Cons a as)
  obtain r b1 where s: "broker_step c a b = (r, b1)" by (cases "broker_step c a b")
  have le: "bk_recv_seq b1 \<le> bk_recv_seq (snd (broker_session c as b1))"
    using received.run_counter [of b1 c as] by (simp add: run_ops_with_op)
  show ?case
    using step_seqs [OF s] Cons.IH [of b1] s le
    by (auto simp: upt_conv_Cons split: option.splits)
qed simp

lemma filter_append_split:
  "filter P es = xs @ y # ys \<Longrightarrow> \<exists>us vs. es = us @ y # vs \<and> filter P us = xs \<and> filter P vs = ys \<and> P y"
proof (induction es arbitrary: xs)
  case (Cons e es)
  show ?case
  proof (cases "P e")
    case False
    with Cons.prems Cons.IH [of xs] obtain us vs where
      "es = us @ y # vs" "filter P us = xs" "filter P vs = ys" "P y" by auto
    with False show ?thesis by (intro exI [of _ "e # us"] exI [of _ vs]) simp
  next
    case True
    show ?thesis
    proof (cases xs)
      case Nil
      with Cons.prems True show ?thesis by (intro exI [of _ "[]"] exI [of _ es]) simp
    next
      case (Cons x xs')
      with Cons.prems True have "e = x" "filter P es = xs' @ y # ys" by auto
      with Cons.IH [of xs'] obtain us vs where
        "es = us @ y # vs" "filter P us = xs'" "filter P vs = ys" "P y" by auto
      with True \<open>e = x\<close> Cons show ?thesis by (intro exI [of _ "e # us"] exI [of _ vs]) simp
    qed
  qed
qed simp

section \<open>Properties of the broker\<close>

text \<open>A session for the witnesses: the guest has sent its ready frame.\<close>

definition sample_broker :: broker where
  "sample_broker = \<lparr>bk_sock = sample_sock [0, 0, 0, 2, 7, 9], bk_run_id = ''r'', bk_token_id = ''t'',
     bk_nonce = ''n'', bk_max_bytes = 100, bk_send_seq = 0, bk_recv_seq = 0, bk_state = New,
     bk_closed = False\<rparr>"

lemma sample_broker_init:
  "broker_init (sample_sock [0, 0, 0, 2, 7, 9]) ''r'' ''t'' ''n'' 100 = Inr sample_broker"
  by (simp add: broker_init_def max_frame_bytes_def sample_broker_def)

definition sample_ops :: "broker_op list" where
  "sample_ops = [BSend ''bootstrap'' [], BReceive, BSend ''run'' [], BSend ''run'' []]"

lemma sample_events:
  "concat (map2 events_of sample_ops (fst (broker_session sample_cbor sample_ops sample_broker)))
     = [Sent ''bootstrap'', Received ''ready'', Sent ''run'']"
  by code_simp

text \<open>
  C5: the session refines the protocol. Every sequence of operations on a new session is a run
  of the abstract protocol from its initial state to the state the session ends in, whose frame
  events are exactly the frames the operations sent and accepted, in order.
\<close>

theorem session_refines_protocol:
  assumes "broker_init sk rid tid nc max_bytes = Inr b"
  shows "\<exists>es. proto_run New es (bk_state (snd (broker_session c as b)))
    \<and> filter frame_event es = concat (map2 events_of as (fst (broker_session c as b)))"
proof -
  have "bk_state b = New" using assms by (auto simp: broker_init_def split: if_splits)
  then show ?thesis using session_simulates [of b c as] by simp
qed

theorem session_refines_protocol_witness:
  "\<exists>es. proto_run New es (bk_state (snd (broker_session sample_cbor sample_ops sample_broker)))
     \<and> filter frame_event es = [Sent ''bootstrap'', Received ''ready'', Sent ''run'']"
  using session_refines_protocol [OF sample_broker_init, of sample_cbor sample_ops]
  unfolding sample_events .

text \<open>
  C33: a workflow is started at most once, and only after the guest reported ready: among the
  frames of a session, a \<open>run\<close> is preceded by \<open>ready\<close> and is the only \<open>run\<close>.
\<close>

theorem run_once_after_ready:
  assumes "broker_init sk rid tid nc max_bytes = Inr b"
    and "concat (map2 events_of as (fst (broker_session c as b))) = xs @ Sent ''run'' # ys"
  shows "Received ''ready'' \<in> set xs \<and> Sent ''run'' \<notin> set xs \<and> Sent ''run'' \<notin> set ys"
proof -
  have new: "bk_state b = New" using assms(1) by (auto simp: broker_init_def split: if_splits)
  obtain es st' where es: "proto_run New es st'" "filter frame_event es = xs @ Sent ''run'' # ys"
    using session_simulates [of b c as] assms(2) new by auto
  obtain us vs where uv: "es = us @ Sent ''run'' # vs" "filter frame_event us = xs"
    "filter frame_event vs = ys"
    using filter_append_split [OF es(2)] by blast
  from run_needs_ready [OF es(1) [unfolded uv(1)]] uv(2,3) show ?thesis by auto
qed

theorem run_once_after_ready_witness:
  "Received ''ready'' \<in> set [Sent ''bootstrap'', Received ''ready'']
   \<and> concat (map2 events_of sample_ops (fst (broker_session sample_cbor sample_ops sample_broker)))
      = [Sent ''bootstrap'', Received ''ready''] @ Sent ''run'' # []"
proof -
  have e: "concat (map2 events_of sample_ops (fst (broker_session sample_cbor sample_ops sample_broker)))
      = [Sent ''bootstrap'', Received ''ready''] @ Sent ''run'' # []"
    unfolding sample_events by simp
  show ?thesis using run_once_after_ready [OF sample_broker_init e] e by blast
qed

text \<open>
  no guest frame is replayed, skipped or reordered: the sequence numbers of the frames a
  new session accepts are 0, 1, 2 and so on, and those of the frames it sends are strictly
  increasing.
\<close>

theorem accepted_frames_consecutive:
  assumes "broker_init sk rid tid nc max_bytes = Inr b"
  shows "(\<exists>n. stamps received_seq (zip as (fst (broker_session c as b))) = [0..<n])
    \<and> sorted_wrt (<) (stamps sent_seq (zip as (fst (broker_session c as b))))"
proof -
  have "bk_recv_seq b = 0" using assms by (auto simp: broker_init_def split: if_splits)
  with received_consecutive [of as c b] sent.run_stamps_increasing [of c as b] show ?thesis
    by (auto simp: run_ops_with_op)
qed

theorem accepted_frames_consecutive_witness:
  "\<exists>n. stamps received_seq (zip sample_ops (fst (broker_session sample_cbor sample_ops sample_broker)))
     = [0..<n]"
  using accepted_frames_consecutive [OF sample_broker_init] by blast

text \<open>
  an accepted frame belongs to the session: it carries the session's run, token and nonce,
  the expected sequence number and a kind the guest may send in the current state; any other
  frame ends the session.
\<close>

theorem accepted_frame_in_session:
  "case breceive c b of
     (Inr f, b') \<Rightarrow> \<not> bk_closed b \<and> fr_run_id f = bk_run_id b \<and> fr_token_id f = bk_token_id b
       \<and> fr_nonce f = bk_nonce b \<and> fr_sequence f = int (bk_recv_seq b)
       \<and> bk_state b \<in> set (receive_allowed (fr_kind f)) \<and> bk_recv_seq b' = Suc (bk_recv_seq b)
   | (Inl e, b') \<Rightarrow> bk_recv_seq b' = bk_recv_seq b \<and> (bk_state b' = Terminal \<or> bk_state b' = bk_state b)"
proof -
  obtain r b' where s: "breceive c b = (r, b')" by (cases "breceive c b")
  show ?thesis
    using s by (cases rule: breceive_cases [OF s]) (auto simp: s)
qed

text \<open>
  \<open>bootstrap\<close> is its send followed by its receive: the check of the answer's kind that
  follows can never refuse, because in the state a bootstrap is sent in, only \<open>ready\<close> is
  accepted.
\<close>

theorem bootstrap_two_steps:
  "bootstrap c contract b = abind (bsend c ''bootstrap'' contract) (\<lambda>_. breceive c) b"
proof -
  obtain r b1 where s: "bsend c ''bootstrap'' contract b = (r, b1)"
    by (cases "bsend c ''bootstrap'' contract b")
  show ?thesis
  proof (cases rule: bsend_cases [OF s])
    case (1 f sk)
    have new: "bk_state b1 = New" using 1(4,6) by (simp add: send_allowed_def)
    obtain r2 b2 where v: "breceive c b1 = (r2, b2)" by (cases "breceive c b1")
    have "r2 = Inr g \<Longrightarrow> fr_kind g = ''ready''" for g
      using new by (cases rule: breceive_cases [OF v]) (auto simp: receive_allowed_def split: if_splits)
    with s v 1(1) show ?thesis by (cases r2) (simp_all add: bootstrap_def abind_def)
  qed (use s in \<open>simp_all add: bootstrap_def abind_def\<close>)
qed

end
