(* ===== verification/Orchestrator.thy ===== *)
theory Orchestrator
  imports Prelude "HOL-Library.Multiset"
begin

text \<open>
  The workflow executor: \<open>src/testudo/orchestrator/executor.py\<close>, with the tool registry
  (\<open>registry.py\<close>) and the models it runs on (\<open>workflow.py\<close>, \<open>context.py\<close>).

  A tool is a number; what calling it returns or raises is a parameter (\<open>invoke\<close>), as are the
  attributes of a value that is not a dict (\<open>attr_of\<close>, \<open>None\<close> where \<open>getattr\<close> raises) and the
  printing of floats. The permissions and the audit log of a \<open>StepContext\<close> are the same for
  every step of a run: they belong to the parameter \<open>invoke\<close>, not to the record.
  \<open>_topological_sort\<close> recurses along \<open>needs\<close>; it takes fuel, and one more
  than the number of steps is shown to be enough.
\<close>

record wf_step =
  st_id :: string
  st_uses :: string
  st_needs :: "string list"
  st_with :: pydict
  st_when :: "string option"

record workflow =
  wf_name :: string
  wf_steps :: "wf_step list"

record step_context =
  cx_run_id :: string
  cx_workflow :: string
  cx_step_id :: string

record step_result =
  sr_output :: pyval
  sr_skipped :: bool
  sr_error :: "string option"

record audit_event =
  au_type :: string
  au_run_id :: string
  au_workflow :: string
  au_step_id :: string
  au_args :: "pydict option"
  au_decision :: "pydict option"
  au_exit_status :: "int option"
  au_error :: "string option"

record exec_env =
  attr_of :: "pyval \<Rightarrow> string \<Rightarrow> pyval option"
  float_repr :: "rat \<Rightarrow> string"
  invoke :: "nat \<Rightarrow> step_context \<Rightarrow> pydict \<Rightarrow> exn + pyval"

section \<open>The registry\<close>

type_synonym tool_registry = "(string \<times> nat) list"

definition register :: "string \<Rightarrow> nat \<Rightarrow> (tool_registry, nat) act" where
  "register name fn = awith (\<lambda>tools.
     if map_of tools name \<noteq> None then
       araise (ValueError (''Tool already registered: '' @ py_repr name))
     else abind (aset (\<lambda>tools. tools @ [(name, fn)])) (\<lambda>_. aret fn))"

definition resolve_tool :: "tool_registry \<Rightarrow> string \<Rightarrow> exn + nat" where
  "resolve_tool tools name =
     (case map_of tools name of
        None \<Rightarrow> Inl (KeyError (''Tool not registered: '' @ py_repr name))
      | Some fn \<Rightarrow> Inr fn)"

section \<open>Printing values\<close>

fun repr_val :: "(rat \<Rightarrow> string) \<Rightarrow> pyval \<Rightarrow> string" where
  "repr_val fr PNone = ''None''"
| "repr_val fr (PBool b) = (if b then ''True'' else ''False'')"
| "repr_val fr (PInt n) = int_str n"
| "repr_val fr (PFloat q) = fr q"
| "repr_val fr (PStr s) = py_repr s"
| "repr_val fr (PList xs) = ''['' @ comma_join (map (repr_val fr) xs) @ '']''"
| "repr_val fr (PDict d) =
     CHR 0x7B # comma_join (map (\<lambda>(k, v). py_repr k @ '': '' @ repr_val fr v) d) @ [CHR 0x7D]"

text \<open>\<open>str(v)\<close>\<close>

fun str_val :: "(rat \<Rightarrow> string) \<Rightarrow> pyval \<Rightarrow> string" where
  "str_val fr (PStr s) = s"
| "str_val fr v = repr_val fr v"

section \<open>References\<close>

fun walk :: "exec_env \<Rightarrow> string \<Rightarrow> string list \<Rightarrow> pyval \<Rightarrow> exn + pyval" where
  "walk env ref [] v = Inr v"
| "walk env ref (part # parts) v =
     (case v of
        PDict d \<Rightarrow>
          (case map_of d part of
             None \<Rightarrow> Inl (KeyError (''Missing key '' @ py_repr part @ '' in reference '' @ py_repr ref))
           | Some w \<Rightarrow> walk env ref parts w)
      | _ \<Rightarrow>
          (case attr_of env v part of
             None \<Rightarrow> Inl (AttributeError part)
           | Some w \<Rightarrow> walk env ref parts w))"

definition resolve_ref :: "exec_env \<Rightarrow> pydict \<Rightarrow> pydict \<Rightarrow> string \<Rightarrow> exn + pyval" where
  "resolve_ref env inputs outputs ref =
     (let parts = split_on dot ref; rt = hd parts in
      if rt = ''inputs'' then walk env ref (tl parts) (PDict inputs)
      else if rt = ''steps'' then
        (if length parts < 2 then
           Inl (ValueError (''Reference '' @ py_repr ref @ '' requires a step ID''))
         else let step_id = parts ! 1 in
           (case map_of outputs step_id of
              None \<Rightarrow> Inl (KeyError (''Step output not yet available: '' @ py_repr step_id))
            | Some v \<Rightarrow> walk env ref (drop 2 parts) v))
      else Inl (ValueError (''Unknown reference root: '' @ py_repr rt)))"

definition open_ref :: string where "open_ref = [CHR ''$'', CHR 0x7B]"

definition plain_ref_char :: "char \<Rightarrow> bool" where
  "plain_ref_char c \<longleftrightarrow> c \<noteq> CHR ''$'' \<and> c \<noteq> CHR 0x7B \<and> c \<noteq> CHR 0x7D"

text \<open>\<open>s.count("${")\<close>\<close>

fun count_open :: "string \<Rightarrow> nat" where
  "count_open [] = 0"
| "count_open (c # cs) = (if prefix open_ref (c # cs) then 1 else 0) + count_open cs"

text \<open>
  \<open>re.sub\<close> with the pattern of a reference: at each position from the left, \<open>${\<close>, one or
  more characters other than \<open>$\<close>, \<open>{\<close> and \<open>}\<close>, then \<open>}\<close>; anything else is copied.
\<close>

function interpolate :: "(string \<Rightarrow> exn + string) \<Rightarrow> string \<Rightarrow> exn + string" where
  "interpolate f [] = Inr []"
| "interpolate f (c # cs) =
     (let body = takeWhile plain_ref_char (tl cs); rest = dropWhile plain_ref_char (tl cs) in
      if prefix open_ref (c # cs) \<and> body \<noteq> [] \<and> prefix [CHR 0x7D] rest then
        rbind (f body) (\<lambda>s. rbind (interpolate f (tl rest)) (\<lambda>t. Inr (s @ t)))
      else rbind (interpolate f cs) (\<lambda>t. Inr (c # t)))"
  by pat_completeness auto
termination
proof (relation "measure (\<lambda>(f, s). length s)", goal_cases)
  case (2 f c cs body rest x)
  have "length rest \<le> length (tl cs)" unfolding 2(2) by (rule length_dropWhile_le)
  then show ?case by (simp add: 2)
qed auto

definition exact_ref :: "string \<Rightarrow> bool" where
  "exact_ref s \<longleftrightarrow> (let stripped = py_strip s in
     prefix open_ref stripped \<and> suffix [CHR 0x7D] stripped \<and> count_open stripped = 1 \<and> s = stripped)"

text \<open>\<open>value[2:-1]\<close>\<close>

definition ref_body :: "string \<Rightarrow> string" where
  "ref_body s = butlast (drop 2 s)"

lemma rmap_cong [fundef_cong]:
  "\<lbrakk>xs = ys; \<And>x. x \<in> set ys \<Longrightarrow> f x = g x\<rbrakk> \<Longrightarrow> rmap f xs = rmap g ys"
  by (induction xs arbitrary: ys) auto

fun resolve :: "exec_env \<Rightarrow> pydict \<Rightarrow> pydict \<Rightarrow> pyval \<Rightarrow> exn + pyval" where
  "resolve env inputs outputs (PStr s) =
     (if exact_ref s then resolve_ref env inputs outputs (ref_body s)
      else if sublist open_ref s then
        rbind (interpolate (\<lambda>r. rbind (resolve_ref env inputs outputs r)
                 (\<lambda>v. Inr (str_val (float_repr env) v))) s) (\<lambda>t. Inr (PStr t))
      else Inr (PStr s))"
| "resolve env inputs outputs (PDict d) =
     rbind (rmap (\<lambda>(k, v). rbind (resolve env inputs outputs v) (\<lambda>w. Inr (k, w))) d) (\<lambda>e. Inr (PDict e))"
| "resolve env inputs outputs (PList xs) =
     rbind (rmap (resolve env inputs outputs) xs) (\<lambda>ys. Inr (PList ys))"
| "resolve env inputs outputs v = Inr v"

definition eval_when :: "exec_env \<Rightarrow> pydict \<Rightarrow> pydict \<Rightarrow> string \<Rightarrow> exn + bool" where
  "eval_when env inputs outputs e =
     (let expr = py_strip e in
      if prefix open_ref expr \<and> suffix [CHR 0x7D] expr then
        rbind (resolve_ref env inputs outputs (ref_body expr)) (\<lambda>v. Inr (truthy v))
      else Inl (ValueError (''Invalid when expression: '' @ py_repr expr
             @ '' (v0.1 supports '' @ open_ref @ ''ref'' @ [CHR 0x7D] @ '' truthiness only)'')))"

section \<open>Dependency order\<close>

record topo_state =
  ordered :: "wf_step list"
  visiting :: "string set"
  visited :: "string set"

text \<open>
  \<open>by_id = {s.id: s for s in steps}\<close>: of two steps with one id the later one stays.
\<close>

definition by_id :: "wf_step list \<Rightarrow> string \<Rightarrow> wf_step option" where
  "by_id steps = map_of (rev (map (\<lambda>s. (st_id s, s)) steps))"

text \<open>
  The closure \<open>visit\<close> and its loop over \<open>needs\<close>. The first argument bounds the depth of the
  recursion, as the interpreter's stack does; running out of it is the interpreter's
  \<open>RecursionError\<close>, a \<open>RuntimeError\<close>.
\<close>

fun visit :: "nat \<Rightarrow> (string \<Rightarrow> wf_step option) \<Rightarrow> string \<Rightarrow> topo_state \<Rightarrow> exn + topo_state"
  and visit_all :: "nat \<Rightarrow> (string \<Rightarrow> wf_step option) \<Rightarrow> string list \<Rightarrow> topo_state \<Rightarrow> exn + topo_state"
where
  "visit fuel steps node_id st =
     (if node_id \<in> visited st then Inr st
      else if node_id \<in> visiting st then
        Inl (WorkflowError (''Cycle detected at step '' @ py_repr node_id))
      else (case steps node_id of
        None \<Rightarrow> Inl (WorkflowError (''Unknown step ID in needs: '' @ py_repr node_id))
      | Some step \<Rightarrow>
          (case fuel of
             0 \<Rightarrow> Inl (RuntimeError ''maximum recursion depth exceeded'')
           | Suc fuel' \<Rightarrow>
               rbind (visit_all fuel' steps (st_needs step)
                        (st\<lparr>visiting := insert node_id (visiting st)\<rparr>))
                 (\<lambda>st'. Inr (st'\<lparr>visiting := visiting st' - {node_id},
                     visited := insert node_id (visited st'),
                     ordered := ordered st' @ [step]\<rparr>)))))"
| "visit_all fuel steps [] st = Inr st"
| "visit_all fuel steps (dep # deps) st =
     rbind (visit fuel steps dep st) (visit_all fuel steps deps)"

declare visit.simps [simp del]

definition topological_sort :: "wf_step list \<Rightarrow> exn + wf_step list" where
  "topological_sort steps =
     (if length (remdups (map st_id steps)) \<noteq> length steps then
        Inl (WorkflowError ''Duplicate step IDs in workflow'')
      else rbind (visit_all (Suc (length steps)) (by_id steps) (map st_id steps)
                    \<lparr>ordered = [], visiting = {}, visited = {}\<rparr>)
             (\<lambda>st. Inr (ordered st)))"

section \<open>The run\<close>

text \<open>\<open>self.audit\<close> is \<open>None\<close> or the log, here the list of the events emitted so far.\<close>

record exec_state =
  step_outputs :: pydict
  ex_results :: "(string \<times> step_result) list"
  audit_log :: "audit_event list option"

definition emit :: "audit_event \<Rightarrow> (exec_state, unit) act" where
  "emit event = aset (\<lambda>st. st\<lparr>audit_log := map_option (\<lambda>l. l @ [event]) (audit_log st)\<rparr>)"

definition step_event :: "string \<Rightarrow> step_context \<Rightarrow> audit_event" where
  "step_event kind ctx = \<lparr>au_type = kind, au_run_id = cx_run_id ctx, au_workflow = cx_workflow ctx,
     au_step_id = cx_step_id ctx, au_args = None, au_decision = None, au_exit_status = None,
     au_error = None\<rparr>"

definition set_result :: "string \<Rightarrow> step_result \<Rightarrow> (exec_state, unit) act" where
  "set_result i r = aset (\<lambda>st. st\<lparr>ex_results := AList.update i r (ex_results st)\<rparr>)"

definition set_output :: "string \<Rightarrow> pyval \<Rightarrow> (exec_state, unit) act" where
  "set_output i v = aset (\<lambda>st. st\<lparr>step_outputs := AList.update i v (step_outputs st)\<rparr>)"

text \<open>An \<open>except\<close> branch of the loop: the event with its error, the result, and \<open>continue\<close>.\<close>

definition fail_step :: "step_context \<Rightarrow> string \<Rightarrow> string \<Rightarrow> (exec_state, unit) act" where
  "fail_step ctx event_error result_error =
     abind (emit ((step_event ''step_end'' ctx)\<lparr>au_error := Some event_error\<rparr>)) (\<lambda>_.
       set_result (cx_step_id ctx)
         \<lparr>sr_output = PNone, sr_skipped = False, sr_error = Some result_error\<rparr>)"

definition skip_step :: "step_context \<Rightarrow> (exec_state, unit) act" where
  "skip_step ctx =
     abind (emit ((step_event ''step_end'' ctx)\<lparr>au_decision :=
         Some [(''skipped'', PBool True), (''reason'', PStr ''when=false'')]\<rparr>)) (\<lambda>_.
       set_result (cx_step_id ctx) \<lparr>sr_output = PNone, sr_skipped = True, sr_error = None\<rparr>)"

definition call_tool :: "exec_env \<Rightarrow> nat \<Rightarrow> step_context \<Rightarrow> pydict \<Rightarrow> (exec_state, unit) act" where
  "call_tool env tool ctx args =
     abind (emit ((step_event ''step_start'' ctx)\<lparr>au_args := Some args\<rparr>)) (\<lambda>_.
       case invoke env tool ctx args of
         Inl exc \<Rightarrow> let m = exn_name exc @ '': '' @ exn_str exc in fail_step ctx m m
       | Inr out \<Rightarrow>
           abind (emit ((step_event ''step_end'' ctx)\<lparr>au_exit_status := Some 0\<rparr>)) (\<lambda>_.
           abind (set_output (cx_step_id ctx) out) (\<lambda>_.
             set_result (cx_step_id ctx)
               \<lparr>sr_output = out, sr_skipped = False, sr_error = None\<rparr>)))"

text \<open>\<open>except (KeyError, ValueError)\<close>\<close>

fun is_KeyError :: "exn \<Rightarrow> bool" where
  "is_KeyError (KeyError _) = True"
| "is_KeyError _ = False"

definition caught :: "exn \<Rightarrow> bool" where
  "caught e \<longleftrightarrow> is_KeyError e \<or> is_ValueError e"

fun kwargs_of :: "pyval \<Rightarrow> pydict" where
  "kwargs_of (PDict d) = d"
| "kwargs_of _ = []"

definition start_step :: "exec_env \<Rightarrow> tool_registry \<Rightarrow> pydict \<Rightarrow> step_context \<Rightarrow> wf_step
    \<Rightarrow> (exec_state, unit) act" where
  "start_step env tools inputs ctx step = awith (\<lambda>st.
     case resolve env inputs (step_outputs st) (PDict (st_with step)) of
       Inl exc \<Rightarrow>
         if caught exc then
           fail_step ctx (''reference resolution failed: '' @ exn_str exc) (exn_str exc)
         else araise exc
     | Inr args \<Rightarrow>
         (case resolve_tool tools (st_uses step) of
            Inl exc \<Rightarrow> fail_step ctx (''tool resolution failed: '' @ exn_str exc) (exn_str exc)
          | Inr tool \<Rightarrow> call_tool env tool ctx (kwargs_of args)))"

definition run_step :: "exec_env \<Rightarrow> tool_registry \<Rightarrow> string \<Rightarrow> string \<Rightarrow> pydict \<Rightarrow> wf_step
    \<Rightarrow> (exec_state, unit) act" where
  "run_step env tools run_id wname inputs step =
     (let ctx = \<lparr>cx_run_id = run_id, cx_workflow = wname, cx_step_id = st_id step\<rparr> in
      case st_when step of
        None \<Rightarrow> start_step env tools inputs ctx step
      | Some e \<Rightarrow> awith (\<lambda>st.
          case eval_when env inputs (step_outputs st) e of
            Inl exc \<Rightarrow>
              if caught exc then
                fail_step ctx (''when-eval failed: '' @ exn_str exc) (exn_str exc)
              else araise exc
          | Inr proceed \<Rightarrow>
              if proceed then start_step env tools inputs ctx step else skip_step ctx))"

fun run_steps :: "exec_env \<Rightarrow> tool_registry \<Rightarrow> string \<Rightarrow> string \<Rightarrow> pydict \<Rightarrow> wf_step list
    \<Rightarrow> (exec_state, unit) act" where
  "run_steps env tools run_id wname inputs [] = aret ()"
| "run_steps env tools run_id wname inputs (step # steps) =
     abind (run_step env tools run_id wname inputs step) (\<lambda>_.
       run_steps env tools run_id wname inputs steps)"

text \<open>\<open>Executor.run\<close>, from an audit log (or none) to the results and the log it leaves.\<close>

definition run :: "exec_env \<Rightarrow> tool_registry \<Rightarrow> workflow \<Rightarrow> pydict \<Rightarrow> string
    \<Rightarrow> (audit_event list option, (string \<times> step_result) list) act" where
  "run env tools w inputs run_id l =
     (case topological_sort (wf_steps w) of
        Inl e \<Rightarrow> (Inl e, l)
      | Inr steps \<Rightarrow>
          (case run_steps env tools run_id (wf_name w) inputs steps
                  \<lparr>step_outputs = [], ex_results = [], audit_log = l\<rparr> of
             (r, st) \<Rightarrow> (map_sum id (\<lambda>_. ex_results st) r, audit_log st)))"

text \<open>The built-in tool: \<open>return {"echoed": dict(kwargs)}\<close>.\<close>

definition noop :: "step_context \<Rightarrow> pydict \<Rightarrow> exn + pyval" where
  "noop ctx kwargs = Inr (PDict [(''echoed'', PDict kwargs)])"

section \<open>The sort is correct and total\<close>

definition needs_before :: "wf_step list \<Rightarrow> bool" where
  "needs_before xs \<longleftrightarrow> (\<forall>i < length xs. set (st_needs (xs ! i)) \<subseteq> st_id ` set (take i xs))"

text \<open>The dependency relation: \<open>(d, i)\<close> when the step with id \<open>i\<close> needs \<open>d\<close>.\<close>

definition needs_rel :: "wf_step list \<Rightarrow> (string \<times> string) set" where
  "needs_rel steps = (\<Union>s \<in> set steps. (\<lambda>d. (d, st_id s)) ` set (st_needs s))"

definition topo_inv :: "wf_step list \<Rightarrow> topo_state \<Rightarrow> bool" where
  "topo_inv steps st \<longleftrightarrow> st_id ` set (ordered st) = visited st
     \<and> distinct (map st_id (ordered st)) \<and> set (ordered st) \<subseteq> set steps
     \<and> visiting st \<subseteq> st_id ` set steps \<and> visiting st \<inter> visited st = {}
     \<and> needs_before (ordered st)"

fun is_WorkflowError :: "exn \<Rightarrow> bool" where
  "is_WorkflowError (WorkflowError _) = True"
| "is_WorkflowError _ = False"

lemma needs_before_snoc:
  "needs_before (xs @ [x]) \<longleftrightarrow> needs_before xs \<and> set (st_needs x) \<subseteq> st_id ` set xs"
  unfolding needs_before_def by (auto simp: nth_append less_Suc_eq)

lemma by_id_Some: "by_id steps i = Some s \<Longrightarrow> s \<in> set steps \<and> st_id s = i"
  unfolding by_id_def by (auto dest!: map_of_SomeD)

lemma by_id_None: "by_id steps i = None \<longleftrightarrow> i \<notin> st_id ` set steps"
  unfolding by_id_def by (simp add: map_of_eq_None_iff image_image)

lemma topo_inv_enter:
  "\<lbrakk>topo_inv steps st; i \<notin> visited st; by_id steps i = Some s\<rbrakk>
    \<Longrightarrow> topo_inv steps (st\<lparr>visiting := insert i (visiting st)\<rparr>)"
  by (auto simp: topo_inv_def dest: by_id_Some)

lemma topo_inv_leave:
  assumes "topo_inv steps st" and "i \<in> visiting st" and "by_id steps i = Some s"
    and "set (st_needs s) \<subseteq> visited st"
  shows "topo_inv steps (st\<lparr>visiting := visiting st - {i}, visited := insert i (visited st),
           ordered := ordered st @ [s]\<rparr>)"
  using assms by_id_Some [OF assms(3)] by (auto simp: topo_inv_def needs_before_snoc)

definition visit_ok :: "wf_step list \<Rightarrow> string set \<Rightarrow> topo_state \<Rightarrow> exn + topo_state \<Rightarrow> bool" where
  "visit_ok steps ids st r \<longleftrightarrow> (case r of Inl e \<Rightarrow> is_WorkflowError e
     | Inr st' \<Rightarrow> topo_inv steps st' \<and> visiting st' = visiting st \<and> visited st \<union> ids \<subseteq> visited st')"

lemma card_enter:
  assumes "i \<in> ids" and "i \<notin> V" and "finite ids" and "card (ids - V) < fuel"
  shows "\<exists>fuel'. fuel = Suc fuel' \<and> card (ids - insert i V) < fuel'"
proof -
  have "card (ids - insert i V) < card (ids - V)"
    by (rule psubset_card_mono) (use assms in auto)
  with assms(4) show ?thesis by (cases fuel) auto
qed

lemma visit_sound:
  "\<lbrakk>m = by_id steps; topo_inv steps st; card (st_id ` set steps - visiting st) < fuel\<rbrakk>
     \<Longrightarrow> visit_ok steps {i} st (visit fuel m i st)"
  "\<lbrakk>m = by_id steps; topo_inv steps st; card (st_id ` set steps - visiting st) < fuel\<rbrakk>
     \<Longrightarrow> visit_ok steps (set is) st (visit_all fuel m is st)"
proof (induction fuel m i st and fuel m "is" st rule: visit_visit_all.induct)
  case (1 fuel m i st)
  show ?case
  proof (cases "i \<in> visited st \<or> i \<in> visiting st \<or> m i = None")
    case True
    then show ?thesis using 1 by (auto simp: visit.simps [of fuel] visit_ok_def)
  next
    case False
    then obtain s where s: "m i = Some s" by auto
    then have i: "i \<in> st_id ` set steps" using 1 by_id_Some by blast
    obtain k where k: "fuel = Suc k" "card (st_id ` set steps - insert i (visiting st)) < k"
      using card_enter [OF i _ _ 1(4)] False by auto
    let ?st = "st\<lparr>visiting := insert i (visiting st)\<rparr>"
    have inv: "topo_inv steps ?st" using topo_inv_enter 1 False s by blast
    have "visit_ok steps (set (st_needs s)) ?st (visit_all k m (st_needs s) ?st)"
      using 1(1) [of s k] False s k inv 1(2) by simp
    note all = this
    have v: "visit fuel m i st = rbind (visit_all k m (st_needs s) ?st)
        (\<lambda>st'. Inr (st'\<lparr>visiting := visiting st' - {i}, visited := insert i (visited st'),
           ordered := ordered st' @ [s]\<rparr>))"
      using False s k by (simp add: visit.simps [of "Suc k"])
    show ?thesis
    proof (cases "visit_all k m (st_needs s) ?st")
      case (Inl e)
      then show ?thesis using all v by (simp add: visit_ok_def)
    next
      case (Inr st')
      then have st': "topo_inv steps st'" "visiting st' = insert i (visiting st)"
        "set (st_needs s) \<subseteq> visited st'" "visited st \<subseteq> visited st'"
        using all by (auto simp: visit_ok_def)
      have "i \<in> visiting st'" using st'(2) by simp
      from topo_inv_leave [OF st'(1) this _ st'(3)] s 1(2) show ?thesis
        using v Inr st' False by (auto simp: visit_ok_def)
    qed
  qed
next
  case (3 fuel m dep deps st)
  note d = 3(1) [OF 3(3-5)]
  show ?case
  proof (cases "visit fuel m dep st")
    case (Inl e)
    then show ?thesis using d by (simp add: visit_ok_def)
  next
    case (Inr st')
    then have "visit_ok steps (set deps) st' (visit_all fuel m deps st')"
      using d 3(2) [of st'] 3(3-5) Inr by (simp add: visit_ok_def)
    then show ?thesis using d Inr by (auto simp: visit_ok_def split: sum.splits)
  qed
qed (simp add: visit_ok_def)

text \<open>
  Without a cycle and with every dependency known, no visit fails: a step that is being
  visited depends on the one about to be visited, so meeting it again would close a cycle.
\<close>

lemma visit_complete:
  assumes "acyclic (needs_rel steps)"
    and "(\<Union>s \<in> set steps. set (st_needs s)) \<subseteq> st_id ` set steps"
  shows "\<lbrakk>m = by_id steps; i \<in> st_id ` set steps; \<And>v. v \<in> visiting st \<Longrightarrow> (i, v) \<in> (needs_rel steps)\<^sup>+;
      topo_inv steps st; card (st_id ` set steps - visiting st) < fuel\<rbrakk>
     \<Longrightarrow> \<exists>st'. visit fuel m i st = Inr st'"
    and "\<lbrakk>m = by_id steps; set is \<subseteq> st_id ` set steps;
      \<And>i v. i \<in> set is \<Longrightarrow> v \<in> visiting st \<Longrightarrow> (i, v) \<in> (needs_rel steps)\<^sup>+;
      topo_inv steps st; card (st_id ` set steps - visiting st) < fuel\<rbrakk>
     \<Longrightarrow> \<exists>st'. visit_all fuel m is st = Inr st'"
proof (induction fuel m i st and fuel m "is" st rule: visit_visit_all.induct)
  case (1 fuel m i st)
  show ?case
  proof (cases "i \<in> visited st")
    case False
    have fresh: "i \<notin> visiting st" using 1(4) assms(1) by (auto simp: acyclic_def)
    obtain s where s: "m i = Some s" using 1(2,3) by_id_None by fastforce
    then have S: "s \<in> set steps" "st_id s = i" using 1(2) by_id_Some by auto
    obtain k where k: "fuel = Suc k" "card (st_id ` set steps - insert i (visiting st)) < k"
      using card_enter [OF 1(3) fresh _ 1(6)] by auto
    let ?st = "st\<lparr>visiting := insert i (visiting st)\<rparr>"
    have dep: "(d, i) \<in> needs_rel steps" if "d \<in> set (st_needs s)" for d
      using that S by (auto simp: needs_rel_def)
    have "(d, v) \<in> (needs_rel steps)\<^sup>+" if "d \<in> set (st_needs s)" "v \<in> insert i (visiting st)" for d v
      using dep [OF that(1)] that(2) 1(4) by (blast intro: trancl_into_trancl2)
    moreover have "set (st_needs s) \<subseteq> st_id ` set steps" using S(1) assms(2) by blast
    ultimately have "\<exists>st'. visit_all k m (st_needs s) ?st = Inr st'"
      using 1(1) [of s k] False fresh s k 1(2) topo_inv_enter [OF 1(5) False] by simp
    then show ?thesis using False fresh s k(1) by (auto simp: visit.simps [of "Suc k"])
  qed (simp add: visit.simps [of fuel])
next
  case (3 fuel m dep deps st)
  then obtain st' where st': "visit fuel m dep st = Inr st'" by auto
  then have "topo_inv steps st'" "visiting st' = visiting st"
    using visit_sound(1) [OF 3(3,6,7), of dep] by (simp_all add: visit_ok_def)
  then have "\<exists>st2. visit_all fuel m deps st' = Inr st2"
    using 3(2) [of st'] 3(3-7) by simp
  with st' show ?case by simp
qed simp

lemma topo_start:
  fixes steps :: "wf_step list"
  defines "st0 \<equiv> \<lparr>ordered = [], visiting = {}, visited = {}\<rparr>"
  shows "topo_inv steps st0" and "card (st_id ` set steps - visiting st0) < Suc (length steps)"
  using card_image_le [of "set steps" st_id] card_length [of steps]
  by (simp_all add: st0_def topo_inv_def needs_before_def)

lemma remdups_length_distinct: "length (remdups xs) = length xs \<longleftrightarrow> distinct xs"
  by (simp add: distinct_card length_remdups_card_conv card_distinct iffI)

lemma topological_sort_cases:
  obtains e where "topological_sort steps = Inl (WorkflowError e)"
  | xs where "topological_sort steps = Inr xs" "distinct (map st_id steps)"
      "distinct (map st_id xs)" "set xs = set steps" "needs_before xs"
proof -
  let ?st0 = "\<lparr>ordered = [], visiting = {}, visited = {}\<rparr>"
  let ?v = "visit_all (Suc (length steps)) (by_id steps) (map st_id steps) ?st0"
  show thesis
  proof (cases "distinct (map st_id steps)")
    case False
    then have "topological_sort steps = Inl (WorkflowError ''Duplicate step IDs in workflow'')"
      using remdups_length_distinct [of "map st_id steps"] by (simp add: topological_sort_def)
    then show ?thesis by (rule that(1))
  next
    case True
    have T: "topological_sort steps = rbind ?v (\<lambda>st. Inr (ordered st))"
      using remdups_length_distinct [of "map st_id steps"] True by (simp add: topological_sort_def)
    have ok: "visit_ok steps (set (map st_id steps)) ?st0 ?v"
      by (rule visit_sound(2) [OF refl topo_start])
    show ?thesis
    proof (cases ?v)
      case (Inl e)
      then show ?thesis using ok T that(1) by (cases e) (simp_all add: visit_ok_def)
    next
      case (Inr st)
      then have inv: "topo_inv steps st" and "st_id ` set steps \<subseteq> visited st"
        using ok by (simp_all add: visit_ok_def)
      then have sub: "set (ordered st) \<subseteq> set steps" and "st_id ` set steps \<subseteq> st_id ` set (ordered st)"
        by (simp_all add: topo_inv_def)
      then have "st_id ` set steps = st_id ` set (ordered st)" by blast
      moreover have "inj_on st_id (set steps)" using True by (simp add: distinct_map)
      ultimately have "set (ordered st) = set steps" using sub by (metis inj_on_image_eq_iff order_refl)
      then show ?thesis using that(2) [of "ordered st"] T Inr inv True by (simp add: topo_inv_def)
    qed
  qed
qed

text \<open>Positions in an order that respects the dependencies show that there is no cycle.\<close>

lemma needs_before_acyclic:
  assumes "needs_before xs" and "distinct (map st_id xs)"
  shows "acyclic (needs_rel xs)"
proof -
  define pos where "pos = (\<lambda>i. THE n. n < length xs \<and> st_id (xs ! n) = i)"
  have pos: "pos (st_id (xs ! n)) = n" if "n < length xs" for n
    unfolding pos_def
    by (rule the_equality) (use that assms(2) in \<open>auto simp: distinct_conv_nth\<close>)
  have "pos d < pos i" if r: "(d, i) \<in> needs_rel xs" for d i
  proof -
    obtain s where s: "s \<in> set xs" "i = st_id s" "d \<in> set (st_needs s)"
      using r by (auto simp: needs_rel_def)
    obtain n where n: "n < length xs" "i = st_id (xs ! n)" "d \<in> set (st_needs (xs ! n))"
      using s by (auto simp: in_set_conv_nth [of s])
    then have "d \<in> st_id ` set (take n xs)" using assms(1) by (auto simp: needs_before_def)
    then obtain k where "k < n" "d = st_id (xs ! k)" using n(1) by (auto simp: in_set_conv_nth)
    then show ?thesis using pos n by simp
  qed
  then have "needs_rel xs \<subseteq> inv_image less_than pos" by auto
  moreover have "acyclic (inv_image less_than pos)" by (simp add: wf_acyclic)
  ultimately show ?thesis by (rule acyclic_subset [rotated])
qed

lemma needs_rel_set: "set xs = set ys \<Longrightarrow> needs_rel xs = needs_rel ys"
  by (simp add: needs_rel_def)

lemma needs_before_known:
  "needs_before xs \<Longrightarrow> (\<Union>s \<in> set xs. set (st_needs s)) \<subseteq> st_id ` set xs"
proof (rule UN_least)
  fix s assume nb: "needs_before xs" and "s \<in> set xs"
  then obtain n where "n < length xs" "s = xs ! n" by (auto simp: in_set_conv_nth)
  with nb have "set (st_needs s) \<subseteq> st_id ` set (take n xs)" by (simp add: needs_before_def)
  also have "\<dots> \<subseteq> st_id ` set xs" by (intro image_mono set_take_subset)
  finally show "set (st_needs s) \<subseteq> st_id ` set xs" .
qed

text \<open>
  C16: The order \<open>_topological_sort\<close> returns is a rearrangement of the workflow's steps in
  which each id occurs once and every id a step needs is that of an earlier step.
\<close>

theorem topo_order_correct:
  assumes "topological_sort steps = Inr xs"
  shows "mset xs = mset steps \<and> distinct (map st_id xs)
     \<and> (\<forall>i < length xs. set (st_needs (xs ! i)) \<subseteq> st_id ` set (take i xs))"
  using assms
proof (cases rule: topological_sort_cases [of steps])
  case (2 ys)
  then have "distinct xs" "distinct steps" "set xs = set steps"
    using assms by (auto simp: distinct_map)
  then show ?thesis using 2 assms by (simp add: set_eq_iff_mset_eq_distinct [symmetric] needs_before_def)
qed simp

text \<open>
  C32: \<open>_topological_sort\<close> always answers: it returns an order exactly when the ids are
  distinct, every needed id is declared and the dependencies have no cycle, and otherwise
  raises \<open>WorkflowError\<close>; its recursion never goes deeper than the number of steps.
\<close>

theorem topo_sort_total:
  "(case topological_sort steps of
      Inr xs \<Rightarrow> distinct (map st_id steps)
        \<and> (\<Union>s \<in> set steps. set (st_needs s)) \<subseteq> st_id ` set steps \<and> acyclic (needs_rel steps)
    | Inl e \<Rightarrow> is_WorkflowError e
        \<and> \<not> (distinct (map st_id steps)
             \<and> (\<Union>s \<in> set steps. set (st_needs s)) \<subseteq> st_id ` set steps \<and> acyclic (needs_rel steps)))"
proof (cases rule: topological_sort_cases [of steps])
  case (2 xs)
  then show ?thesis
    using needs_before_acyclic [of xs] needs_before_known [of xs] needs_rel_set [of xs steps] by simp
next
  case (1 e)
  have "\<exists>xs. topological_sort steps = Inr xs"
    if d: "distinct (map st_id steps)" and k: "(\<Union>s \<in> set steps. set (st_needs s)) \<subseteq> st_id ` set steps"
      and a: "acyclic (needs_rel steps)"
  proof -
    have "\<exists>st. visit_all (Suc (length steps)) (by_id steps) (map st_id steps)
        \<lparr>ordered = [], visiting = {}, visited = {}\<rparr> = Inr st"
      by (rule visit_complete(2) [OF a k refl _ _ topo_start]) auto
    then show ?thesis
      using remdups_length_distinct [of "map st_id steps"] d by (auto simp: topological_sort_def)
  qed
  then show ?thesis using 1 by auto
qed

definition demo_step :: "string \<Rightarrow> string list \<Rightarrow> wf_step" where
  "demo_step i ns = \<lparr>st_id = i, st_uses = ''noop'', st_needs = ns, st_with = [], st_when = None\<rparr>"

theorem topo_order_correct_witness:
  "mset [demo_step ''b'' [], demo_step ''a'' [''b'']] = mset [demo_step ''a'' [''b''], demo_step ''b'' []]"
proof -
  have "topological_sort [demo_step ''a'' [''b''], demo_step ''b'' []]
      = Inr [demo_step ''b'' [], demo_step ''a'' [''b'']]"
    by (simp add: topological_sort_def demo_step_def by_id_def visit.simps)
  then show ?thesis using topo_order_correct by blast
qed

section \<open>The audit trail of a run\<close>

text \<open>
  The events of one step: the end alone when the step was skipped or never reached its tool,
  otherwise the start and then the end. And the events agree with the result: the end event
  carries an error exactly when the result does, and \<open>exit_status\<close> 0 exactly when the tool
  returned.
\<close>

definition trail_ok :: "string \<Rightarrow> string \<Rightarrow> string \<Rightarrow> step_result \<Rightarrow> audit_event list \<Rightarrow> bool" where
  "trail_ok run_id wname i res evs \<longleftrightarrow> evs \<noteq> []
     \<and> list_all (\<lambda>e. au_run_id e = run_id \<and> au_workflow e = wname \<and> au_step_id e = i) evs
     \<and> au_type (last evs) = ''step_end''
     \<and> (au_error (last evs) = None \<longleftrightarrow> sr_error res = None)
     \<and> (au_decision (last evs) \<noteq> None \<longleftrightarrow> sr_skipped res)
     \<and> (butlast evs = [] \<or> (\<exists>e. butlast evs = [e] \<and> au_type e = ''step_start''))
     \<and> (au_exit_status (last evs) = Some 0 \<longleftrightarrow> sr_error res = None \<and> \<not> sr_skipped res)
     \<and> (au_exit_status (last evs) = Some 0 \<longrightarrow> butlast evs \<noteq> [])"

definition step_done :: "string \<Rightarrow> string \<Rightarrow> string \<Rightarrow> exec_state \<Rightarrow> exec_state \<Rightarrow> bool" where
  "step_done run_id wname i st st' \<longleftrightarrow> (\<exists>res evs.
     ex_results st' = AList.update i res (ex_results st)
     \<and> audit_log st' = map_option (\<lambda>l. l @ evs) (audit_log st) \<and> trail_ok run_id wname i res evs)"

lemmas exec_defs = fail_step_def skip_step_def call_tool_def emit_def set_result_def set_output_def
  step_event_def abind_def Let_def

lemma fail_step_done:
  "fail_step ctx a b st = (Inr (), st') \<Longrightarrow> step_done (cx_run_id ctx) (cx_workflow ctx) (cx_step_id ctx) st st'"
  unfolding step_done_def
  by (rule exI [of _ "\<lparr>sr_output = PNone, sr_skipped = False, sr_error = Some b\<rparr>"],
      rule exI [of _ "[(step_event ''step_end'' ctx)\<lparr>au_error := Some a\<rparr>]"])
    (auto simp: exec_defs trail_ok_def)

lemma skip_step_done:
  "skip_step ctx st = (Inr (), st') \<Longrightarrow> step_done (cx_run_id ctx) (cx_workflow ctx) (cx_step_id ctx) st st'"
  unfolding step_done_def
  by (rule exI [of _ "\<lparr>sr_output = PNone, sr_skipped = True, sr_error = None\<rparr>"],
      rule exI [of _ "[(step_event ''step_end'' ctx)\<lparr>au_decision :=
         Some [(''skipped'', PBool True), (''reason'', PStr ''when=false'')]\<rparr>]"])
    (auto simp: exec_defs trail_ok_def)

lemma call_tool_done:
  assumes "call_tool env tool ctx args st = (Inr (), st')"
  shows "step_done (cx_run_id ctx) (cx_workflow ctx) (cx_step_id ctx) st st'"
proof (cases "invoke env tool ctx args")
  case (Inl exc)
  let ?m = "exn_name exc @ '': '' @ exn_str exc"
  show ?thesis unfolding step_done_def
    by (rule exI [of _ "\<lparr>sr_output = PNone, sr_skipped = False, sr_error = Some ?m\<rparr>"],
        rule exI [of _ "[(step_event ''step_start'' ctx)\<lparr>au_args := Some args\<rparr>,
          (step_event ''step_end'' ctx)\<lparr>au_error := Some ?m\<rparr>]"])
      (use assms Inl in \<open>auto simp: exec_defs trail_ok_def option.map_comp o_def\<close>)
next
  case (Inr out)
  show ?thesis unfolding step_done_def
    by (rule exI [of _ "\<lparr>sr_output = out, sr_skipped = False, sr_error = None\<rparr>"],
        rule exI [of _ "[(step_event ''step_start'' ctx)\<lparr>au_args := Some args\<rparr>,
          (step_event ''step_end'' ctx)\<lparr>au_exit_status := Some 0\<rparr>]"])
      (use assms Inr in \<open>auto simp: exec_defs trail_ok_def option.map_comp o_def\<close>)
qed

lemma start_step_done:
  assumes "start_step env tools inputs ctx step st = (Inr (), st')"
  shows "step_done (cx_run_id ctx) (cx_workflow ctx) (cx_step_id ctx) st st'"
  using assms
  by (auto simp: start_step_def split: sum.splits if_splits
      intro: fail_step_done call_tool_done)

lemma run_step_done:
  assumes "run_step env tools run_id wname inputs step st = (Inr (), st')"
  shows "step_done run_id wname (st_id step) st st'"
  using assms fail_step_done [of "\<lparr>cx_run_id = run_id, cx_workflow = wname, cx_step_id = st_id step\<rparr>"]
    skip_step_done [of "\<lparr>cx_run_id = run_id, cx_workflow = wname, cx_step_id = st_id step\<rparr>"]
    start_step_done [of env tools inputs "\<lparr>cx_run_id = run_id, cx_workflow = wname, cx_step_id = st_id step\<rparr>"]
  by (auto simp: run_step_def Let_def split: option.splits sum.splits if_splits)

lemma run_steps_trail:
  assumes "run_steps env tools run_id wname inputs steps st = (Inr (), st')"
    and "distinct (map st_id steps)" and "fst ` set (ex_results st) \<inter> st_id ` set steps = {}"
  shows "\<exists>rs trails. ex_results st' = ex_results st @ zip (map st_id steps) rs \<and> length rs = length steps
     \<and> audit_log st' = map_option (\<lambda>l. l @ concat trails) (audit_log st)
     \<and> list_all2 (\<lambda>(i, r) evs. trail_ok run_id wname i r evs) (zip (map st_id steps) rs) trails"
  using assms
proof (induction steps arbitrary: st)
  case Nil
  then show ?case by (cases "audit_log st") auto
next
  case (Cons s steps)
  from Cons.prems(1) obtain st1 where 1: "run_step env tools run_id wname inputs s st = (Inr (), st1)"
    and 2: "run_steps env tools run_id wname inputs steps st1 = (Inr (), st')"
    by (auto simp: abind_Inr_iff)
  from run_step_done [OF 1] obtain r evs where r: "ex_results st1 = AList.update (st_id s) r (ex_results st)"
    "audit_log st1 = map_option (\<lambda>l. l @ evs) (audit_log st)" "trail_ok run_id wname (st_id s) r evs"
    by (auto simp: step_done_def)
  have r1: "ex_results st1 = ex_results st @ [(st_id s, r)]"
    using r(1) Cons.prems(3) update_fresh [of "st_id s" "ex_results st" r] by auto
  then have "fst ` set (ex_results st1) \<inter> st_id ` set steps = {}"
    using Cons.prems(2,3) by auto
  from Cons.IH [OF 2 _ this] Cons.prems(2) obtain rs trails where
    "ex_results st' = ex_results st1 @ zip (map st_id steps) rs" "length rs = length steps"
    "audit_log st' = map_option (\<lambda>l. l @ concat trails) (audit_log st1)"
    "list_all2 (\<lambda>(i, r) evs. trail_ok run_id wname i r evs) (zip (map st_id steps) rs) trails"
    by auto
  then show ?case
    by (intro exI [of _ "r # rs"] exI [of _ "evs # trails"])
      (simp add: r(2,3) r1 option.map_comp o_def)
qed

text \<open>
  A run that returns has one result per step, in dependency order, and has appended to the
  audit log one contiguous trail per step in the same order: an optional \<open>step_start\<close> and one
  \<open>step_end\<close> that agrees with the step's result (an error, a skip, or exit status 0 after a
  start).
\<close>

theorem run_audit_trail:
  assumes "run env tools w inputs run_id l = (Inr results, l')"
  shows "\<exists>ordered trails. topological_sort (wf_steps w) = Inr ordered
     \<and> map fst results = map st_id ordered
     \<and> l' = map_option (\<lambda>es. es @ concat trails) l
     \<and> list_all2 (\<lambda>(i, r) evs. trail_ok run_id (wf_name w) i r evs) results trails"
proof -
  obtain xs st where xs: "topological_sort (wf_steps w) = Inr xs"
    and st: "run_steps env tools run_id (wf_name w) inputs xs
        \<lparr>step_outputs = [], ex_results = [], audit_log = l\<rparr> = (Inr (), st)"
    and res: "results = ex_results st" "l' = audit_log st"
    using assms by (auto simp: run_def split: sum.splits prod.splits)
      (auto simp: map_sum_def split: sum.splits)
  have "distinct (map st_id xs)"
    by (cases rule: topological_sort_cases [of "wf_steps w"]) (use xs in auto)
  from run_steps_trail [OF st this] obtain rs trails where
    "ex_results st = zip (map st_id xs) rs" "length rs = length xs"
    "audit_log st = map_option (\<lambda>es. es @ concat trails) l"
    "list_all2 (\<lambda>(i, r) evs. trail_ok run_id (wf_name w) i r evs) (zip (map st_id xs) rs) trails"
    by auto
  then show ?thesis using xs res by auto
qed

definition demo_exec :: exec_env where
  "demo_exec = \<lparr>attr_of = \<lambda>_ _. None, float_repr = \<lambda>_. [], invoke = \<lambda>_. noop\<rparr>"

definition demo_workflow :: workflow where
  "demo_workflow = \<lparr>wf_name = ''w'', wf_steps = [demo_step ''a'' [''b''], demo_step ''b'' []]\<rparr>"

lemma demo_sorted:
  "topological_sort (wf_steps demo_workflow) = Inr [demo_step ''b'' [], demo_step ''a'' [''b'']]"
  by (simp add: demo_workflow_def topological_sort_def demo_step_def by_id_def visit.simps)

theorem run_audit_trail_witness:
  "\<exists>l' ordered. topological_sort (wf_steps demo_workflow) = Inr ordered
     \<and> map fst (projr (fst (run demo_exec [(''noop'', 0)] demo_workflow [] ''r'' (Some []))))
       = map st_id ordered
     \<and> snd (run demo_exec [(''noop'', 0)] demo_workflow [] ''r'' (Some [])) = Some l' \<and> length l' = 4"
proof -
  let ?r = "run demo_exec [(''noop'', 0)] demo_workflow [] ''r'' (Some [])"
  have "isl (fst ?r) = False" and len: "map_option length (snd ?r) = Some 4"
    unfolding run_def demo_sorted
    by (simp_all add: demo_exec_def demo_step_def demo_workflow_def run_step_def start_step_def resolve_tool_def
        exec_defs noop_def)
  then obtain results l' where r: "?r = (Inr results, l')" by (cases ?r) (metis fst_conv isl_def sum.exhaust_disc sum.collapse(2))
  from run_audit_trail [OF r] r len show ?thesis by auto
qed

text \<open>
  The executor's doc says an unknown reference raises \<open>KeyError\<close> or \<open>ValueError\<close>, which
  \<open>run\<close> records on the step. A path that goes on below a value that is not a dict raises
  \<open>AttributeError\<close> from \<open>getattr\<close>, which no branch catches: the run ends with it, and the
  results of the steps already done are lost.
\<close>

definition dangling_workflow :: workflow where
  "dangling_workflow = \<lparr>wf_name = ''w'', wf_steps = [demo_step ''a'' [],
     (demo_step ''b'' [''a''])\<lparr>st_with := [(''x'', PStr (open_ref @ ''inputs.n.z'' @ [CHR 0x7D]))]\<rparr>]\<rparr>"

theorem attribute_error_escapes_run:
  "fst (run demo_exec [(''noop'', 0)] dangling_workflow [(''n'', PInt 1)] ''r'' (Some []))
     = Inl (AttributeError ''z'')"
  by code_simp

end
