(* ===== verification/Disk.thy ===== *)
theory Disk
  imports Prelude "HOL-Library.List_Lexorder" "HOL-Library.Char_ord"
begin

text \<open>
  The state root of the assignment service on disk, and the file operations
  \<open>src/testudo/runtime/assignment.py\<close> performs on it.

  The root holds entries by name: regular files, directories of files, and anything that is
  a symbolic link (to something that exists). Every call that reaches the disk asks an oracle,
  by the number of the call and the name of the file, what becomes of it: it succeeds, it
  raises \<open>OSError\<close>, or the process dies there. In the last two cases a write may have stored a
  prefix of its bytes. What was written before the process died is on disk for the next one;
  the loss of data that was not yet flushed is not modelled.
\<close>

datatype fnode = FFile string | FLink
datatype rnode = RFile string | RDir "(string \<times> fnode) list" | RLink

type_synonym disk = "(string \<times> rnode) list"

datatype loc = InRoot string | InDir string string

datatype io_outcome = IoOk | IoError nat | IoCrash nat

type_synonym io_oracle = "nat \<Rightarrow> string \<Rightarrow> io_outcome"

record host =
  sv_disk :: disk
  sv_calls :: nat
  sv_ticks :: nat

section \<open>Reading the tree\<close>

definition dir_files :: "disk \<Rightarrow> string \<Rightarrow> (string \<times> fnode) list option" where
  "dir_files d n = (case map_of d n of Some (RDir fs) \<Rightarrow> Some fs | _ \<Rightarrow> None)"

text \<open>\<open>path.is_file() and not path.is_symlink()\<close>: the bytes of a regular file.\<close>

fun file_at :: "disk \<Rightarrow> loc \<Rightarrow> string option" where
  "file_at d (InRoot n) = (case map_of d n of Some (RFile c) \<Rightarrow> Some c | _ \<Rightarrow> None)"
| "file_at d (InDir n f) = (case dir_files d n of None \<Rightarrow> None
     | Some fs \<Rightarrow> (case map_of fs f of Some (FFile c) \<Rightarrow> Some c | _ \<Rightarrow> None))"

section \<open>Changing the tree\<close>

fun put_file :: "loc \<Rightarrow> string \<Rightarrow> disk \<Rightarrow> disk option" where
  "put_file (InRoot n) c d = (case map_of d n of
       None \<Rightarrow> Some (AList.update n (RFile c) d)
     | Some (RFile _) \<Rightarrow> Some (AList.update n (RFile c) d)
     | _ \<Rightarrow> None)"
| "put_file (InDir n f) c d = (case dir_files d n of None \<Rightarrow> None
     | Some fs \<Rightarrow> Some (AList.update n (RDir (AList.update f (FFile c) fs)) d))"

fun remove_file :: "loc \<Rightarrow> disk \<Rightarrow> disk option" where
  "remove_file (InRoot n) d = (case map_of d n of
     Some (RFile _) \<Rightarrow> Some (AList.delete n d) | _ \<Rightarrow> None)"
| "remove_file (InDir n f) d = (case dir_files d n of None \<Rightarrow> None
     | Some fs \<Rightarrow> (case map_of fs f of Some (FFile _) \<Rightarrow>
          Some (AList.update n (RDir (AList.delete f fs)) d) | _ \<Rightarrow> None))"

text \<open>\<open>path.with_name(path.name + ".tmp")\<close>\<close>

fun tmp_loc :: "loc \<Rightarrow> loc" where
  "tmp_loc (InRoot n) = InRoot (n @ ''.tmp'')"
| "tmp_loc (InDir n f) = InDir n (f @ ''.tmp'')"

fun loc_name :: "loc \<Rightarrow> string" where
  "loc_name (InRoot n) = n"
| "loc_name (InDir n f) = f"

text \<open>\<open>os.replace(temporary, path)\<close>\<close>

definition replace_file :: "loc \<Rightarrow> disk \<Rightarrow> disk option" where
  "replace_file l d = (case file_at d (tmp_loc l) of None \<Rightarrow> None
     | Some c \<Rightarrow> (case put_file l c d of None \<Rightarrow> None | Some d' \<Rightarrow> remove_file (tmp_loc l) d'))"

definition rename_dir :: "string \<Rightarrow> string \<Rightarrow> disk \<Rightarrow> disk option" where
  "rename_dir n m d = (case (dir_files d n, map_of d m) of
     (Some fs, None) \<Rightarrow> Some (AList.update m (RDir fs) (AList.delete n d)) | _ \<Rightarrow> None)"

section \<open>Calls that may fail\<close>

text \<open>
  One call: \<open>ok\<close> is its effect when it succeeds (\<open>None\<close>: the call itself refuses, as \<open>open\<close>
  does for a missing directory), \<open>part\<close> what it leaves behind when it fails.
\<close>

definition io :: "io_oracle \<Rightarrow> string \<Rightarrow> (disk \<Rightarrow> disk option) \<Rightarrow> (nat \<Rightarrow> disk \<Rightarrow> disk option)
    \<Rightarrow> ('a host_scheme, unit) act" where
  "io faults name ok part s =
     (let d = sv_disk s; s1 = s\<lparr>sv_calls := Suc (sv_calls s)\<rparr>;
          left = (\<lambda>n. case part n d of None \<Rightarrow> s1 | Some d' \<Rightarrow> s1\<lparr>sv_disk := d'\<rparr>) in
      case faults (sv_calls s) name of
        IoOk \<Rightarrow> (case ok d of None \<Rightarrow> (Inl (OSError name), s1) | Some d' \<Rightarrow> (Inr (), s1\<lparr>sv_disk := d'\<rparr>))
      | IoError n \<Rightarrow> (Inl (OSError name), left n)
      | IoCrash n \<Rightarrow> (Inl ProcessDied, left n))"

abbreviation untouched :: "nat \<Rightarrow> disk \<Rightarrow> disk option" where
  "untouched n d \<equiv> Some d"

text \<open>A call that only reads or flushes: \<open>fsync\<close>, \<open>iterdir\<close>, \<open>read_bytes\<close>.\<close>

definition probe :: "io_oracle \<Rightarrow> string \<Rightarrow> ('a host_scheme, unit) act" where
  "probe faults name = io faults name Some untouched"

definition fsync_dir :: "io_oracle \<Rightarrow> string \<Rightarrow> ('a host_scheme, unit) act" where
  "fsync_dir faults name = probe faults name"

definition mkdir :: "io_oracle \<Rightarrow> bool \<Rightarrow> string \<Rightarrow> ('a host_scheme, unit) act" where
  "mkdir faults exist_ok n = io faults n (\<lambda>d. case map_of d n of
       None \<Rightarrow> Some (AList.update n (RDir []) d)
     | Some (RDir _) \<Rightarrow> if exist_ok then Some d else None
     | _ \<Rightarrow> None) untouched"

definition atomic_write_bytes :: "io_oracle \<Rightarrow> loc \<Rightarrow> string \<Rightarrow> ('a host_scheme, unit) act" where
  "atomic_write_bytes faults l payload =
     (let t = tmp_loc l; name = loc_name l in
      abind (io faults name (put_file t []) untouched) (\<lambda>_.
      abind (io faults name (put_file t payload) (\<lambda>n. put_file t (take n payload))) (\<lambda>_.
      abind (probe faults name) (\<lambda>_.
      abind (io faults name (replace_file l) untouched) (\<lambda>_.
        fsync_dir faults name)))))"

text \<open>\<open>open("ab")\<close>, \<open>write\<close>, \<open>flush\<close> and \<open>fsync\<close>\<close>

definition append_bytes :: "loc \<Rightarrow> string \<Rightarrow> disk \<Rightarrow> disk option" where
  "append_bytes l c d = put_file l ((case file_at d l of None \<Rightarrow> [] | Some old \<Rightarrow> old) @ c) d"

definition append_file :: "io_oracle \<Rightarrow> loc \<Rightarrow> string \<Rightarrow> ('a host_scheme, unit) act" where
  "append_file faults l payload =
     (let name = loc_name l in
      abind (io faults name (append_bytes l []) untouched) (\<lambda>_.
      abind (io faults name (append_bytes l payload) (\<lambda>n. append_bytes l (take n payload))) (\<lambda>_.
        probe faults name)))"

definition read_bytes :: "io_oracle \<Rightarrow> loc \<Rightarrow> ('a host_scheme, string) act" where
  "read_bytes faults l =
     abind (probe faults (loc_name l)) (\<lambda>_. awith (\<lambda>s.
       case file_at (sv_disk s) l of None \<Rightarrow> araise (OSError (loc_name l)) | Some c \<Rightarrow> aret c))"

definition rename_entry :: "io_oracle \<Rightarrow> string \<Rightarrow> string \<Rightarrow> ('a host_scheme, unit) act" where
  "rename_entry faults n m = io faults n (rename_dir n m) untouched"

definition unlink :: "io_oracle \<Rightarrow> loc \<Rightarrow> ('a host_scheme, unit) act" where
  "unlink faults l = io faults (loc_name l) (remove_file l) untouched"

text \<open>\<open>self._now()\<close>: the clock's next reading.\<close>

definition host_clock :: "(nat \<Rightarrow> int) \<Rightarrow> ('a host_scheme, int) act" where
  "host_clock clock s = (Inr (clock (sv_ticks s)), s\<lparr>sv_ticks := Suc (sv_ticks s)\<rparr>)"

text \<open>A loop over a list whose body may raise.\<close>

fun afor :: "'b list \<Rightarrow> ('b \<Rightarrow> ('s, unit) act) \<Rightarrow> ('s, unit) act" where
  "afor [] f = aret ()"
| "afor (x # xs) f = abind (f x) (\<lambda>_. afor xs f)"

fun is_OSError :: "exn \<Rightarrow> bool" where
  "is_OSError (OSError _) = True"
| "is_OSError _ = False"

section \<open>What the calls can change\<close>

text \<open>Only files named in \<open>F\<close>, in the directory \<open>n\<close>.\<close>

definition chg :: "string \<Rightarrow> string set \<Rightarrow> disk \<Rightarrow> disk \<Rightarrow> bool" where
  "chg n F d d' \<longleftrightarrow> (\<forall>m. m \<noteq> n \<longrightarrow> dir_files d' m = dir_files d m)
     \<and> (dir_files d' n = dir_files d n \<or> (\<exists>fs fs'. dir_files d n = Some fs \<and> dir_files d' n = Some fs'
          \<and> (\<forall>g. g \<notin> F \<longrightarrow> map_of fs' g = map_of fs g)))"

definition same_dirs :: "disk \<Rightarrow> disk \<Rightarrow> bool" where
  "same_dirs d d' \<longleftrightarrow> dir_files d' = dir_files d"

text \<open>A step of the host: the disk changes as \<open>P\<close> allows, the counters may move.\<close>

definition host_rel :: "(disk \<Rightarrow> disk \<Rightarrow> bool) \<Rightarrow> 'a host_scheme \<Rightarrow> 'a host_scheme \<Rightarrow> bool" where
  "host_rel P s s' \<longleftrightarrow> (\<exists>d c t. s' = s\<lparr>sv_disk := d, sv_calls := c, sv_ticks := t\<rparr> \<and> P (sv_disk s) d)"

lemma chg_refl [simp]: "chg n F d d"
  by (simp add: chg_def)

lemma chg_trans: "\<lbrakk>chg n F d d1; chg n F d1 d2\<rbrakk> \<Longrightarrow> chg n F d d2"
  unfolding chg_def by (elim conjE disjE exE; simp)

lemma chg_mono: "\<lbrakk>chg n F d d'; F \<subseteq> G\<rbrakk> \<Longrightarrow> chg n G d d'"
  unfolding chg_def by blast

lemma same_dirs_preorder: "reflp same_dirs" "transp same_dirs"
  by (auto simp: same_dirs_def intro: reflpI transpI)

lemma chg_preorder: "reflp (chg n F)" "transp (chg n F)"
  by (auto intro: reflpI transpI chg_trans)

lemma host_rel_reflp: "reflp P \<Longrightarrow> reflp (host_rel P)"
proof (rule reflpI)
  fix s :: "'a host_scheme" assume "reflp P"
  then show "host_rel P s s"
    unfolding host_rel_def
    by (intro exI [of _ "sv_disk s"] exI [of _ "sv_calls s"] exI [of _ "sv_ticks s"]) (simp add: reflpD)
qed

lemma host_rel_transp: "transp P \<Longrightarrow> transp (host_rel P)"
  unfolding host_rel_def by (rule transpI) (fastforce dest: transpD)

lemma keeps_io:
  assumes "reflp P" and "\<And>d d'. ok d = Some d' \<Longrightarrow> P d d'" and "\<And>k d d'. part k d = Some d' \<Longrightarrow> P d d'"
  shows "keeps (host_rel P) (io fl nm ok part)"
  unfolding keeps_def host_rel_def
proof
  fix s :: "'a host_scheme"
  have step: "\<exists>da c t. s\<lparr>sv_calls := Suc (sv_calls s), sv_disk := d\<rparr>
      = s\<lparr>sv_disk := da, sv_calls := c, sv_ticks := t\<rparr> \<and> P (sv_disk s) da" if "P (sv_disk s) d" for d
    by (rule exI [of _ d], rule exI [of _ "Suc (sv_calls s)"], rule exI [of _ "sv_ticks s"]) (simp add: that)
  have same: "\<exists>da c t. s\<lparr>sv_calls := Suc (sv_calls s)\<rparr>
      = s\<lparr>sv_disk := da, sv_calls := c, sv_ticks := t\<rparr> \<and> P (sv_disk s) da"
    using step [of "sv_disk s"] assms(1) by (simp add: reflpD)
  show "\<exists>d c t. snd (io fl nm ok part s) = s\<lparr>sv_disk := d, sv_calls := c, sv_ticks := t\<rparr> \<and> P (sv_disk s) d"
    using step same assms(2,3) unfolding io_def Let_def
    by (simp split: io_outcome.splits option.splits)
qed

lemma keeps_read_clock: "reflp P \<Longrightarrow> keeps (host_rel P) (host_clock ck)"
  unfolding keeps_def
proof
  fix s :: "'a host_scheme" assume "reflp P"
  then show "host_rel P s (snd (host_clock ck s))"
    unfolding host_rel_def host_clock_def
    by (intro exI [of _ "sv_disk s"] exI [of _ "sv_calls s"] exI [of _ "Suc (sv_ticks s)"])
      (simp add: reflpD)
qed

lemma keeps_probe: "reflp P \<Longrightarrow> keeps (host_rel P) (probe fl nm)"
  unfolding probe_def by (rule keeps_io) (auto dest: reflpD)

lemma keeps_fsync_dir: "reflp P \<Longrightarrow> keeps (host_rel P) (fsync_dir fl nm)"
  unfolding fsync_dir_def by (rule keeps_probe)

lemma dir_files_update [simp]:
  "dir_files (AList.update n v d) m =
     (if m = n then (case v of RDir fs \<Rightarrow> Some fs | _ \<Rightarrow> None) else dir_files d m)"
  by (auto simp: dir_files_def update_conv' split: rnode.splits)

lemma dir_files_delete [simp]:
  "dir_files (AList.delete n d) m = (if m = n then None else dir_files d m)"
  by (simp add: dir_files_def delete_conv')

lemma put_file_chg: "put_file (InDir n f) c d = Some d' \<Longrightarrow> chg n {f} d d'"
  by (auto simp: chg_def update_conv' split: option.splits)

lemma put_file_same_dirs: "put_file (InRoot n) c d = Some d' \<Longrightarrow> same_dirs d d'"
  by (auto simp: same_dirs_def fun_eq_iff dir_files_def [of d] split: option.splits rnode.splits)

lemma remove_file_chg: "remove_file (InDir n f) d = Some d' \<Longrightarrow> chg n {f} d d'"
  by (auto simp: chg_def delete_conv' split: option.splits fnode.splits)

lemma remove_file_same_dirs: "remove_file (InRoot n) d = Some d' \<Longrightarrow> same_dirs d d'"
  by (auto simp: same_dirs_def fun_eq_iff dir_files_def [of d] split: option.splits rnode.splits)

lemma replace_file_chg: "replace_file (InDir n f) d = Some d' \<Longrightarrow> chg n {f, f @ ''.tmp''} d d'"
  unfolding replace_file_def
  by (auto split: option.splits simp del: put_file.simps remove_file.simps file_at.simps
      dest!: put_file_chg remove_file_chg
      intro: chg_trans [OF chg_mono [where F = "{f}"] chg_mono [where F = "{f @ ''.tmp''}"]])

lemma replace_file_same_dirs: "replace_file (InRoot n) d = Some d' \<Longrightarrow> same_dirs d d'"
  unfolding replace_file_def
  by (auto split: option.splits simp del: put_file.simps remove_file.simps file_at.simps
      dest!: put_file_same_dirs remove_file_same_dirs intro: transpD [OF same_dirs_preorder(2)])

lemmas host_preorders = chg_preorder same_dirs_preorder host_rel_reflp host_rel_transp

lemma keeps_atomic_write_dir:
  "keeps (host_rel (chg n {f, f @ ''.tmp''})) (atomic_write_bytes fl (InDir n f) p)"
  unfolding atomic_write_bytes_def Let_def tmp_loc.simps
  by (intro keeps_abind keeps_io keeps_probe keeps_fsync_dir host_preorders)
    (auto simp del: put_file.simps dest!: put_file_chg replace_file_chg intro: chg_mono)

lemma keeps_atomic_write_root: "keeps (host_rel same_dirs) (atomic_write_bytes fl (InRoot n) p)"
  unfolding atomic_write_bytes_def Let_def tmp_loc.simps
  by (intro keeps_abind keeps_io keeps_probe keeps_fsync_dir host_preorders)
    (auto simp del: put_file.simps dest!: put_file_same_dirs replace_file_same_dirs
      intro: reflpD [OF same_dirs_preorder(1)])

lemma keeps_append_file: "keeps (host_rel (chg n {f})) (append_file fl (InDir n f) p)"
  unfolding append_file_def Let_def append_bytes_def
  by (intro keeps_abind keeps_io keeps_probe host_preorders)
    (auto simp del: put_file.simps file_at.simps dest!: put_file_chg)

lemma keeps_read_bytes: "reflp P \<Longrightarrow> transp P \<Longrightarrow> keeps (host_rel P) (read_bytes fl l)"
  unfolding read_bytes_def by (intro keeps_rules keeps_probe host_preorders)

lemma keeps_unlink_root: "keeps (host_rel same_dirs) (unlink fl (InRoot n))"
  unfolding unlink_def
  by (intro keeps_io host_preorders)
    (auto simp del: remove_file.simps dest!: remove_file_same_dirs intro: reflpD [OF same_dirs_preorder(1)])

section \<open>What an atomic write leaves\<close>

definition dfile :: "disk \<Rightarrow> string \<Rightarrow> string \<Rightarrow> fnode option" where
  "dfile d n f = (case dir_files d n of None \<Rightarrow> None | Some fs \<Rightarrow> map_of fs f)"

lemma file_at_dfile: "file_at d (InDir n f) = (case dfile d n f of Some (FFile c) \<Rightarrow> Some c | _ \<Rightarrow> None)"
  by (simp add: dfile_def split: option.splits)

lemma chg_dfile: "\<lbrakk>chg n F d d'; g \<notin> F \<or> m \<noteq> n\<rbrakk> \<Longrightarrow> dfile d' m g = dfile d m g"
  by (cases "m = n") (auto simp: chg_def dfile_def split: option.splits)

lemma chg_dir: "chg n F d d' \<Longrightarrow> dir_files d' m = None \<longleftrightarrow> dir_files d m = None"
  by (cases "m = n") (auto simp: chg_def)

lemma put_file_dfile: "put_file (InDir n f) c d = Some d' \<Longrightarrow> dfile d' n f = Some (FFile c)"
  by (auto simp: dfile_def update_conv' split: option.splits)

lemma remove_file_dfile:
  "remove_file (InDir n f) d = Some d' \<Longrightarrow> g \<noteq> f \<Longrightarrow> dfile d' n g = dfile d n g"
  by (rule chg_dfile [OF remove_file_chg], assumption, simp del: remove_file.simps)

lemma replace_file_dfile:
  assumes "replace_file (InDir n f) d = Some d'" and "dfile d n (f @ ''.tmp'') = Some (FFile p)"
  shows "dfile d' n f = Some (FFile p)"
proof -
  have c: "file_at d (InDir n (f @ ''.tmp'')) = Some p" using assms(2) by (simp only: file_at_dfile) simp
  then obtain d1 where "put_file (InDir n f) p d = Some d1"
    and "remove_file (InDir n (f @ ''.tmp'')) d1 = Some d'"
    using assms(1) by (auto simp: replace_file_def simp del: put_file.simps remove_file.simps file_at.simps
        split: option.splits)
  then show ?thesis using put_file_dfile remove_file_dfile [of n "f @ ''.tmp''" d1 d' f] by simp
qed

lemma io_Inr: "io fl nm ok part s = (Inr u, s') \<Longrightarrow> ok (sv_disk s) = Some (sv_disk s')"
  by (auto simp: io_def Let_def split: io_outcome.splits option.splits)

lemma io_Inl: "io fl nm ok part s = (Inl e, s') \<Longrightarrow> sv_disk s' = sv_disk s \<or> (\<exists>k. part k (sv_disk s) = Some (sv_disk s'))"
  by (auto simp: io_def Let_def split: io_outcome.splits option.splits)

lemma probe_disk: "probe fl nm s = (r, s') \<Longrightarrow> sv_disk s' = sv_disk s"
  by (auto simp: probe_def io_def Let_def split: io_outcome.splits option.splits)

lemma atomic_write_content:
  assumes "atomic_write_bytes fl (InDir n f) p s = (r, s')"
  shows "dfile (sv_disk s') n f = dfile (sv_disk s) n f \<and> r \<noteq> Inr ()
     \<or> dfile (sv_disk s') n f = Some (FFile p)"
proof -
  let ?t = "InDir n (f @ ''.tmp'')"
  have tmp: "dfile d' n f = dfile d n f" if "put_file ?t c d = Some d'" for c d d'
    using put_file_chg [OF that] by (rule chg_dfile) simp
  from assms show ?thesis unfolding atomic_write_bytes_def Let_def tmp_loc.simps loc_name.simps
  proof (elim abindE, goal_cases)
    case (1 e)
    then show ?case using io_Inl [OF 1(1)] by auto
  next
    case (2 u1 s1 e)
    then show ?case using tmp io_Inr [OF 2(1)] io_Inl [OF 2(2)] by fastforce
  next
    case (3 u1 s1 u2 s2 e)
    then show ?case using tmp [OF io_Inr [OF 3(1)]] tmp [OF io_Inr [OF 3(2)]] probe_disk [OF 3(3)] by simp
  next
    case (4 u1 s1 u2 s2 u3 s3 e)
    then show ?case
      using tmp [OF io_Inr [OF 4(1)]] tmp [OF io_Inr [OF 4(2)]] probe_disk [OF 4(3)] io_Inl [OF 4(4)] by auto
  next
    case (5 u1 s1 u2 s2 u3 s3 u4 s4)
    have "dfile (sv_disk s4) n f = Some (FFile p)"
      using replace_file_dfile [OF io_Inr [OF 5(4)]] put_file_dfile [OF io_Inr [OF 5(2)]]
        probe_disk [OF 5(3)] by simp
    then show ?case using probe_disk [OF 5(5) [unfolded fsync_dir_def]] by simp
  qed
qed

text \<open>
  In a directory that exists an atomic write raises \<open>OSError\<close> only where the oracle says so.
\<close>

lemma io_no_error:
  assumes "\<And>k j. fl k nm \<noteq> IoError j" and "ok (sv_disk s) \<noteq> None"
  shows "fst (io fl nm ok part s) \<in> {Inr (), Inl ProcessDied}"
  using assms by (auto simp: io_def Let_def split: io_outcome.splits option.splits)

lemma put_file_dir_exists: "dir_files d n \<noteq> None \<Longrightarrow> \<exists>d'. put_file (InDir n f) c d = Some d'"
  by auto

lemma replace_file_exists:
  assumes "dfile d n (f @ ''.tmp'') = Some (FFile p)"
  shows "\<exists>d'. replace_file (InDir n f) d = Some d'"
proof -
  have c: "file_at d (InDir n (f @ ''.tmp'')) = Some p" using assms by (simp only: file_at_dfile) simp
  have "dir_files d n \<noteq> None" using assms by (auto simp: dfile_def split: option.splits)
  then obtain d1 where d1: "put_file (InDir n f) p d = Some d1" using put_file_dir_exists by blast
  then have "dfile d1 n (f @ ''.tmp'') = Some (FFile p)"
    using assms chg_dfile [OF put_file_chg [OF d1], of "f @ ''.tmp''" n] by simp
  then have "\<exists>d'. remove_file (InDir n (f @ ''.tmp'')) d1 = Some d'"
    by (auto simp: dfile_def split: option.splits)
  then show ?thesis using c d1 by (auto simp: replace_file_def simp del: put_file.simps remove_file.simps file_at.simps)
qed

lemma atomic_write_no_error:
  assumes "atomic_write_bytes fl (InDir n f) p s = (Inl e, s')"
    and "\<And>k j. fl k f \<noteq> IoError j" and "dir_files (sv_disk s) n \<noteq> None"
  shows "e = ProcessDied"
proof -
  let ?t = "InDir n (f @ ''.tmp'')"
  have died: "e = ProcessDied" if "io fl f ok part s0 = (Inl e, s1)" "ok (sv_disk s0) \<noteq> None"
    for ok part and s0 s1 :: "'a host_scheme"
    using io_no_error [of fl f ok s0 part] assms(2) that by simp
  have dir: "dir_files d' n \<noteq> None" if "put_file ?t c d = Some d'" for c d d'
    using chg_dir [OF put_file_chg [OF that], of n] that by auto
  from assms(1) show ?thesis unfolding atomic_write_bytes_def Let_def tmp_loc.simps loc_name.simps
  proof (elim abindE, goal_cases)
    case (1 e')
    then show ?case using died [OF 1(1) [folded 1(2)]] assms(3) by auto
  next
    case (2 u1 s1 e')
    have "dir_files (sv_disk s1) n \<noteq> None" using dir [OF io_Inr [OF 2(1)]] .
    then show ?case using 2 died [of "put_file ?t p" _ s1] by auto
  next
    case (3 u1 s1 u2 s2 e')
    then show ?case using died [of Some untouched s2] by (auto simp: probe_def)
  next
    case (4 u1 s1 u2 s2 u3 s3 e')
    have "dfile (sv_disk s3) n (f @ ''.tmp'') = Some (FFile p)"
      using put_file_dfile [OF io_Inr [OF 4(2)]] probe_disk [OF 4(3)] by simp
    then have "replace_file (InDir n f) (sv_disk s3) \<noteq> None" using replace_file_exists by blast
    then show ?case using 4 died [of "replace_file (InDir n f)" untouched s3] by auto
  next
    case (5 u1 s1 u2 s2 u3 s3 u4 s4)
    then show ?case using died [of Some untouched s4] by (auto simp: fsync_dir_def probe_def)
  qed
qed

text \<open>Directories may appear, empty.\<close>

definition grow :: "disk \<Rightarrow> disk \<Rightarrow> bool" where
  "grow d d' \<longleftrightarrow> (\<forall>n. dir_files d' n = dir_files d n \<or> dir_files d n = None \<and> dir_files d' n = Some [])"

lemma grow_preorder: "reflp grow" "transp grow"
  unfolding grow_def by (auto intro!: reflpI transpI) (metis option.distinct(1))+

lemma keeps_mkdir: "keeps (host_rel grow) (mkdir fl exist_ok n)"
  unfolding mkdir_def
  by (intro keeps_io grow_preorder)
    (auto simp: grow_def dir_files_def [of _ n] split: option.splits rnode.splits if_splits)

end
