(* ===== verification/Assignment.thy ===== *)
theory Assignment
  imports Disk
begin

text \<open>
  The closed assignment protocol: the models of \<open>src/testudo/runtime/assignment.py\<close>
  (\<open>PiJourney\<close>, \<open>AssignmentRequest\<close>, \<open>AssignmentEvent\<close>, \<open>AssignmentReceipt\<close>,
  \<open>IdentityTombstone\<close>) with their validators, and the durable event log.

  Pydantic's coercion of JSON to typed fields is not under \<open>src/\<close>: a model is the record of
  its fields, \<open>validate_*\<close> are the constraints the sources declare, and reading bytes back
  (\<open>parse_*\<close>) is a parameter. \<open>canonical\<close> stands for \<open>json.dumps\<close> with sorted keys, \<open>iso\<close>
  for \<open>isoformat\<close>, and times are integers. A validation error carries the message of the first
  constraint that fails.
\<close>

record pi_journey =
  pj_prompt :: string
  pj_role :: string
  pj_model :: string
  pj_max_steps :: int
  pj_autonomy :: string

record request =
  rq_assignment_id :: string
  rq_envelope_id :: string
  rq_repository :: string
  rq_branch :: string
  rq_base_sha :: string
  rq_allowed_paths :: "string list"
  rq_capabilities :: "string list"
  rq_stopping_point :: string
  rq_expires_at :: int
  rq_expires_tz :: bool
  rq_backend :: string
  rq_image :: string
  rq_journey :: pi_journey
  rq_artifact_store_id :: "string option"
  rq_egress_scanner_id :: "string option"
  rq_envelope_sha256 :: string

record as_event =
  ae_assignment_id :: string
  ae_run_id :: string
  ae_sequence :: int
  ae_event :: string
  ae_at :: int
  ae_details :: pydict

record as_receipt =
  ar_assignment_id :: string
  ar_envelope_id :: string
  ar_envelope_sha256 :: string
  ar_run_id :: string
  ar_backend :: string
  ar_status :: string
  ar_exit_status :: "int option"
  ar_started_at :: int
  ar_finished_at :: int
  ar_events_sha256 :: string
  ar_result_sha256 :: "string option"
  ar_host_receipt :: "pydict option"
  ar_artifacts :: "pydict list"
  ar_error :: "string option"
  ar_receipt_id :: string

record tombstone =
  tb_assignment_id :: string
  tb_envelope_id :: string
  tb_envelope_sha256 :: string
  tb_quarantined_at :: int
  tb_reason :: string

text \<open>What the module takes from the libraries it calls.\<close>

record codec =
  canonical :: "pydict \<Rightarrow> string"
  sha256 :: "string \<Rightarrow> string"
  iso :: "int \<Rightarrow> string"
  parse_request :: "string \<Rightarrow> exn + request"
  parse_event :: "string \<Rightarrow> exn + as_event"
  parse_receipt :: "string \<Rightarrow> exn + as_receipt"
  parse_tombstone :: "string \<Rightarrow> exn + tombstone"

definition digest :: "'a codec_scheme \<Rightarrow> pydict \<Rightarrow> string" where
  "digest cd v = sha256 cd (canonical cd v)"

section \<open>Constraints\<close>

definition len_between :: "int \<Rightarrow> int \<Rightarrow> string \<Rightarrow> bool" where
  "len_between lo hi s \<longleftrightarrow> lo \<le> int (length s) \<and> int (length s) \<le> hi"

definition lower_letter :: "char \<Rightarrow> bool" where
  "lower_letter c \<longleftrightarrow> (let n = (of_char c :: nat) in 97 \<le> n \<and> n \<le> 122)"

text \<open>\<open>^[a-z][a-z0-9-]*$\<close>\<close>

fun role_pattern :: "string \<Rightarrow> bool" where
  "role_pattern [] = False"
| "role_pattern (c # cs) \<longleftrightarrow> lower_letter c
     \<and> list_all (\<lambda>x. lower_letter x \<or> ascii_digit x \<or> x = CHR ''-'') cs"

text \<open>\<open>^[A-Za-z0-9][A-Za-z0-9_-]*$\<close>\<close>

fun id_pattern :: "string \<Rightarrow> bool" where
  "id_pattern [] = False"
| "id_pattern (c # cs) \<longleftrightarrow> ascii_alnum c
     \<and> list_all (\<lambda>x. ascii_alnum x \<or> x = CHR ''_'' \<or> x = CHR ''-'') cs"

definition require :: "bool \<Rightarrow> string \<Rightarrow> exn + unit" where
  "require b msg = (if b then Inr () else Inl (ValidationError msg))"

definition validate_journey :: "pi_journey \<Rightarrow> exn + unit" where
  "validate_journey j =
     rbind (require (len_between 1 32768 (pj_prompt j)) ''prompt'') (\<lambda>_.
     rbind (require (len_between 1 64 (pj_role j) \<and> role_pattern (pj_role j)) ''role'') (\<lambda>_.
     rbind (require (len_between 1 192 (pj_model j)) ''model'') (\<lambda>_.
     rbind (require (1 \<le> pj_max_steps j \<and> pj_max_steps j \<le> 200) ''max_steps'') (\<lambda>_.
       require (pj_autonomy j \<in> {''confirmed-default'', ''autonomous''}) ''autonomy''))))"

definition agent_branch :: "string \<Rightarrow> exn + unit" where
  "agent_branch v = require (prefix ''agent/'' v) ''assignment branch must start with agent/''"

definition safe_path :: "string \<Rightarrow> bool" where
  "safe_path v \<longleftrightarrow> v \<noteq> [] \<and> \<not> prefix ''/'' v \<and> ''..'' \<notin> set (posix_parts v)"

definition safe_paths :: "string list \<Rightarrow> exn + unit" where
  "safe_paths vs =
     rbind (require (vs \<noteq> []) ''at least one allowed path is required'') (\<lambda>_.
     rbind (require (distinct vs) ''allowed paths must be unique'') (\<lambda>_.
       require (list_all safe_path vs) ''allowed paths must be repository-relative''))"

definition forbidden_capabilities :: "string list" where
  "forbidden_capabilities = [''docker'', ''podman'', ''host'', ''host-exec'', ''host-spawn'']"

definition closed_capabilities :: "string list \<Rightarrow> exn + unit" where
  "closed_capabilities vs =
     rbind (require (distinct vs \<and> list_all (len_between 1 128) vs)
              ''capabilities must be unique non-empty names'') (\<lambda>_.
       require (list_all (\<lambda>v. v \<notin> set forbidden_capabilities) vs)
         ''host and Docker-compatible capabilities are forbidden'')"

definition artifact_binding_is_all_or_nothing :: "request \<Rightarrow> exn + unit" where
  "artifact_binding_is_all_or_nothing r =
     require ((rq_artifact_store_id r = None) = (rq_egress_scanner_id r = None))
       ''artifact_store_id and egress_scanner_id must be provided together''"

definition immutable_and_live :: "request \<Rightarrow> exn + unit" where
  "immutable_and_live r =
     rbind (require (sublist ''sha256:'' (rq_image r)) ''assignment image must be pinned by SHA-256'') (\<lambda>_.
       require (rq_expires_tz r) ''expires_at must include a timezone'')"

definition opt_len :: "string option \<Rightarrow> bool" where
  "opt_len v = (case v of None \<Rightarrow> True | Some s \<Rightarrow> len_between 1 128 s)"

definition validate_request :: "request \<Rightarrow> exn + request" where
  "validate_request r =
     rbind (require (len_between 1 64 (rq_assignment_id r) \<and> id_pattern (rq_assignment_id r))
              ''assignment_id'') (\<lambda>_.
     rbind (require (len_between 1 128 (rq_envelope_id r)) ''envelope_id'') (\<lambda>_.
     rbind (require (len_between 1 1024 (rq_repository r)) ''repository'') (\<lambda>_.
     rbind (require (len_between 7 256 (rq_branch r)) ''branch'') (\<lambda>_.
     rbind (agent_branch (rq_branch r)) (\<lambda>_.
     rbind (require (hex_string 40 (rq_base_sha r)) ''base_sha'') (\<lambda>_.
     rbind (safe_paths (rq_allowed_paths r)) (\<lambda>_.
     rbind (closed_capabilities (rq_capabilities r)) (\<lambda>_.
     rbind (require (len_between 1 4096 (rq_stopping_point r)) ''stopping_point'') (\<lambda>_.
     rbind (require (rq_backend r \<in> {''microvm'', ''native-container''}) ''backend'') (\<lambda>_.
     rbind (require (len_between 1 1024 (rq_image r)) ''image'') (\<lambda>_.
     rbind (validate_journey (rq_journey r)) (\<lambda>_.
     rbind (require (opt_len (rq_artifact_store_id r)) ''artifact_store_id'') (\<lambda>_.
     rbind (require (opt_len (rq_egress_scanner_id r)) ''egress_scanner_id'') (\<lambda>_.
     rbind (require (hex_string 64 (rq_envelope_sha256 r)) ''envelope_sha256'') (\<lambda>_.
     rbind (artifact_binding_is_all_or_nothing r) (\<lambda>_.
     rbind (immutable_and_live r) (\<lambda>_. Inr r)))))))))))))))))"

section \<open>JSON forms\<close>

definition opt_text :: "string option \<Rightarrow> pyval" where
  "opt_text v = (case v of None \<Rightarrow> PNone | Some s \<Rightarrow> PStr s)"

definition opt_num :: "int option \<Rightarrow> pyval" where
  "opt_num v = (case v of None \<Rightarrow> PNone | Some n \<Rightarrow> PInt n)"

definition journey_dict :: "pi_journey \<Rightarrow> pydict" where
  "journey_dict j = [(''prompt'', PStr (pj_prompt j)), (''role'', PStr (pj_role j)),
     (''model'', PStr (pj_model j)), (''max_steps'', PInt (pj_max_steps j)),
     (''autonomy'', PStr (pj_autonomy j))]"

definition request_payload :: "'a codec_scheme \<Rightarrow> request \<Rightarrow> pydict" where
  "request_payload cd r = [(''schema'', PStr ''testudo.assignment.request.v1''),
     (''assignment_id'', PStr (rq_assignment_id r)), (''envelope_id'', PStr (rq_envelope_id r)),
     (''repository'', PStr (rq_repository r)), (''branch'', PStr (rq_branch r)),
     (''base_sha'', PStr (rq_base_sha r)), (''allowed_paths'', PList (map PStr (rq_allowed_paths r))),
     (''capabilities'', PList (map PStr (rq_capabilities r))),
     (''stopping_point'', PStr (rq_stopping_point r)), (''expires_at'', PStr (iso cd (rq_expires_at r))),
     (''backend'', PStr (rq_backend r)), (''image'', PStr (rq_image r)),
     (''journey'', PDict (journey_dict (rq_journey r))),
     (''artifact_store_id'', opt_text (rq_artifact_store_id r)),
     (''egress_scanner_id'', opt_text (rq_egress_scanner_id r))]"

definition request_dict :: "'a codec_scheme \<Rightarrow> request \<Rightarrow> pydict" where
  "request_dict cd r = request_payload cd r @ [(''envelope_sha256'', PStr (rq_envelope_sha256 r))]"

definition calculated_envelope_sha256 :: "'a codec_scheme \<Rightarrow> request \<Rightarrow> string" where
  "calculated_envelope_sha256 cd r = digest cd (request_payload cd r)"

definition verify_request :: "'a codec_scheme \<Rightarrow> int \<Rightarrow> request \<Rightarrow> exn + unit" where
  "verify_request cd current r =
     (if rq_expires_at r \<le> current then Inl (AssignmentError ''assignment envelope expired'')
      else if calculated_envelope_sha256 cd r \<noteq> rq_envelope_sha256 r then
        Inl (AssignmentError ''assignment envelope digest mismatch'')
      else Inr ())"

text \<open>The single-step guest workflow of a request.\<close>

definition request_workflow :: "request \<Rightarrow> pydict" where
  "request_workflow r = [(''name'', PStr ''contained-pi-journey''),
     (''description'', PStr (rq_stopping_point r)),
     (''steps'', PList [PDict [(''id'', PStr ''journey''), (''uses'', PStr ''runtime.pi_journey''),
        (''with'', PDict (journey_dict (rq_journey r)))]])]"

definition event_dict :: "'a codec_scheme \<Rightarrow> as_event \<Rightarrow> pydict" where
  "event_dict cd e = [(''schema'', PStr ''testudo.assignment.event.v1''),
     (''assignment_id'', PStr (ae_assignment_id e)), (''run_id'', PStr (ae_run_id e)),
     (''sequence'', PInt (ae_sequence e)), (''event'', PStr (ae_event e)),
     (''at'', PStr (iso cd (ae_at e))), (''details'', PDict (ae_details e))]"

text \<open>\<open>hashlib.sha256(_canonical({"events": event_maps})).hexdigest()\<close>\<close>

definition events_digest :: "'a codec_scheme \<Rightarrow> as_event list \<Rightarrow> string" where
  "events_digest cd es = digest cd [(''events'', PList (map (\<lambda>e. PDict (event_dict cd e)) es))]"

definition as_receipt_payload :: "'a codec_scheme \<Rightarrow> as_receipt \<Rightarrow> pydict" where
  "as_receipt_payload cd r = [(''schema'', PStr ''testudo.assignment.receipt.v1''),
     (''assignment_id'', PStr (ar_assignment_id r)), (''envelope_id'', PStr (ar_envelope_id r)),
     (''envelope_sha256'', PStr (ar_envelope_sha256 r)), (''run_id'', PStr (ar_run_id r)),
     (''backend'', PStr (ar_backend r)), (''status'', PStr (ar_status r)),
     (''exit_status'', opt_num (ar_exit_status r)),
     (''started_at'', PStr (iso cd (ar_started_at r))), (''finished_at'', PStr (iso cd (ar_finished_at r))),
     (''events_sha256'', PStr (ar_events_sha256 r)), (''result_sha256'', opt_text (ar_result_sha256 r)),
     (''host_receipt'', case ar_host_receipt r of None \<Rightarrow> PNone | Some d \<Rightarrow> PDict d),
     (''artifacts'', PList (map PDict (ar_artifacts r))), (''error'', opt_text (ar_error r)),
     (''no_host_fallback'', PBool True)]"

definition receipt_dict :: "'a codec_scheme \<Rightarrow> as_receipt \<Rightarrow> pydict" where
  "receipt_dict cd r = as_receipt_payload cd r @ [(''receipt_id'', PStr (ar_receipt_id r))]"

definition bind_receipt :: "'a codec_scheme \<Rightarrow> as_receipt \<Rightarrow> exn + as_receipt" where
  "bind_receipt cd r = (let expected = digest cd (as_receipt_payload cd r) in
     if ar_receipt_id r \<noteq> [] \<and> ar_receipt_id r \<noteq> expected then
       Inl (ValidationError ''assignment receipt digest mismatch'')
     else Inr (r\<lparr>ar_receipt_id := expected\<rparr>))"

definition receipt_statuses :: "string list" where
  "receipt_statuses = [''succeeded'', ''failed'', ''cancelled'', ''refused'']"

definition validate_receipt :: "'a codec_scheme \<Rightarrow> as_receipt \<Rightarrow> exn + as_receipt" where
  "validate_receipt cd r =
     rbind (require (ar_backend r \<in> {''microvm'', ''native-container''}) ''backend'') (\<lambda>_.
     rbind (require (ar_status r \<in> set receipt_statuses) ''status'') (\<lambda>_. bind_receipt cd r))"

definition event_names :: "string list" where
  "event_names = [''admitted'', ''started'', ''cancel_requested'', ''succeeded'', ''failed'',
     ''cancelled'', ''refused'']"

definition validate_event :: "as_event \<Rightarrow> exn + as_event" where
  "validate_event e =
     rbind (require (0 \<le> ae_sequence e) ''sequence'') (\<lambda>_.
     rbind (require (ae_event e \<in> set event_names) ''event'') (\<lambda>_. Inr e))"

definition tombstone_dict :: "'a codec_scheme \<Rightarrow> tombstone \<Rightarrow> pydict" where
  "tombstone_dict cd t = [(''schema'', PStr ''testudo.assignment.identity-tombstone.v1''),
     (''assignment_id'', PStr (tb_assignment_id t)), (''envelope_id'', PStr (tb_envelope_id t)),
     (''envelope_sha256'', PStr (tb_envelope_sha256 t)),
     (''quarantined_at'', PStr (iso cd (tb_quarantined_at t))), (''reason'', PStr (tb_reason t))]"

definition digest_shape :: "string \<Rightarrow> exn + unit" where
  "digest_shape v = require (v = [] \<or> hex_string 64 v)
     ''envelope_sha256 must be empty or a lowercase SHA-256 digest''"

definition validate_tombstone :: "tombstone \<Rightarrow> exn + tombstone" where
  "validate_tombstone t =
     rbind (require (len_between 1 64 (tb_assignment_id t) \<and> id_pattern (tb_assignment_id t))
              ''assignment_id'') (\<lambda>_.
     rbind (require (len_between 1 128 (tb_envelope_id t)) ''envelope_id'') (\<lambda>_.
     rbind (digest_shape (tb_envelope_sha256 t)) (\<lambda>_.
     rbind (require (len_between 1 1024 (tb_reason t)) ''reason'') (\<lambda>_. Inr t))))"

text \<open>\<open>Model.model_validate_json(raw)\<close>\<close>

definition load_request :: "'a codec_scheme \<Rightarrow> string \<Rightarrow> exn + request" where
  "load_request cd raw = rbind (parse_request cd raw) validate_request"

definition load_event :: "'a codec_scheme \<Rightarrow> string \<Rightarrow> exn + as_event" where
  "load_event cd raw = rbind (parse_event cd raw) validate_event"

definition load_receipt :: "'a codec_scheme \<Rightarrow> string \<Rightarrow> exn + as_receipt" where
  "load_receipt cd raw = rbind (parse_receipt cd raw) (validate_receipt cd)"

definition load_tombstone_json :: "'a codec_scheme \<Rightarrow> string \<Rightarrow> exn + tombstone" where
  "load_tombstone_json cd raw = rbind (parse_tombstone cd raw) validate_tombstone"

section \<open>The durable event log\<close>

abbreviation newline :: char where "newline \<equiv> CHR 0x0A"

text \<open>The checks \<open>_read_durable_events\<close> makes of one record against those before it.\<close>

definition admit_record :: "string \<Rightarrow> string \<Rightarrow> as_event list \<Rightarrow> as_event \<Rightarrow> exn + as_event list" where
  "admit_record aid rid events rec =
     (if ae_assignment_id rec \<noteq> aid \<or> ae_run_id rec \<noteq> rid then
        Inl (ValueError ''event log identity does not match the admitted request'')
      else if ae_sequence rec \<noteq> int (length events) then
        Inl (ValueError ''event log sequence is not contiguous'')
      else Inr (events @ [rec]))"

fun read_lines :: "'a codec_scheme \<Rightarrow> string \<Rightarrow> string \<Rightarrow> as_event list \<Rightarrow> string list
    \<Rightarrow> exn + as_event list" where
  "read_lines cd aid rid events [] = Inr events"
| "read_lines cd aid rid events (line # lines) =
     rbind (load_event cd line) (\<lambda>rec.
     rbind (admit_record aid rid events rec) (\<lambda>events'. read_lines cd aid rid events' lines))"

definition event_line :: "'a codec_scheme \<Rightarrow> as_event \<Rightarrow> string" where
  "event_line cd e = canonical cd (event_dict cd e) @ [newline]"

definition log_bytes :: "'a codec_scheme \<Rightarrow> as_event list \<Rightarrow> string" where
  "log_bytes cd es = concat (map (event_line cd) es)"

text \<open>
  The events of a log and, where its last record lacks the newline, the bytes the file is
  rewritten with.
\<close>

definition parse_log :: "'a codec_scheme \<Rightarrow> string \<Rightarrow> string \<Rightarrow> string
    \<Rightarrow> exn + (as_event list \<times> string option)" where
  "parse_log cd aid rid raw =
     (if raw = [] then Inr ([], None)
      else let lines = split_on newline raw; trailing = last lines in
        rbind (read_lines cd aid rid [] (butlast lines)) (\<lambda>events.
        if trailing = [] then Inr (events, None)
        else (case load_event cd trailing of
          Inl e \<Rightarrow> if is_ValueError e then Inr (events, Some (log_bytes cd events)) else Inl e
        | Inr rec \<Rightarrow> rbind (admit_record aid rid events rec) (\<lambda>events'.
            Inr (events', Some (log_bytes cd events'))))))"

definition log_ok :: "string \<Rightarrow> string \<Rightarrow> as_event list \<Rightarrow> bool" where
  "log_ok aid rid es \<longleftrightarrow> (\<forall>i < length es. ae_sequence (es ! i) = int i
     \<and> ae_assignment_id (es ! i) = aid \<and> ae_run_id (es ! i) = rid)"

lemma log_ok_snoc: "log_ok aid rid (es @ [e]) \<longleftrightarrow> log_ok aid rid es
    \<and> ae_sequence e = int (length es) \<and> ae_assignment_id e = aid \<and> ae_run_id e = rid"
  by (auto simp: log_ok_def nth_append less_Suc_eq)

lemma admit_record_iff: "admit_record aid rid es e = Inr es' \<longleftrightarrow>
    es' = es @ [e] \<and> ae_sequence e = int (length es) \<and> ae_assignment_id e = aid \<and> ae_run_id e = rid"
  by (auto simp: admit_record_def)

lemma read_lines_log_ok:
  "\<lbrakk>read_lines cd aid rid es ls = Inr es'; log_ok aid rid es\<rbrakk> \<Longrightarrow> log_ok aid rid es'"
  by (induction ls arbitrary: es) (auto simp: admit_record_iff log_ok_snoc)

lemma parse_log_ok: "parse_log cd aid rid raw = Inr (es, p) \<Longrightarrow> log_ok aid rid es"
  using read_lines_log_ok [of cd aid rid "[]"]
  by (fastforce simp: parse_log_def Let_def admit_record_iff log_ok_snoc
      split: if_splits sum.splits intro: read_lines_log_ok simp: log_ok_def [of aid rid "[]"])

text \<open>What the log relies on from the JSON library, for the events of one log.\<close>

definition event_codec_ok :: "'a codec_scheme \<Rightarrow> as_event \<Rightarrow> bool" where
  "event_codec_ok cd e \<longleftrightarrow> load_event cd (canonical cd (event_dict cd e)) = Inr e
     \<and> newline \<notin> set (canonical cd (event_dict cd e)) \<and> canonical cd (event_dict cd e) \<noteq> []"

lemma split_log:
  "list_all (event_codec_ok cd) es \<Longrightarrow>
    split_on newline (log_bytes cd es @ tail)
      = map (\<lambda>e. canonical cd (event_dict cd e)) es @ split_on newline tail"
proof (induction es)
  case (Cons e es)
  have "split_on newline (canonical cd (event_dict cd e) @ newline # (log_bytes cd es @ tail))
      = canonical cd (event_dict cd e) # split_on newline (log_bytes cd es @ tail)"
    using Cons.prems by (intro split_on_append_sep) (simp add: event_codec_ok_def)
  then show ?case using Cons by (simp add: log_bytes_def event_line_def)
qed (simp add: log_bytes_def)

lemma read_lines_log:
  "\<lbrakk>list_all (event_codec_ok cd) es; log_ok aid rid (ds @ es)\<rbrakk> \<Longrightarrow>
    read_lines cd aid rid ds (map (\<lambda>e. canonical cd (event_dict cd e)) es) = Inr (ds @ es)"
proof (induction es arbitrary: ds)
  case (Cons e es)
  have "log_ok aid rid ((ds @ [e]) @ es)" using Cons.prems(2) by simp
  moreover have "admit_record aid rid ds e = Inr (ds @ [e])"
    using Cons.prems(2) by (auto simp: admit_record_iff log_ok_def nth_append dest: spec [of _ "length ds"])
  ultimately show ?case using Cons.IH [of "ds @ [e]"] Cons.prems(1) by (simp add: event_codec_ok_def)
qed simp

lemma parse_log_tail:
  assumes "list_all (event_codec_ok cd) es" and "log_ok aid rid es" and "newline \<notin> set tail"
  shows "parse_log cd aid rid (log_bytes cd es @ tail) =
    (if tail = [] then Inr (es, None)
     else (case load_event cd tail of
        Inl e \<Rightarrow> if is_ValueError e then Inr (es, Some (log_bytes cd es)) else Inl e
      | Inr rec \<Rightarrow> rbind (admit_record aid rid es rec) (\<lambda>es'. Inr (es', Some (log_bytes cd es')))))"
proof (cases "log_bytes cd es @ tail = []")
  case True
  have "es = []"
  proof (rule ccontr)
    assume "es \<noteq> []"
    then show False using True by (cases es) (auto simp: log_bytes_def event_line_def)
  qed
  then show ?thesis using True by (simp add: parse_log_def)
next
  case False
  define raw where "raw = log_bytes cd es @ tail"
  have "split_on newline raw = map (\<lambda>e. canonical cd (event_dict cd e)) es @ [tail]"
    using split_log [OF assms(1)] assms(3) by (simp add: raw_def)
  moreover have "raw \<noteq> []" using False by (simp add: raw_def)
  moreover have "read_lines cd aid rid [] (map (\<lambda>e. canonical cd (event_dict cd e)) es) = Inr es"
    using read_lines_log [of cd es aid rid "[]"] assms by simp
  ultimately show ?thesis unfolding raw_def [symmetric] by (simp add: parse_log_def Let_def)
qed

text \<open>
  C17: A crash while an event is appended loses at most that event. Whatever prefix of the new
  record reached the file, reading the log back gives the earlier events, with the new one
  exactly when its JSON is complete, and a file that ends without a newline is rewritten as
  the log of the events returned. It is assumed that the library reads back what it wrote,
  writes no newline, and rejects a strict prefix of the new record with a \<open>ValueError\<close>.
\<close>

theorem crash_safe_append:
  fixes cd :: "'a codec_scheme"
  defines "json \<equiv> \<lambda>e. canonical cd (event_dict cd e)"
  assumes "list_all (event_codec_ok cd) (es @ [e])" and "log_ok aid rid (es @ [e])"
    and "\<forall>k. 0 < k \<and> k < length (json e) \<longrightarrow> (\<exists>m. parse_event cd (take k (json e)) = Inl (ValidationError m))"
  shows "parse_log cd aid rid (log_bytes cd es @ take n (event_line cd e)) =
    (if n = 0 then Inr (es, None)
     else if n < length (json e) then Inr (es, Some (log_bytes cd es))
     else if n = length (json e) then Inr (es @ [e], Some (log_bytes cd (es @ [e])))
     else Inr (es @ [e], None))"
proof -
  have ok: "list_all (event_codec_ok cd) es" "log_ok aid rid es" "event_codec_ok cd e"
    using assms by (simp_all add: log_ok_snoc)
  then have e: "load_event cd (json e) = Inr e" "newline \<notin> set (json e)" "json e \<noteq> []"
    by (simp_all add: event_codec_ok_def json_def)
  have adm: "admit_record aid rid es e = Inr (es @ [e])"
    using assms(3) by (simp add: log_ok_snoc admit_record_iff)
  have line: "event_line cd e = json e @ [newline]" by (simp add: event_line_def json_def)
  have free: "newline \<notin> set (take n (json e))" using e(2) by (auto dest: in_set_takeD)
  consider "n = 0" | "0 < n" "n < length (json e)" | "n = length (json e)" | "length (json e) < n"
    by linarith
  then show ?thesis
  proof cases
    case 1
    then show ?thesis using parse_log_tail [OF ok(1,2), of "[]"] e(3) by simp
  next
    case 2
    then obtain m where "parse_event cd (take n (json e)) = Inl (ValidationError m)"
      using assms(4) by blast
    then have "load_event cd (take n (json e)) = Inl (ValidationError m)" by (simp add: load_event_def)
    then show ?thesis using parse_log_tail [OF ok(1,2) free] 2 e(3) by (simp add: line)
  next
    case 3
    then show ?thesis using parse_log_tail [OF ok(1,2) free] e adm by (simp add: line)
  next
    case 4
    have "log_bytes cd es @ take n (event_line cd e) = log_bytes cd (es @ [e]) @ []"
      using 4 by (simp add: line log_bytes_def)
    then show ?thesis
      using parse_log_tail [OF assms(2,3), of "[]"] 4 e(3) by (simp del: append_Nil2)
  qed
qed

definition demo_event :: "int \<Rightarrow> as_event" where
  "demo_event n = \<lparr>ae_assignment_id = ''a1'', ae_run_id = ''a1'', ae_sequence = n,
     ae_event = ''started'', ae_at = 0, ae_details = []\<rparr>"

definition demo_event_codec :: codec where
  "demo_event_codec = \<lparr>canonical = (\<lambda>d. if map_of d ''sequence'' = Some (PInt 0) then ''[0]'' else ''[1]''),
     sha256 = id, iso = (\<lambda>_. ''t''), parse_request = (\<lambda>_. Inl (ValidationError '''')),
     parse_event = (\<lambda>s. if s = ''[0]'' then Inr (demo_event 0)
        else if s = ''[1]'' then Inr (demo_event 1) else Inl (ValidationError ''json'')),
     parse_receipt = (\<lambda>_. Inl (ValidationError '''')), parse_tombstone = (\<lambda>_. Inl (ValidationError ''''))\<rparr>"

lemma demo_event_codec_simps:
  "canonical demo_event_codec (event_dict demo_event_codec (demo_event n)) = (if n = 0 then ''[0]'' else ''[1]'')"
  "parse_event demo_event_codec s = (if s = ''[0]'' then Inr (demo_event 0)
        else if s = ''[1]'' then Inr (demo_event 1) else Inl (ValidationError ''json''))"
  by (simp_all add: demo_event_codec_def event_dict_def demo_event_def)

theorem crash_safe_append_witness:
  "parse_log demo_event_codec ''a1'' ''a1''
     (log_bytes demo_event_codec [demo_event 0] @ take 2 (event_line demo_event_codec (demo_event 1)))
   = Inr ([demo_event 0], Some (log_bytes demo_event_codec [demo_event 0]))"
proof -
  have codec: "list_all (event_codec_ok demo_event_codec) ([demo_event 0] @ [demo_event 1])"
    by (simp add: event_codec_ok_def demo_event_codec_simps load_event_def)
      (simp add: validate_event_def require_def demo_event_def event_names_def)
  have log: "log_ok ''a1'' ''a1'' ([demo_event 0] @ [demo_event 1])"
    by (simp add: log_ok_def demo_event_def less_Suc_eq)
  have pre: "\<forall>k. 0 < k \<and> k < length (canonical demo_event_codec (event_dict demo_event_codec (demo_event 1)))
      \<longrightarrow> (\<exists>m. parse_event demo_event_codec
        (take k (canonical demo_event_codec (event_dict demo_event_codec (demo_event 1)))) = Inl (ValidationError m))"
    by (auto simp: demo_event_codec_simps less_Suc_eq eval_nat_numeral)
  show ?thesis
    using crash_safe_append [OF codec log pre, of 2] by (simp add: demo_event_codec_simps)
qed

end
