(* ===== verification/Service.thy ===== *)
theory Service
  imports Assignment
begin

text \<open>
  \<open>AssignmentService\<close> of \<open>src/testudo/runtime/assignment.py\<close>: admission, execution,
  cancellation, operator terminalization, and the recovery of the state root after a restart,
  with quarantine, identity tombstones and ambiguity markers.

  The service runs one thread per admitted assignment. \<open>begin_run\<close> is the part of \<open>_execute\<close>
  up to the \<open>started\<close> event, \<open>finish_run\<close> the rest, with what the contained run returned as
  its argument; other operations may come in between. A run's state is reached by its
  assignment id. \<open>sv_launched\<close> records the threads ever started, over all processes on one
  state root. A restart keeps the disk and that record, nothing else.
\<close>

record runner =
  rn_backend :: string
  rn_stop_handle :: bool

record runner_result =
  rr_exit_status :: int
  rr_stdout :: string
  rr_stderr :: string
  rr_runtime_ms :: int

record isolation =
  is_primitive :: string
  is_network :: string
  is_read_only :: bool

datatype thread = NoThread | Launched | Running | Ended

record run_state =
  rs_request :: request
  rs_run_id :: string
  rs_runner :: "runner option"
  rs_events :: "as_event list"
  rs_receipt :: "as_receipt option"
  rs_cancel_requested :: bool
  rs_recovered :: bool
  rs_started_at :: int
  rs_thread :: thread

record svc = host +
  sv_runs :: "(string \<times> run_state) list"
  sv_tombstones :: "(string \<times> tombstone) list"
  sv_envelope_tombstones :: "(string \<times> string) list"
  sv_ambiguous :: "string set"
  sv_alive :: bool
  sv_launched :: "string list"

record svc_env = codec +
  faults :: io_oracle
  clock :: "nat \<Rightarrow> int"
  utc_now :: "nat \<Rightarrow> int"
  runner_factory :: "request \<Rightarrow> exn + runner"
  isolation_factory :: "request \<Rightarrow> exn + isolation"
  verify_dispatcher :: "request \<Rightarrow> exn + unit"
  verify_operator :: "(string \<Rightarrow> (string \<times> string) list \<Rightarrow> exn + unit) option"
  artifact_factories :: bool
  stop_vm :: "string \<Rightarrow> string \<Rightarrow> exn + unit"

definition quarantine_suffix :: string where "quarantine_suffix = ''.quarantined''"
definition tombstone_name :: string where "tombstone_name = ''identity-tombstone.json''"

definition assignment_error :: "string \<Rightarrow> (svc, 'a) act" where
  "assignment_error m = araise (AssignmentError m)"

fun is_AssignmentError :: "exn \<Rightarrow> bool" where
  "is_AssignmentError (AssignmentError _) = True"
| "is_AssignmentError _ = False"

section \<open>Runs\<close>

definition run_state_init :: "request \<Rightarrow> string \<Rightarrow> int \<Rightarrow> run_state" where
  "run_state_init r run_id started = \<lparr>rs_request = r, rs_run_id = run_id, rs_runner = None,
     rs_events = [], rs_receipt = None, rs_cancel_requested = False, rs_recovered = False,
     rs_started_at = started, rs_thread = NoThread\<rparr>"

text \<open>\<open>_state\<close>, and an assignment to a field of the state object.\<close>

definition get_run :: "string \<Rightarrow> (svc, run_state) act" where
  "get_run i = awith (\<lambda>s. case map_of (sv_runs s) i of
     None \<Rightarrow> assignment_error ''assignment identity is unknown'' | Some st \<Rightarrow> aret st)"

definition put_run :: "string \<Rightarrow> run_state \<Rightarrow> (svc, unit) act" where
  "put_run i st = aset (\<lambda>s. s\<lparr>sv_runs := AList.update i st (sv_runs s)\<rparr>)"

text \<open>\<open>_emit\<close> on the state object \<open>st\<close> of the assignment \<open>i\<close>: the event, and the object after it.\<close>

definition emit_event :: "svc_env \<Rightarrow> string \<Rightarrow> run_state \<Rightarrow> string \<Rightarrow> pydict
    \<Rightarrow> (svc, as_event \<times> run_state) act" where
  "emit_event env i st event details =
     abind (host_clock (clock env)) (\<lambda>now.
     let rec = \<lparr>ae_assignment_id = rq_assignment_id (rs_request st), ae_run_id = rs_run_id st,
                ae_sequence = int (length (rs_events st)), ae_event = event, ae_at = now,
                ae_details = details\<rparr>;
         st' = st\<lparr>rs_events := rs_events st @ [rec]\<rparr> in
     abind (alift (validate_event rec)) (\<lambda>_.
     abind (put_run i st') (\<lambda>_.
     abind (mkdir (faults env) True (rs_run_id st)) (\<lambda>_.
     abind (append_file (faults env) (InDir (rs_run_id st) ''events.jsonl'') (event_line env rec)) (\<lambda>_.
     abind (fsync_dir (faults env) (rs_run_id st)) (\<lambda>_. aret (rec, st')))))))"

definition json_line :: "svc_env \<Rightarrow> pydict \<Rightarrow> string" where
  "json_line env d = canonical env d @ [newline]"

definition persist :: "svc_env \<Rightarrow> run_state \<Rightarrow> as_event \<Rightarrow> as_receipt \<Rightarrow> (svc, unit) act" where
  "persist env st terminal receipt =
     abind (mkdir (faults env) True (rs_run_id st)) (\<lambda>_.
     abind (atomic_write_bytes (faults env) (InDir (rs_run_id st) ''terminal-event.json'')
              (json_line env (event_dict env terminal))) (\<lambda>_.
     abind (atomic_write_bytes (faults env) (InDir (rs_run_id st) ''receipt.json'')
              (json_line env (receipt_dict env receipt))) (\<lambda>_.
       fsync_dir (faults env) (rs_run_id st))))"

definition write_workflow :: "svc_env \<Rightarrow> run_state \<Rightarrow> pydict \<Rightarrow> (svc, unit) act" where
  "write_workflow env st flow =
     atomic_write_bytes (faults env) (InDir (rs_run_id st) ''workflow.json'') (json_line env flow)"

section \<open>Admission\<close>

text \<open>Read and validate a model; a file that is missing or cannot be read or parsed is skipped.\<close>

definition try_read :: "svc_env \<Rightarrow> loc \<Rightarrow> (string \<Rightarrow> exn + 'a) \<Rightarrow> (svc, 'a option) act" where
  "try_read env l load = awith (\<lambda>s. case file_at (sv_disk s) l of
       None \<Rightarrow> aret None
     | Some _ \<Rightarrow> acatch (\<lambda>e. is_OSError e \<or> is_ValueError e)
         (abind (read_bytes (faults env) l) (\<lambda>raw.
          abind (alift (load raw)) (\<lambda>v. aret (Some v))))
         (\<lambda>_. aret None))"

definition reject_duplicate_identity :: "svc_env \<Rightarrow> request \<Rightarrow> (svc, unit) act" where
  "reject_duplicate_identity env r = awith (\<lambda>s.
     if map_of (sv_runs s) (rq_assignment_id r) \<noteq> None then
       assignment_error ''assignment identity already exists''
     else if map_of (sv_tombstones s) (rq_assignment_id r) \<noteq> None then
       assignment_error ''assignment identity was quarantined and cannot be reused''
     else if map_of (sv_envelope_tombstones s) (rq_envelope_id r) \<noteq> None then
       assignment_error ''assignment envelope identity was quarantined and cannot be reused''
     else if map_of (sv_disk s) (rq_assignment_id r) \<noteq> None then
       assignment_error ''assignment identity already has durable state''
     else if list_ex (\<lambda>(i, st). rq_envelope_id (rs_request st) = rq_envelope_id r) (sv_runs s) then
       assignment_error ''assignment envelope identity already exists''
     else abind (probe (faults env) ''.'') (\<lambda>_.
       afor (map fst (sv_disk s)) (\<lambda>n.
         abind (try_read env (InDir n ''request.json'') (load_request env)) (\<lambda>durable. case durable of
             None \<Rightarrow> aret ()
           | Some q \<Rightarrow>
               if rq_envelope_id q = rq_envelope_id r then
                 assignment_error ''assignment envelope identity already has durable state''
               else aret ()))))"

definition allowed_backends :: "string list" where
  "allowed_backends = [''microvm'', ''native-container'']"

definition admit_prepare :: "svc_env \<Rightarrow> request \<Rightarrow> (svc, as_event \<times> run_state) act" where
  "admit_prepare env r = (let run_id = rq_assignment_id r in
     abind (reject_duplicate_identity env r) (\<lambda>_.
     abind (host_clock (utc_now env)) (\<lambda>started.
     abind (mkdir (faults env) False run_id) (\<lambda>_.
     abind (fsync_dir (faults env) ''.'') (\<lambda>_.
     abind (atomic_write_bytes (faults env) (InDir run_id ''request.json'')
              (json_line env (request_dict env r))) (\<lambda>_.
     let st = run_state_init r run_id started in
     abind (put_run run_id st) (\<lambda>_.
       emit_event env run_id st ''admitted'' [(''backend'', PStr (rq_backend r))])))))))"

text \<open>\<open>thread.start()\<close>\<close>

definition launch :: "string \<Rightarrow> run_state \<Rightarrow> (svc, unit) act" where
  "launch i st = abind (put_run i (st\<lparr>rs_thread := Launched\<rparr>)) (\<lambda>_.
     aset (\<lambda>s. s\<lparr>sv_launched := sv_launched s @ [i]\<rparr>))"

definition admit :: "svc_env \<Rightarrow> request \<Rightarrow> (svc, as_event) act" where
  "admit env r = abind (admit_prepare env r) (\<lambda>(admitted, st).
     abind (launch (rq_assignment_id r) st) (\<lambda>_. aret admitted))"

definition start :: "svc_env \<Rightarrow> request \<Rightarrow> (svc, as_event) act" where
  "start env value =
     abind (alift (validate_request value)) (\<lambda>r.
     abind (host_clock (clock env)) (\<lambda>now.
     abind (alift (verify_request env now r)) (\<lambda>_.
     abind (alift (verify_dispatcher env r)) (\<lambda>_.
     if rq_backend r \<notin> set allowed_backends then
       assignment_error ''assignment backend is not an approved containment boundary''
     else awith (\<lambda>s.
       if sv_ambiguous s \<noteq> {} then
         assignment_error (''assignment state root is ambiguous: quarantined identity evidence is ''
           @ ''unrecoverable for '' @ comma_join (sorted_list_of_set (sv_ambiguous s))
           @ ''; explicit reconciliation is required'')
       else admit env r)))))"

section \<open>Cancellation and queries\<close>

definition observe :: "string \<Rightarrow> (svc, as_event list) act" where
  "observe i = abind (get_run i) (\<lambda>st. aret (rs_events st))"

definition receipt_of :: "string \<Rightarrow> (svc, as_receipt option) act" where
  "receipt_of i = abind (get_run i) (\<lambda>st. aret (rs_receipt st))"

definition cancel :: "svc_env \<Rightarrow> string \<Rightarrow> string \<Rightarrow> (svc, as_event) act" where
  "cancel env i reason =
     (if \<not> len_between 1 1024 reason then
        assignment_error ''cancellation reason is required and limited to 1024 characters''
      else abind (get_run i) (\<lambda>st.
        if rs_receipt st \<noteq> None then assignment_error ''assignment is already terminal''
        else if rs_runner st = None \<and> list_ex (\<lambda>e. ae_event e = ''started'') (rs_events st) then
          assignment_error ''recovered active assignment requires supervisor reconciliation''
        else if rs_cancel_requested st then
          (if rs_events st = [] then araise (ToolError ''IndexError'' ''list index out of range'')
           else aret (last (rs_events st)))
        else
          let st1 = st\<lparr>rs_cancel_requested := True\<rparr> in
          abind (put_run i st1) (\<lambda>_.
          abind (emit_event env i st1 ''cancel_requested'' [(''reason'', PStr reason)]) (\<lambda>(event, _).
          abind (if (case rs_runner st of None \<Rightarrow> False | Some rn \<Rightarrow> rn_stop_handle rn)
                 then alift (stop_vm env (rs_run_id st) reason) else aret ()) (\<lambda>_. aret event)))))"

definition reconcile :: "string \<Rightarrow> (svc, pydict) act" where
  "reconcile envelope_id = awith (\<lambda>s.
     case filter (\<lambda>(i, st). rq_envelope_id (rs_request st) = envelope_id) (sv_runs s) of
       [] \<Rightarrow> aret [(''schema'', PStr ''testudo.assignment.reconcile.v1''),
                (''envelope_id'', PStr envelope_id), (''state'', PStr ''absent'')]
     | [(i, st)] \<Rightarrow> aret [(''schema'', PStr ''testudo.assignment.reconcile.v1''),
          (''envelope_id'', PStr envelope_id),
          (''assignment_id'', PStr (rq_assignment_id (rs_request st))), (''run_id'', PStr (rs_run_id st)),
          (''state'', PStr (case rs_receipt st of Some rc \<Rightarrow> ar_status rc
             | None \<Rightarrow> if rs_recovered st \<and> rs_runner st = None then ''interrupted'' else ''active'')),
          (''receipt_id'', case rs_receipt st of None \<Rightarrow> PNone | Some rc \<Rightarrow> PStr (ar_receipt_id rc))]
     | _ \<Rightarrow> assignment_error ''multiple runs exist for one envelope identity'')"

section \<open>Terminal evidence\<close>

definition make_as_receipt :: "svc_env \<Rightarrow> run_state \<Rightarrow> string \<Rightarrow> int option \<Rightarrow> int \<Rightarrow> string option
    \<Rightarrow> pydict option \<Rightarrow> pydict list \<Rightarrow> string option \<Rightarrow> exn + as_receipt" where
  "make_as_receipt env st status exit_status finished result_sha host_receipt artifacts error =
     validate_receipt env \<lparr>ar_assignment_id = rq_assignment_id (rs_request st),
       ar_envelope_id = rq_envelope_id (rs_request st),
       ar_envelope_sha256 = rq_envelope_sha256 (rs_request st), ar_run_id = rs_run_id st,
       ar_backend = rq_backend (rs_request st), ar_status = status, ar_exit_status = exit_status,
       ar_started_at = rs_started_at st, ar_finished_at = finished,
       ar_events_sha256 = events_digest env (rs_events st), ar_result_sha256 = result_sha,
       ar_host_receipt = host_receipt, ar_artifacts = artifacts, ar_error = error,
       ar_receipt_id = []\<rparr>"

definition set_receipt :: "svc_env \<Rightarrow> string \<Rightarrow> run_state \<Rightarrow> as_event \<Rightarrow> as_receipt
    \<Rightarrow> (svc, as_receipt) act" where
  "set_receipt env i st terminal receipt =
     abind (put_run i (st\<lparr>rs_receipt := Some receipt\<rparr>)) (\<lambda>_.
     abind (persist env st terminal receipt) (\<lambda>_. aret receipt))"

definition authorize_operator :: "svc_env \<Rightarrow> string \<Rightarrow> (string \<times> string) list \<Rightarrow> (svc, unit) act" where
  "authorize_operator env operation details =
     (case verify_operator env of
        None \<Rightarrow> assignment_error (operation @ '' requires operator authorization'')
      | Some verify \<Rightarrow> alift (verify operation details))"

definition terminalize :: "svc_env \<Rightarrow> string \<Rightarrow> string \<Rightarrow> string \<Rightarrow> (svc, as_receipt) act" where
  "terminalize env i status reason =
     abind (authorize_operator env ''terminalize''
              [(''assignment_id'', i), (''status'', status), (''reason'', reason)]) (\<lambda>_.
     if \<not> len_between 1 1024 reason then
       assignment_error ''terminalization reason is required and limited to 1024 characters''
     else abind (get_run i) (\<lambda>st.
       if rs_receipt st \<noteq> None then assignment_error ''assignment is already terminal''
       else if rs_runner st \<noteq> None \<or> \<not> rs_recovered st then
         assignment_error (''only a recovered interrupted assignment can be terminalized; ''
           @ ''active runs require cancellation'')
       else
         let st1 = st\<lparr>rs_cancel_requested := True\<rparr> in
         abind (put_run i st1) (\<lambda>_.
         abind (emit_event env i st1 status [(''reason'', PStr reason), (''operator'', PBool True)])
           (\<lambda>(terminal, st2).
         abind (host_clock (clock env)) (\<lambda>finished.
         abind (alift (make_as_receipt env st2 status None finished None None []
                  (Some (''operator terminalization: '' @ reason)))) (\<lambda>receipt.
           set_receipt env i st2 terminal receipt))))))"

section \<open>Execution\<close>

definition result_map :: "runner_result \<Rightarrow> pydict" where
  "result_map r = [(''exit_status'', PInt (rr_exit_status r)), (''stdout'', PStr (rr_stdout r)),
     (''stderr'', PStr (rr_stderr r)), (''runtime_ms'', PInt (rr_runtime_ms r))]"

text \<open>The end of \<open>_execute\<close>, after its \<open>try\<close> statement.\<close>

definition conclude :: "svc_env \<Rightarrow> string \<Rightarrow> run_state \<Rightarrow> string \<Rightarrow> runner_result option \<Rightarrow> pydict option
    \<Rightarrow> pydict list \<Rightarrow> string option \<Rightarrow> (svc, unit) act" where
  "conclude env i st status result host_receipt artifacts error =
     abind (host_clock (clock env)) (\<lambda>finished.
     let st1 = st\<lparr>rs_runner := None, rs_thread := Ended\<rparr> in
     abind (put_run i st1) (\<lambda>_.
     abind (emit_event env i st1 status
              (case error of None \<Rightarrow> [] | Some m \<Rightarrow> [(''error'', PStr m)])) (\<lambda>(terminal, st2).
     abind (alift (make_as_receipt env st2 status (map_option rr_exit_status result) finished
              (map_option (\<lambda>r. digest env (result_map r)) result) host_receipt artifacts error)) (\<lambda>receipt.
     abind (set_receipt env i st2 terminal receipt) (\<lambda>_. aret ())))))"

text \<open>The \<open>except BaseException\<close> branch.\<close>

definition error_text :: "exn \<Rightarrow> string" where
  "error_text e = exn_name e @ '': '' @ exn_str e"

definition failed_status :: "run_state \<Rightarrow> exn \<Rightarrow> string" where
  "failed_status st e = (if rs_cancel_requested st then ''cancelled''
     else if is_AssignmentError e then ''refused'' else ''failed'')"

definition conclude_failed :: "svc_env \<Rightarrow> string \<Rightarrow> run_state \<Rightarrow> runner_result option \<Rightarrow> pydict option \<Rightarrow> exn
    \<Rightarrow> (svc, unit) act" where
  "conclude_failed env i st result host_receipt e =
     conclude env i st (failed_status st e) result host_receipt [] (Some (error_text e))"

definition begin_body :: "svc_env \<Rightarrow> string \<Rightarrow> run_state \<Rightarrow> (svc, unit) act" where
  "begin_body env i st = (let r = rs_request st in
     abind (alift (runner_factory env r)) (\<lambda>rn.
     if rn_backend rn \<noteq> rq_backend r \<or> rn_backend rn \<notin> set allowed_backends then
       assignment_error ''runner backend does not match the contained assignment''
     else abind (alift (isolation_factory env r)) (\<lambda>isol.
     if rq_backend r = ''microvm'' \<and> is_primitive isol \<noteq> ''microvm'' then
       assignment_error ''microVM assignment requires microVM isolation''
     else if is_network isol \<noteq> ''none'' \<or> \<not> is_read_only isol then
       assignment_error ''assignment requires no-network read-only isolation''
     else abind (write_workflow env st (request_workflow r)) (\<lambda>_.
     let st1 = st\<lparr>rs_runner := Some rn, rs_thread := Running\<rparr> in
     abind (put_run i st1) (\<lambda>_.
     if rs_cancel_requested st1 then
       assignment_error ''assignment cancelled before contained startup''
     else abind (emit_event env i st1 ''started'' []) (\<lambda>_. aret ()))))))"

definition begin_run :: "svc_env \<Rightarrow> string \<Rightarrow> (svc, unit) act" where
  "begin_run env i = abind (get_run i) (\<lambda>st.
     if rs_thread st \<noteq> Launched then aret ()
     else acatch (\<lambda>e. e \<noteq> ProcessDied) (begin_body env i st)
       (\<lambda>e. abind (get_run i) (\<lambda>st1. conclude_failed env i st1 None None e)))"

definition promote_entry :: "pyval \<Rightarrow> exn + pydict" where
  "promote_entry item = (case item of
     PDict d \<Rightarrow>
       (case dict_get d ''path'' of
          PStr name \<Rightarrow>
            if name = [] then Inl (AssignmentError ''artifact manifest entry is missing its path'')
            else (case dict_get d ''sha256'' of
              PStr h \<Rightarrow> if hex_string 64 h then Inr [(''name'', PStr name), (''sha256'', PStr h)]
                else Inl (AssignmentError (''artifact '' @ py_repr name @ '' has no valid SHA-256 digest''))
            | _ \<Rightarrow> Inl (AssignmentError (''artifact '' @ py_repr name @ '' has no valid SHA-256 digest'')))
        | _ \<Rightarrow> Inl (AssignmentError ''artifact manifest entry is missing its path''))
   | _ \<Rightarrow> Inl (AssignmentError ''artifact manifest entry is not an object''))"

definition promote_artifacts :: "svc_env \<Rightarrow> request \<Rightarrow> pydict option \<Rightarrow> exn + pydict list" where
  "promote_artifacts env r manifest =
     (if \<not> artifact_factories env then Inr []
      else if rq_artifact_store_id r = None then Inr []
      else (case manifest of
        None \<Rightarrow> Inl (AssignmentError (''assignment binds an artifact store but the contained run ''
                 @ ''produced no egress manifest''))
      | Some m \<Rightarrow>
          if dict_get m ''store_id'' \<noteq> opt_text (rq_artifact_store_id r) then
            Inl (AssignmentError ''artifact manifest store does not match the assignment binding'')
          else if dict_get m ''scanner_id'' \<noteq> opt_text (rq_egress_scanner_id r) then
            Inl (AssignmentError ''artifact manifest scanner does not match the assignment binding'')
          else (case dict_get m ''files'' of
              PList files \<Rightarrow> rmap promote_entry files
            | _ \<Rightarrow> Inl (AssignmentError ''artifact manifest is missing its files list''))))"

text \<open>
  What the contained run left: the result or exception of \<open>runner.run\<close>, and the runner's
  last host receipt and artifact manifest.
\<close>

record run_outcome =
  ro_result :: "exn + runner_result"
  ro_host_receipt :: "pydict option"
  ro_manifest :: "pydict option"

definition finish_run :: "svc_env \<Rightarrow> string \<Rightarrow> run_outcome \<Rightarrow> (svc, unit) act" where
  "finish_run env i ro = abind (get_run i) (\<lambda>st.
     if rs_thread st \<noteq> Running then aret ()
     else (case ro_result ro of
       Inl e \<Rightarrow> conclude_failed env i st None None e
     | Inr result \<Rightarrow>
         (case ro_host_receipt ro of
            None \<Rightarrow> conclude_failed env i st (Some result) None
              (AssignmentError ''contained run ended without a verified host receipt'')
          | Some h \<Rightarrow>
              (case promote_artifacts env (rs_request st) (ro_manifest ro) of
                 Inl e \<Rightarrow> conclude_failed env i st (Some result) (Some h) e
               | Inr artifacts \<Rightarrow>
                   conclude env i st
                     (if rs_cancel_requested st then ''cancelled''
                      else if rr_exit_status result = 0 then ''succeeded'' else ''failed'')
                     (Some result) (Some h) artifacts None))))"

section \<open>Recovery\<close>

definition add_ambiguous :: "string \<Rightarrow> (svc, unit) act" where
  "add_ambiguous n = aset (\<lambda>s. s\<lparr>sv_ambiguous := insert n (sv_ambiguous s)\<rparr>)"

text \<open>\<open>name.removesuffix(QUARANTINE_SUFFIX)\<close>\<close>

definition base_name :: "string \<Rightarrow> string" where
  "base_name n = (if suffix quarantine_suffix n
     then take (length n - length quarantine_suffix) n else n)"

definition register_tombstone :: "tombstone \<Rightarrow> (svc, unit) act" where
  "register_tombstone t = aset (\<lambda>s. s\<lparr>
     sv_tombstones := AList.update (tb_assignment_id t) t (sv_tombstones s),
     sv_envelope_tombstones :=
       (if map_of (sv_envelope_tombstones s) (tb_envelope_id t) = None
        then AList.update (tb_envelope_id t) (tb_assignment_id t) (sv_envelope_tombstones s)
        else sv_envelope_tombstones s)\<rparr>)"

definition load_tombstone :: "svc_env \<Rightarrow> string \<Rightarrow> (svc, unit) act" where
  "load_tombstone env n = awith (\<lambda>s.
     case file_at (sv_disk s) (InDir n tombstone_name) of
       None \<Rightarrow>
         abind (probe (faults env) n) (\<lambda>_.
         if (case dir_files (sv_disk s) n of None \<Rightarrow> False
             | Some fs \<Rightarrow> list_ex (\<lambda>(f, c). f \<notin> {''quarantine.json'', ''request.json.tmp''}) fs)
         then add_ambiguous (base_name n) else aret ())
     | Some _ \<Rightarrow>
         abind (acatch (\<lambda>e. is_OSError e \<or> is_ValueError e)
           (abind (read_bytes (faults env) (InDir n tombstone_name)) (\<lambda>raw.
            abind (alift (load_tombstone_json env raw)) (\<lambda>t. aret (Some t))))
           (\<lambda>_. aret None))
         (\<lambda>t. case t of None \<Rightarrow> add_ambiguous (base_name n) | Some t \<Rightarrow> register_tombstone t))"

text \<open>
  \<open>_recover_identity\<close>: the first of \<open>request.json\<close> and \<open>receipt.json\<close> that can be read.
\<close>

definition recover_identity :: "svc_env \<Rightarrow> string \<Rightarrow> (svc, (string \<times> string \<times> string) option) act" where
  "recover_identity env n =
     abind (try_read env (InDir n ''request.json'') (load_request env)) (\<lambda>r. case r of
       Some r \<Rightarrow> aret (Some (rq_assignment_id r, rq_envelope_id r, rq_envelope_sha256 r))
     | None \<Rightarrow>
         abind (try_read env (InDir n ''receipt.json'') (load_receipt env)) (\<lambda>c. case c of
           Some c \<Rightarrow> aret (Some (ar_assignment_id c, ar_envelope_id c, ar_envelope_sha256 c))
         | None \<Rightarrow> aret None))"

definition write_tombstone :: "svc_env \<Rightarrow> string \<Rightarrow> string \<times> string \<times> string \<Rightarrow> string
    \<Rightarrow> (svc, tombstone \<times> bool) act" where
  "write_tombstone env n ident reason = (case ident of (aid, eid, sha) \<Rightarrow>
     abind (host_clock (clock env)) (\<lambda>now.
     abind (alift (validate_tombstone \<lparr>tb_assignment_id = aid, tb_envelope_id = eid,
              tb_envelope_sha256 = sha, tb_quarantined_at = now, tb_reason = reason\<rparr>)) (\<lambda>t.
     abind (acatch is_OSError
              (abind (atomic_write_bytes (faults env) (InDir n tombstone_name)
                        (json_line env (tombstone_dict env t))) (\<lambda>_. aret True))
              (\<lambda>_. abind (add_ambiguous (base_name n)) (\<lambda>_. aret False))) (\<lambda>persisted.
     abind (register_tombstone t) (\<lambda>_. aret (t, persisted))))))"

definition marker_name :: "string \<Rightarrow> string" where
  "marker_name n = n @ quarantine_suffix @ ''.ambiguous''"

definition mark_ambiguous :: "svc_env \<Rightarrow> string \<Rightarrow> string \<Rightarrow> (svc, unit) act" where
  "mark_ambiguous env n reason =
     abind (add_ambiguous n) (\<lambda>_. awith (\<lambda>s.
     if file_at (sv_disk s) (InRoot (marker_name n)) \<noteq> None then aret ()
     else abind (host_clock (clock env)) (\<lambda>now.
       acatch is_OSError
         (atomic_write_bytes (faults env) (InRoot (marker_name n)) (json_line env
            [(''schema'', PStr ''testudo.assignment.ambiguous.v1''), (''run_id'', PStr n),
             (''reason'', PStr reason), (''at'', PStr (iso env now))]))
         (\<lambda>_. aret ()))))"

text \<open>
  The \<open>try\<close> statement of \<open>_quarantine\<close>: \<open>None\<close> when it returned early, otherwise whether the
  directory was left by a crash before admission.
\<close>

definition quarantine_move :: "svc_env \<Rightarrow> string \<Rightarrow> (svc, bool option) act" where
  "quarantine_move env n = (let target = n @ quarantine_suffix in
     acatch is_OSError
       (awith (\<lambda>s.
          if map_of (sv_disk s) target \<noteq> None then
            abind (mark_ambiguous env n ''quarantine target already exists'') (\<lambda>_. aret None)
          else
            abind (probe (faults env) n) (\<lambda>_.
            let names = (case dir_files (sv_disk s) n of None \<Rightarrow> [] | Some fs \<Rightarrow> map fst fs);
                pre_admission = list_all (\<lambda>f. f = ''request.json.tmp'') names in
            abind (rename_entry (faults env) n target) (\<lambda>_. aret (Some pre_admission)))))
       (\<lambda>_. abind (mark_ambiguous env n ''quarantine rename failed'') (\<lambda>_. aret None)))"

text \<open>The end of \<open>_quarantine\<close>: a tombstone for the identity, or ambiguity.\<close>

definition entomb :: "svc_env \<Rightarrow> string \<Rightarrow> string \<Rightarrow> (svc, unit) act" where
  "entomb env n reason = (let target = n @ quarantine_suffix in
     abind (recover_identity env target) (\<lambda>ident. case ident of
       None \<Rightarrow> mark_ambiguous env n ''quarantine identity unrecoverable''
     | Some ident \<Rightarrow> abind (write_tombstone env target ident reason) (\<lambda>_. aret ())))"

definition quarantine :: "svc_env \<Rightarrow> string \<Rightarrow> string \<Rightarrow> (svc, unit) act" where
  "quarantine env n reason = (let target = n @ quarantine_suffix in
     abind (quarantine_move env n) (\<lambda>moved. case moved of
       None \<Rightarrow> aret ()
     | Some pre_admission \<Rightarrow>
         let why = (if pre_admission then ''pre-admission incomplete run directory'' else reason) in
         abind (host_clock (clock env)) (\<lambda>now.
         abind (acatch is_OSError
           (abind (atomic_write_bytes (faults env) (InDir target ''quarantine.json'') (json_line env
              [(''schema'', PStr ''testudo.assignment.quarantine.v1''), (''run_id'', PStr n),
               (''reason'', PStr why), (''at'', PStr (iso env now))])) (\<lambda>_. aret True))
           (\<lambda>_. aret False)) (\<lambda>recorded.
         if \<not> recorded \<or> pre_admission then aret ()
         else entomb env n reason))))"

definition read_durable_events :: "svc_env \<Rightarrow> string \<Rightarrow> string \<Rightarrow> (svc, as_event list) act" where
  "read_durable_events env n aid =
     abind (read_bytes (faults env) (InDir n ''events.jsonl'')) (\<lambda>raw.
     abind (alift (parse_log env aid aid raw)) (\<lambda>(events, rewrite). case rewrite of
       None \<Rightarrow> aret events
     | Some payload \<Rightarrow>
         abind (atomic_write_bytes (faults env) (InDir n ''events.jsonl'') payload) (\<lambda>_. aret events)))"

definition check_receipt :: "svc_env \<Rightarrow> run_state \<Rightarrow> as_receipt \<Rightarrow> exn + unit" where
  "check_receipt env st rc = (let r = rs_request st in
     if ar_assignment_id rc \<noteq> rq_assignment_id r \<or> ar_envelope_id rc \<noteq> rq_envelope_id r
        \<or> ar_envelope_sha256 rc \<noteq> rq_envelope_sha256 r \<or> ar_run_id rc \<noteq> rs_run_id st
        \<or> ar_backend rc \<noteq> rq_backend r then
       Inl (AssignmentError ''receipt identity does not match the admitted request'')
     else if ar_events_sha256 rc \<noteq> events_digest env (rs_events st) then
       Inl (AssignmentError ''receipt event digest does not match the durable event log'')
     else Inr ())"

definition recover_events :: "svc_env \<Rightarrow> string \<Rightarrow> string \<Rightarrow> (svc, as_event list) act" where
  "recover_events env n aid = awith (\<lambda>s.
     if file_at (sv_disk s) (InDir n ''events.jsonl'') \<noteq> None
     then read_durable_events env n aid else aret [])"

definition recover_receipt :: "svc_env \<Rightarrow> string \<Rightarrow> run_state \<Rightarrow> (svc, as_receipt option) act" where
  "recover_receipt env n st = awith (\<lambda>s.
     if file_at (sv_disk s) (InDir n ''receipt.json'') \<noteq> None
     then abind (read_bytes (faults env) (InDir n ''receipt.json'')) (\<lambda>rraw.
          abind (alift (load_receipt env rraw)) (\<lambda>rc.
          abind (alift (check_receipt env st rc)) (\<lambda>_. aret (Some rc))))
     else aret None)"

definition recover_run :: "svc_env \<Rightarrow> string \<Rightarrow> (svc, unit) act" where
  "recover_run env n =
     abind (read_bytes (faults env) (InDir n ''request.json'')) (\<lambda>raw.
     abind (alift (load_request env raw)) (\<lambda>r. let aid = rq_assignment_id r in
     abind (host_clock (utc_now env)) (\<lambda>started.
     abind (recover_events env n aid) (\<lambda>events.
     let st = (run_state_init r aid started)\<lparr>rs_recovered := True, rs_events := events\<rparr> in
     abind (recover_receipt env n st) (\<lambda>receipt. awith (\<lambda>s.
     if map_of (sv_runs s) aid \<noteq> None then
       assignment_error ''duplicate durable assignment identity''
     else put_run aid (st\<lparr>rs_receipt := receipt\<rparr>)))))))"

definition load_caught :: "exn \<Rightarrow> bool" where
  "load_caught e \<longleftrightarrow> is_OSError e \<or> is_ValueError e \<or> is_AssignmentError e"

definition load_run_dir :: "svc_env \<Rightarrow> string \<Rightarrow> (svc, unit) act" where
  "load_run_dir env n = awith (\<lambda>s.
     if dir_files (sv_disk s) n = None \<or> suffix quarantine_suffix n then aret ()
     else if file_at (sv_disk s) (InDir n ''request.json'') = None then
       quarantine env n ''missing request.json''
     else acatch load_caught (recover_run env n) (\<lambda>e. quarantine env n (error_text e)))"

text \<open>The three loops of \<open>_load_durable_state\<close>.\<close>

definition load_tombstones :: "svc_env \<Rightarrow> (svc, unit) act" where
  "load_tombstones env = awith (\<lambda>s.
     afor (sort (filter (\<lambda>n. suffix quarantine_suffix n \<and> dir_files (sv_disk s) n \<noteq> None)
              (map fst (sv_disk s)))) (load_tombstone env))"

definition load_markers :: "(svc, unit) act" where
  "load_markers = awith (\<lambda>s.
     afor (sort (filter (\<lambda>n. suffix (quarantine_suffix @ ''.ambiguous'') n
                  \<and> file_at (sv_disk s) (InRoot n) \<noteq> None) (map fst (sv_disk s))))
       (\<lambda>n. add_ambiguous (take (length n - length (quarantine_suffix @ ''.ambiguous'')) n)))"

definition load_runs :: "svc_env \<Rightarrow> (svc, unit) act" where
  "load_runs env = awith (\<lambda>s. afor (sort (map fst (sv_disk s))) (load_run_dir env))"

definition load_durable_state :: "svc_env \<Rightarrow> (svc, unit) act" where
  "load_durable_state env =
     abind (probe (faults env) ''.'') (\<lambda>_.
     abind (load_tombstones env) (\<lambda>_.
     abind load_markers (\<lambda>_.
     abind (probe (faults env) ''.'') (\<lambda>_. load_runs env))))"

text \<open>A new process on the state root.\<close>

definition restart :: "svc_env \<Rightarrow> (svc, unit) act" where
  "restart env s = (case load_durable_state env
       (s\<lparr>sv_runs := [], sv_tombstones := [], sv_envelope_tombstones := [], sv_ambiguous := {}\<rparr>) of
     (r, s') \<Rightarrow> (r, s'\<lparr>sv_alive := (case r of Inl _ \<Rightarrow> False | Inr _ \<Rightarrow> True)\<rparr>))"

definition retire_marker :: "svc_env \<Rightarrow> string \<Rightarrow> (svc, unit) act" where
  "retire_marker env n = acatch is_OSError
     (abind (unlink (faults env) (InRoot (marker_name n))) (\<lambda>_. fsync_dir (faults env) ''.''))
     (\<lambda>_. aret ())"

definition reconcile_commit :: "svc_env \<Rightarrow> string \<Rightarrow> string \<Rightarrow> string \<Rightarrow> string \<Rightarrow> (svc, tombstone) act" where
  "reconcile_commit env n aid eid sha =
     abind (write_tombstone env (n @ quarantine_suffix) (aid, eid, sha) ''operator reconciliation'')
       (\<lambda>(t, persisted).
          if \<not> persisted then assignment_error ''identity tombstone could not be persisted''
          else
            abind (aset (\<lambda>s. s\<lparr>sv_ambiguous := sv_ambiguous s - {n}\<rparr>)) (\<lambda>_.
            abind (retire_marker env n) (\<lambda>_. aret t)))"

definition reconcile_quarantine :: "svc_env \<Rightarrow> string \<Rightarrow> string \<Rightarrow> string \<Rightarrow> string
    \<Rightarrow> (svc, tombstone) act" where
  "reconcile_quarantine env n aid eid sha =
     (if n = [] \<or> n = ''.'' \<or> n = ''..'' \<or> slash \<in> set n \<or> CHR 0x5C \<in> set n then
        assignment_error ''quarantine name must be a bare directory name''
      else abind (authorize_operator env ''reconcile_quarantine''
          [(''name'', n), (''assignment_id'', aid), (''envelope_id'', eid), (''envelope_sha256'', sha)]) (\<lambda>_.
      awith (\<lambda>s.
        if dir_files (sv_disk s) (n @ quarantine_suffix) = None then
          assignment_error ''quarantine entry is unknown''
        else if n \<notin> sv_ambiguous s then
          assignment_error ''quarantine entry does not require reconciliation''
        else if map_of (sv_tombstones s) aid \<noteq> None \<or> map_of (sv_runs s) aid \<noteq> None then
          assignment_error ''assignment identity already exists''
        else if map_of (sv_envelope_tombstones s) eid \<noteq> None
          \<or> list_ex (\<lambda>(i, st). rq_envelope_id (rs_request st) = eid) (sv_runs s) then
          assignment_error ''assignment envelope identity already exists''
        else reconcile_commit env n aid eid sha)))"

section \<open>Sessions\<close>

datatype svc_op =
    OStart request
  | OBegin string
  | OFinish string run_outcome
  | OCancel string string
  | OTerminalize string string string
  | OReconcileQuarantine string string string string
  | ORestart

fun svc_call :: "svc_env \<Rightarrow> svc_op \<Rightarrow> (svc, unit) act" where
  "svc_call env (OStart r) = abind (start env r) (\<lambda>_. aret ())"
| "svc_call env (OBegin i) = begin_run env i"
| "svc_call env (OFinish i ro) = finish_run env i ro"
| "svc_call env (OCancel i reason) = abind (cancel env i reason) (\<lambda>_. aret ())"
| "svc_call env (OTerminalize i status reason) = abind (terminalize env i status reason) (\<lambda>_. aret ())"
| "svc_call env (OReconcileQuarantine n aid eid sha) =
     abind (reconcile_quarantine env n aid eid sha) (\<lambda>_. aret ())"
| "svc_call env ORestart = restart env"

text \<open>
  Calls on a dead process do nothing; a call in which the process dies ends it. A restart
  brings up a new process, which may die or fail in its turn while it recovers.
\<close>

definition svc_step :: "svc_env \<Rightarrow> svc_op \<Rightarrow> svc \<Rightarrow> (exn + unit) \<times> svc" where
  "svc_step env c s =
     (if c \<noteq> ORestart \<and> \<not> sv_alive s then (Inl ProcessDied, s)
      else case svc_call env c s of
        (Inl ProcessDied, s') \<Rightarrow> (Inl ProcessDied, s'\<lparr>sv_alive := False\<rparr>)
      | (r, s') \<Rightarrow> (r, s'))"

definition svc_init :: svc where
  "svc_init = \<lparr>sv_disk = [], sv_calls = 0, sv_ticks = 0, sv_runs = [], sv_tombstones = [],
     sv_envelope_tombstones = [], sv_ambiguous = {}, sv_alive = False, sv_launched = []\<rparr>"

end
