(* ===== verification/At_Most_Once.thy ===== *)
theory At_Most_Once
  imports Service "HOL-Library.Countable"
begin

text \<open>
  Over every session of the assignment service, with restarts, failed calls and process
  deaths at any point, no assignment and no envelope is launched twice; and the state of every
  run stays well formed, its receipt binding its event log.

  The proof carries two kinds of evidence for a launched assignment: durable evidence (its
  request is in its run directory or in the quarantined one) and, while a process is alive,
  evidence in memory (a run, a tombstone, or an ambiguous name). Every call but four keeps
  both: the rename into quarantine, the launch, the reconciliation by an operator, and the
  restart, which rebuilds the memory from the disk.
\<close>

section \<open>Assumptions on the environment\<close>

text \<open>
  The dispatcher issues each assignment id under one envelope; an operator who reconciles a
  quarantined directory asserts the identity the dispatcher issued; the JSON library reads
  back a valid request and a tombstone it wrote, and the identity of a receipt; and the record of a quarantine can be written (without that the service
  forgets the identity, see the theory \<open>Recovery_Gap\<close>).
\<close>

definition honest :: "svc_env \<Rightarrow> (string \<Rightarrow> string) \<Rightarrow> bool" where
  "honest env issued \<longleftrightarrow>
     (\<forall>r. verify_dispatcher env r = Inr () \<longrightarrow> rq_envelope_id r = issued (rq_assignment_id r))
     \<and> (\<forall>v n aid eid sha. verify_operator env = Some v \<longrightarrow>
          v ''reconcile_quarantine'' [(''name'', n), (''assignment_id'', aid), (''envelope_id'', eid),
            (''envelope_sha256'', sha)] = Inr () \<longrightarrow> aid = n \<and> eid = issued n)
     \<and> (\<forall>r. validate_request r = Inr r \<longrightarrow> parse_request env (json_line env (request_dict env r)) = Inr r)
     \<and> (\<forall>rc. \<exists>rc'. parse_receipt env (json_line env (receipt_dict env rc)) = Inr rc'
          \<and> ar_assignment_id rc' = ar_assignment_id rc \<and> ar_envelope_id rc' = ar_envelope_id rc)
     \<and> (\<forall>t. parse_tombstone env (json_line env (tombstone_dict env t)) = Inr t)
     \<and> (\<forall>k j. faults env k ''quarantine.json'' \<noteq> IoError j)"

section \<open>Well-formed state\<close>

definition file_ok :: "svc_env \<Rightarrow> (string \<Rightarrow> string) \<Rightarrow> string \<Rightarrow> string \<Rightarrow> fnode \<Rightarrow> bool" where
  "file_ok env issued m f c \<longleftrightarrow>
     (f = ''request.json'' \<longrightarrow> (\<exists>r. c = FFile (json_line env (request_dict env r))
        \<and> validate_request r = Inr r \<and> rq_assignment_id r = m \<and> rq_envelope_id r = issued m))
     \<and> (f = ''receipt.json'' \<longrightarrow> (\<exists>rc. c = FFile (json_line env (receipt_dict env rc))
        \<and> ar_assignment_id rc = m \<and> ar_envelope_id rc = issued m))
     \<and> (f = tombstone_name \<longrightarrow> (\<exists>t. c = FFile (json_line env (tombstone_dict env t))
        \<and> validate_tombstone t = Inr t \<and> tb_assignment_id t = m \<and> tb_envelope_id t = issued m))"

definition disk_ok :: "svc_env \<Rightarrow> (string \<Rightarrow> string) \<Rightarrow> disk \<Rightarrow> bool" where
  "disk_ok env issued d \<longleftrightarrow> (\<forall>n f c. dfile d n f = Some c \<longrightarrow> file_ok env issued (base_name n) f c)"

definition receipt_binds :: "svc_env \<Rightarrow> run_state \<Rightarrow> as_receipt \<Rightarrow> bool" where
  "receipt_binds env st rc \<longleftrightarrow> ar_assignment_id rc = rq_assignment_id (rs_request st)
     \<and> ar_envelope_id rc = rq_envelope_id (rs_request st)
     \<and> ar_envelope_sha256 rc = rq_envelope_sha256 (rs_request st) \<and> ar_run_id rc = rs_run_id st
     \<and> ar_events_sha256 rc = events_digest env (rs_events st)
     \<and> ar_receipt_id rc = digest env (as_receipt_payload env rc)"

definition run_ok :: "svc_env \<Rightarrow> (string \<Rightarrow> string) \<Rightarrow> string \<Rightarrow> run_state \<Rightarrow> bool" where
  "run_ok env issued i st \<longleftrightarrow> rq_assignment_id (rs_request st) = i \<and> rs_run_id st = i
     \<and> rq_envelope_id (rs_request st) = issued i \<and> \<not> suffix quarantine_suffix i
     \<and> log_ok i i (rs_events st) \<and> (\<forall>rc. rs_receipt st = Some rc \<longrightarrow> receipt_binds env st rc)
     \<and> (rs_thread st \<in> {Launched, Running} \<longrightarrow> rs_receipt st = None)
     \<and> (rs_recovered st \<longrightarrow> rs_thread st = NoThread)"

definition runs_ok :: "svc_env \<Rightarrow> (string \<Rightarrow> string) \<Rightarrow> (string \<times> run_state) list \<Rightarrow> bool" where
  "runs_ok env issued runs \<longleftrightarrow> (\<forall>i st. map_of runs i = Some st \<longrightarrow> run_ok env issued i st)"

definition safe :: "svc_env \<Rightarrow> (string \<Rightarrow> string) \<Rightarrow> svc \<Rightarrow> bool" where
  "safe env issued s \<longleftrightarrow> disk_ok env issued (sv_disk s) \<and> runs_ok env issued (sv_runs s)"

text \<open>Durable evidence of an assignment, and evidence in memory.\<close>

definition has_request :: "disk \<Rightarrow> string \<Rightarrow> bool" where
  "has_request d n \<longleftrightarrow> dfile d n ''request.json'' \<noteq> None"

definition durable :: "disk \<Rightarrow> string \<Rightarrow> bool" where
  "durable d i \<longleftrightarrow> has_request d i \<or> has_request d (i @ quarantine_suffix)"

definition remembered :: "(string \<Rightarrow> string) \<Rightarrow> svc \<Rightarrow> string \<Rightarrow> bool" where
  "remembered issued s i \<longleftrightarrow> map_of (sv_runs s) i \<noteq> None
     \<or> map_of (sv_tombstones s) i \<noteq> None \<and> map_of (sv_envelope_tombstones s) (issued i) \<noteq> None
     \<or> i \<in> sv_ambiguous s"

definition svc_rel :: "svc_env \<Rightarrow> (string \<Rightarrow> string) \<Rightarrow> svc \<Rightarrow> svc \<Rightarrow> bool" where
  "svc_rel env issued s s' \<longleftrightarrow> (safe env issued s \<longrightarrow> safe env issued s'
     \<and> sv_launched s' = sv_launched s \<and> sv_alive s' = sv_alive s
     \<and> (\<forall>i. durable (sv_disk s) i \<longrightarrow> durable (sv_disk s') i)
     \<and> (\<forall>i. remembered issued s i \<longrightarrow> remembered issued s' i))"

lemma svc_rel_preorder: "reflp (svc_rel env issued)" "transp (svc_rel env issued)"
  by (auto simp: svc_rel_def intro!: reflpI transpI)

section \<open>Calls on the disk\<close>

definition disk_rel :: "svc_env \<Rightarrow> (string \<Rightarrow> string) \<Rightarrow> disk \<Rightarrow> disk \<Rightarrow> bool" where
  "disk_rel env issued d d' \<longleftrightarrow> (disk_ok env issued d \<longrightarrow> disk_ok env issued d')
     \<and> (\<forall>n. has_request d n \<longrightarrow> has_request d' n)"

lemma disk_rel_preorder: "reflp (disk_rel env issued)" "transp (disk_rel env issued)"
  by (auto simp: disk_rel_def intro!: reflpI transpI)

lemma host_rel_mono: "\<lbrakk>host_rel P s s'; \<And>d d'. P d d' \<Longrightarrow> Q d d'\<rbrakk> \<Longrightarrow> host_rel Q s s'"
  unfolding host_rel_def by blast

lemma host_rel_strengthen:
  assumes "host_rel P s s'" and "Q (sv_disk s) (sv_disk s')"
  shows "host_rel Q s s'"
proof -
  obtain d c t where s': "s' = s\<lparr>sv_disk := d, sv_calls := c, sv_ticks := t\<rparr>"
    using assms(1) by (auto simp: host_rel_def)
  show ?thesis
    unfolding host_rel_def by (rule exI [of _ d], rule exI [of _ c], rule exI [of _ t]) (use assms(2) s' in simp)
qed

lemma host_rel_svc: "host_rel (disk_rel env issued) s s' \<Longrightarrow> svc_rel env issued s s'"
  unfolding host_rel_def svc_rel_def safe_def disk_rel_def durable_def remembered_def by auto

lemma keeps_host:
  assumes "keeps (host_rel P) m" and "\<And>d d'. P d d' \<Longrightarrow> disk_rel env issued d d'"
  shows "keeps (svc_rel env issued) m"
  using assms(1) by (rule keeps_mono) (blast intro: host_rel_svc host_rel_mono assms(2))

definition key_files :: "string set" where
  "key_files = {''request.json'', ''receipt.json'', tombstone_name}"

lemma file_ok_other: "f \<notin> key_files \<Longrightarrow> file_ok env issued m f c"
  by (simp add: file_ok_def key_files_def)

lemma disk_rel_same_keys:
  "(\<And>n f. f \<in> key_files \<Longrightarrow> dfile d' n f = dfile d n f) \<Longrightarrow> disk_rel env issued d d'"
  unfolding disk_rel_def disk_ok_def has_request_def
  by (metis file_ok_other insertI1 key_files_def)

lemma disk_rel_chg: "\<lbrakk>chg n F d d'; F \<inter> key_files = {}\<rbrakk> \<Longrightarrow> disk_rel env issued d d'"
  by (rule disk_rel_same_keys) (metis chg_dfile disjoint_iff)

lemma disk_rel_same_dirs: "same_dirs d d' \<Longrightarrow> disk_rel env issued d d'"
  by (rule disk_rel_same_keys) (simp add: same_dirs_def dfile_def)

lemma disk_rel_grow:
  assumes "grow d d'" shows "disk_rel env issued d d'"
proof (rule disk_rel_same_keys)
  fix n f
  have "dir_files d' n = dir_files d n \<or> dir_files d n = None \<and> dir_files d' n = Some []"
    using assms by (simp add: grow_def)
  then show "dfile d' n f = dfile d n f" by (auto simp: dfile_def)
qed

lemma key_file_names [simp]:
  "''events.jsonl'' \<notin> key_files" "''workflow.json'' \<notin> key_files" "''quarantine.json'' \<notin> key_files"
  "''terminal-event.json'' \<notin> key_files"
  "''request.json.tmp'' \<notin> key_files" "''receipt.json.tmp'' \<notin> key_files"
  "''events.jsonl.tmp'' \<notin> key_files" "''workflow.json.tmp'' \<notin> key_files"
  "''quarantine.json.tmp'' \<notin> key_files" "''terminal-event.json.tmp'' \<notin> key_files"
  "tombstone_name @ ''.tmp'' \<notin> key_files"
  "''request.json'' \<in> key_files" "''receipt.json'' \<in> key_files" "tombstone_name \<in> key_files"
  by (simp_all add: key_files_def tombstone_name_def)

lemma keeps_write_other:
  assumes "f \<notin> key_files" and "f @ ''.tmp'' \<notin> key_files"
  shows "keeps (svc_rel env issued) (atomic_write_bytes fl (InDir n f) p)"
  by (rule keeps_host [OF keeps_atomic_write_dir], rule disk_rel_chg) (use assms in auto)

lemma keeps_write_root: "keeps (svc_rel env issued) (atomic_write_bytes fl (InRoot n) p)"
  by (rule keeps_host [OF keeps_atomic_write_root], rule disk_rel_same_dirs)

lemma keeps_append_events:
  "keeps (svc_rel env issued) (append_file fl (InDir n ''events.jsonl'') p)"
  by (rule keeps_host [OF keeps_append_file], rule disk_rel_chg) auto

lemma keeps_svc_mkdir: "keeps (svc_rel env issued) (mkdir fl ex n)"
  by (rule keeps_host [OF keeps_mkdir], rule disk_rel_grow)

lemma keeps_svc_probe: "keeps (svc_rel env issued) (probe fl n)"
  by (rule keeps_host [OF keeps_probe [OF disk_rel_preorder(1)]])

lemma keeps_svc_fsync: "keeps (svc_rel env issued) (fsync_dir fl n)"
  by (rule keeps_host [OF keeps_fsync_dir [OF disk_rel_preorder(1)]])

lemma keeps_svc_clock: "keeps (svc_rel env issued) (host_clock ck)"
  by (rule keeps_host [OF keeps_read_clock [OF disk_rel_preorder(1)]])

lemma keeps_svc_read: "keeps (svc_rel env issued) (read_bytes fl l)"
  by (rule keeps_host [OF keeps_read_bytes [OF disk_rel_preorder]])

lemma keeps_svc_unlink: "keeps (svc_rel env issued) (unlink fl (InRoot n))"
  by (rule keeps_host [OF keeps_unlink_root], rule disk_rel_same_dirs)

lemma keeps_svc_error: "keeps (svc_rel env issued) (assignment_error m)"
  unfolding assignment_error_def by (intro keeps_rules svc_rel_preorder)

text \<open>A key file is written with the right content for its directory.\<close>

lemma keeps_write_key:
  assumes "f \<in> key_files" and "f @ ''.tmp'' \<notin> key_files"
    and "file_ok env issued (base_name n) f (FFile p)"
  shows "keeps (svc_rel env issued) (atomic_write_bytes fl (InDir n f) p)"
  unfolding keeps_def
proof
  fix s :: svc
  obtain r s' where w: "atomic_write_bytes fl (InDir n f) p s = (r, s')" by fastforce
  have h: "host_rel (chg n {f, f @ ''.tmp''}) s s'" using keepsD [OF keeps_atomic_write_dir w] .
  then have c: "chg n {f, f @ ''.tmp''} (sv_disk s) (sv_disk s')" by (auto simp: host_rel_def)
  have same: "dfile (sv_disk s') m g = dfile (sv_disk s) m g" if "g \<in> key_files" "g \<noteq> f \<or> m \<noteq> n" for m g
    by (rule chg_dfile [OF c]) (use that assms(2) in auto)
  have at: "dfile (sv_disk s') n f = dfile (sv_disk s) n f \<or> dfile (sv_disk s') n f = Some (FFile p)"
    using atomic_write_content [OF w] by blast
  have "disk_rel env issued (sv_disk s) (sv_disk s')"
    unfolding disk_rel_def
  proof (intro conjI impI allI)
    assume ok: "disk_ok env issued (sv_disk s)"
    show "disk_ok env issued (sv_disk s')"
      unfolding disk_ok_def
    proof (intro allI impI)
      fix m g x assume x: "dfile (sv_disk s') m g = Some x"
      show "file_ok env issued (base_name m) g x"
      proof (cases "g \<in> key_files")
        case True
        then show ?thesis
          using x same [of g m] at ok assms(3) unfolding disk_ok_def by (cases "g = f \<and> m = n") auto
      qed (rule file_ok_other)
    qed
  next
    fix m assume "has_request (sv_disk s) m"
    then show "has_request (sv_disk s') m"
      using same [of "''request.json''" m] at unfolding has_request_def
      by (cases "''request.json'' = f \<and> m = n") auto
  qed
  then have "svc_rel env issued s s'"
    using host_rel_svc [OF host_rel_strengthen [OF h]] by blast
  then show "svc_rel env issued s (snd (atomic_write_bytes fl (InDir n f) p s))" using w by simp
qed

section \<open>Changes of memory\<close>

lemma keeps_put_run: "run_ok env issued i st \<Longrightarrow> keeps (svc_rel env issued) (put_run i st)"
  unfolding put_run_def
  by (rule keeps_aset) (auto simp: svc_rel_def safe_def runs_ok_def remembered_def update_conv')

lemma keeps_add_ambiguous: "keeps (svc_rel env issued) (add_ambiguous n)"
  unfolding add_ambiguous_def by (rule keeps_aset) (auto simp: svc_rel_def safe_def remembered_def)

lemma keeps_register: "keeps (svc_rel env issued) (register_tombstone t)"
  unfolding register_tombstone_def
  by (rule keeps_aset) (auto simp: svc_rel_def safe_def remembered_def update_conv')

text \<open>A call whose result has a property in every safe state.\<close>

definition yields :: "(svc \<Rightarrow> bool) \<Rightarrow> ('a \<Rightarrow> bool) \<Rightarrow> (svc, 'a) act \<Rightarrow> bool" where
  "yields P V m \<longleftrightarrow> (\<forall>s x s'. P s \<longrightarrow> m s = (Inr x, s') \<longrightarrow> V x)"

lemma keeps_bind_yields:
  assumes "keeps (svc_rel env issued) m" and "yields (safe env issued) V m"
    and "\<And>x. V x \<Longrightarrow> keeps (svc_rel env issued) (f x)"
  shows "keeps (svc_rel env issued) (abind m f)"
  unfolding keeps_def
proof
  fix s
  obtain r s1 where m: "m s = (r, s1)" by fastforce
  have rel: "svc_rel env issued s s1" using keepsD [OF assms(1) m] .
  show "svc_rel env issued s (snd (abind m f s))"
  proof (cases r)
    case (Inl e)
    then show ?thesis using m rel by simp
  next
    case (Inr x)
    show ?thesis
    proof (cases "safe env issued s")
      case True
      then have "V x" using assms(2) m Inr unfolding yields_def by blast
      then have "svc_rel env issued s1 (snd (f x s1))" using assms(3) by (simp add: keeps_def)
      then show ?thesis using rel m Inr transpD [OF svc_rel_preorder(2)] by fastforce
    qed (simp add: svc_rel_def)
  qed
qed

lemma keeps_get_run: "keeps (svc_rel env issued) (get_run i)"
  unfolding get_run_def by (intro keeps_rules keeps_svc_error svc_rel_preorder)

lemma yields_get_run: "yields (safe env issued) (run_ok env issued i) (get_run i)"
  by (auto simp: yields_def get_run_def assignment_error_def safe_def runs_ok_def split: option.splits)

lemma keeps_with_run:
  "(\<And>st. run_ok env issued i st \<Longrightarrow> keeps (svc_rel env issued) (f st))
    \<Longrightarrow> keeps (svc_rel env issued) (abind (get_run i) f)"
  by (rule keeps_bind_yields [OF keeps_get_run yields_get_run])

section \<open>Operations on runs\<close>

definition open_run :: "svc_env \<Rightarrow> (string \<Rightarrow> string) \<Rightarrow> string \<Rightarrow> run_state \<Rightarrow> bool" where
  "open_run env issued i st \<longleftrightarrow> run_ok env issued i st \<and> rs_receipt st = None"

lemma open_run_append:
  "\<lbrakk>open_run env issued i st; ae_assignment_id e = rq_assignment_id (rs_request st); ae_run_id e = rs_run_id st;
    ae_sequence e = int (length (rs_events st))\<rbrakk>
   \<Longrightarrow> open_run env issued i (st\<lparr>rs_events := rs_events st @ [e]\<rparr>)"
  by (auto simp: open_run_def run_ok_def log_ok_snoc)

lemma open_run_cancel: "open_run env issued i st \<Longrightarrow> open_run env issued i (st\<lparr>rs_cancel_requested := b\<rparr>)"
  by (auto simp: open_run_def run_ok_def)

lemma open_run_thread:
  assumes "open_run env issued i st" and "\<not> rs_recovered st"
  shows "open_run env issued i (st\<lparr>rs_runner := rn, rs_thread := t\<rparr>)"
    and "open_run env issued i (st\<lparr>rs_thread := t\<rparr>)"
  using assms by (auto simp: open_run_def run_ok_def)

lemma open_run_ok: "open_run env issued i st \<Longrightarrow> run_ok env issued i st"
  by (simp add: open_run_def)

lemmas svc_keeps = keeps_svc_mkdir keeps_svc_probe keeps_svc_fsync keeps_svc_clock keeps_svc_read
  keeps_svc_error keeps_append_events keeps_write_root keeps_add_ambiguous keeps_register
  keeps_svc_unlink svc_rel_preorder

lemma keeps_emit:
  "open_run env issued i st \<Longrightarrow> keeps (svc_rel env issued) (emit_event env i st ev det)"
  unfolding emit_event_def Let_def
  by (intro keeps_abind keeps_alift keeps_aret svc_keeps keeps_put_run open_run_ok open_run_append) auto

definition same_thread :: "run_state \<Rightarrow> run_state \<Rightarrow> bool" where
  "same_thread st st' \<longleftrightarrow> rs_thread st' = rs_thread st \<and> rs_recovered st' = rs_recovered st"

lemma emit_yields:
  "open_run env issued i st \<Longrightarrow>
    yields P (\<lambda>(rec, st'). open_run env issued i st' \<and> same_thread st st') (emit_event env i st ev det)"
  unfolding yields_def emit_event_def Let_def same_thread_def
  by (auto simp: abind_Inr_iff intro!: open_run_append)

lemma keeps_emit_bind:
  assumes "open_run env issued i st"
    and "\<And>rec st'. open_run env issued i st' \<Longrightarrow> same_thread st st' \<Longrightarrow>
      keeps (svc_rel env issued) (f (rec, st'))"
  shows "keeps (svc_rel env issued) (abind (emit_event env i st ev det) f)"
  by (rule keeps_bind_yields [OF keeps_emit emit_yields]) (use assms in auto)

lemma run_id_base: "run_ok env issued i st \<Longrightarrow> base_name (rs_run_id st) = i"
  by (simp add: run_ok_def base_name_def)

lemma keeps_persist:
  assumes "run_ok env issued i st" and "ar_assignment_id rc = i" and "ar_envelope_id rc = issued i"
  shows "keeps (svc_rel env issued) (persist env st ev rc)"
  unfolding persist_def
  by (intro keeps_abind svc_keeps keeps_write_other keeps_write_key)
    (use assms run_id_base [OF assms(1)] in \<open>auto simp: file_ok_def tombstone_name_def\<close>)

lemma make_as_receipt_binds:
  "make_as_receipt env st status ex fin rs h a er = Inr rc \<Longrightarrow> receipt_binds env st rc"
  by (auto simp: make_as_receipt_def validate_receipt_def bind_receipt_def receipt_binds_def Let_def
      require_def as_receipt_payload_def split: if_splits)

lemma keeps_set_receipt:
  assumes "open_run env issued i st" and "receipt_binds env st rc" and "rs_thread st \<notin> {Launched, Running}"
  shows "keeps (svc_rel env issued) (set_receipt env i st ev rc)"
proof -
  have "run_ok env issued i (st\<lparr>rs_receipt := Some rc\<rparr>)"
    using assms by (auto simp: open_run_def run_ok_def receipt_binds_def)
  moreover have "keeps (svc_rel env issued) (persist env st ev rc)"
    using assms by (intro keeps_persist [of env issued i]) (auto simp: open_run_def run_ok_def receipt_binds_def)
  ultimately show ?thesis
    unfolding set_receipt_def by (intro keeps_abind keeps_aret svc_keeps keeps_put_run)
qed

lemma keeps_lift_bind:
  "(\<And>x. m = Inr x \<Longrightarrow> keeps (svc_rel env issued) (f x)) \<Longrightarrow> keeps (svc_rel env issued) (abind (alift m) f)"
  by (cases m) (auto simp: keeps_def svc_rel_def)

lemma keeps_receipt_tail:
  assumes "open_run env issued i st" and "rs_thread st \<notin> {Launched, Running}"
    and "\<And>rc. keeps (svc_rel env issued) (f rc)"
  shows "keeps (svc_rel env issued) (abind (alift (make_as_receipt env st status ex fin rs h a er))
     (\<lambda>rc. abind (set_receipt env i st ev rc) f))"
  by (intro keeps_lift_bind keeps_abind svc_keeps keeps_set_receipt assms make_as_receipt_binds)

lemma keeps_conclude:
  assumes "open_run env issued i st" and "\<not> rs_recovered st"
  shows "keeps (svc_rel env issued) (conclude env i st status res h a er)"
proof -
  let ?st = "st\<lparr>rs_runner := None, rs_thread := Ended\<rparr>"
  have o: "open_run env issued i ?st" using open_run_thread(1) [OF assms] .
  show ?thesis
    unfolding conclude_def Let_def
    apply (intro keeps_abind [OF svc_rel_preorder(2) keeps_svc_clock]
        keeps_abind [OF svc_rel_preorder(2) keeps_put_run [OF open_run_ok [OF o]]] keeps_emit_bind [OF o])
    apply (simp only: prod.case)
    apply (intro keeps_receipt_tail keeps_aret svc_rel_preorder)
     apply (simp_all add: same_thread_def)
    done
qed

lemma keeps_write_workflow: "keeps (svc_rel env issued) (write_workflow env st w)"
  unfolding write_workflow_def by (intro keeps_write_other) simp_all

lemma thread_not_recovered: "\<lbrakk>run_ok env issued i st; rs_thread st \<noteq> NoThread\<rbrakk> \<Longrightarrow> \<not> rs_recovered st"
  by (auto simp: run_ok_def)

lemma thread_open: "\<lbrakk>run_ok env issued i st; rs_thread st \<in> {Launched, Running}\<rbrakk> \<Longrightarrow> open_run env issued i st"
  by (auto simp: run_ok_def open_run_def)

lemma keeps_begin_body:
  assumes "run_ok env issued i st" and "rs_thread st = Launched"
  shows "keeps (svc_rel env issued) (begin_body env i st)"
proof -
  let ?st = "\<lambda>rn. st\<lparr>rs_runner := Some rn, rs_thread := Running\<rparr>"
  have o: "open_run env issued i (?st rn)" for rn
    using assms by (intro open_run_thread thread_open thread_not_recovered) auto
  show ?thesis
    unfolding begin_body_def Let_def
    by (intro keeps_rules svc_keeps keeps_write_workflow keeps_put_run open_run_ok [OF o] keeps_emit [OF o])
qed

text \<open>The thread of a run stays launched or running through \<open>begin_body\<close>.\<close>

definition active :: "string \<Rightarrow> svc \<Rightarrow> bool" where
  "active i s \<longleftrightarrow> (\<exists>st. map_of (sv_runs s) i = Some st \<and> rs_thread st \<in> {Launched, Running})"

definition active_rel :: "string \<Rightarrow> svc \<Rightarrow> svc \<Rightarrow> bool" where
  "active_rel i s s' \<longleftrightarrow> (active i s \<longrightarrow> active i s')"

lemma active_rel_preorder: "reflp (active_rel i)" "transp (active_rel i)"
  by (auto simp: active_rel_def intro!: reflpI transpI)

lemma keeps_active_host: "keeps (host_rel P) m \<Longrightarrow> keeps (active_rel i) m"
  by (erule keeps_mono) (auto simp: active_rel_def active_def host_rel_def)

lemma keeps_active_put:
  "rs_thread st \<in> {Launched, Running} \<Longrightarrow> keeps (active_rel i) (put_run i st)"
  unfolding put_run_def by (rule keeps_aset) (auto simp: active_rel_def active_def update_conv')

lemmas active_keeps = active_rel_preorder keeps_active_host [OF keeps_atomic_write_dir]
  keeps_active_host [OF keeps_append_file] keeps_active_host [OF keeps_mkdir]
  keeps_active_host [OF keeps_fsync_dir [OF disk_rel_preorder(1)]]
  keeps_active_host [OF keeps_read_clock [OF disk_rel_preorder(1)]]

lemma keeps_active_emit:
  "rs_thread st \<in> {Launched, Running} \<Longrightarrow> keeps (active_rel i) (emit_event env i st ev det)"
  unfolding emit_event_def Let_def by (intro keeps_rules active_keeps keeps_active_put) auto

lemma keeps_active_begin: "keeps (active_rel i) (begin_body env i st)"
  unfolding begin_body_def Let_def write_workflow_def assignment_error_def
  by (intro keeps_rules active_keeps keeps_active_put keeps_active_emit) auto

lemma keeps_cancel: "keeps (svc_rel env issued) (cancel env i reason)"
proof -
  have "keeps (svc_rel env issued)
      (let st1 = st\<lparr>rs_cancel_requested := True\<rparr> in
       abind (put_run i st1) (\<lambda>_. abind (emit_event env i st1 ev det) (\<lambda>(event, _).
       abind (if b then alift m else aret ()) (\<lambda>_. aret event))))"
    if "run_ok env issued i st" "rs_receipt st = None" for st ev det b m
  proof -
    have o: "open_run env issued i (st\<lparr>rs_cancel_requested := True\<rparr>)"
      using that by (intro open_run_cancel) (simp add: open_run_def)
    show ?thesis unfolding Let_def
      by (intro keeps_rules svc_keeps keeps_put_run open_run_ok [OF o] keeps_emit [OF o])
  qed
  then show ?thesis
    unfolding cancel_def
    by (intro keeps_if keeps_with_run keeps_aret keeps_araise svc_keeps) auto
qed

lemma keeps_authorize: "keeps (svc_rel env issued) (authorize_operator env op det)"
  unfolding authorize_operator_def by (intro keeps_rules svc_keeps)

lemma keeps_terminalize: "keeps (svc_rel env issued) (terminalize env i status reason)"
proof -
  have tail: "keeps (svc_rel env issued)
      (let st1 = st\<lparr>rs_cancel_requested := True\<rparr> in
       abind (put_run i st1) (\<lambda>_. abind (emit_event env i st1 status det) (\<lambda>(terminal, st2).
       abind (host_clock (clock env)) (\<lambda>finished.
       abind (alift (make_as_receipt env st2 status None finished None None [] er))
         (\<lambda>receipt. set_receipt env i st2 terminal receipt)))))"
    if ok: "run_ok env issued i st" and none: "rs_receipt st = None" and rec: "rs_recovered st" for st det er
  proof -
    let ?st = "st\<lparr>rs_cancel_requested := True\<rparr>"
    have o: "open_run env issued i ?st"
      using ok none by (intro open_run_cancel) (simp add: open_run_def)
    have t: "rs_thread ?st = NoThread" using ok rec by (auto simp: run_ok_def)
    have fin: "keeps (svc_rel env issued) (abind (host_clock (clock env)) (\<lambda>finished.
       abind (alift (make_as_receipt env st2 status None finished None None [] er))
         (\<lambda>receipt. set_receipt env i st2 terminal receipt)))"
      if "open_run env issued i st2" "same_thread ?st st2" for st2 terminal
      by (intro keeps_abind [OF svc_rel_preorder(2) keeps_svc_clock] keeps_lift_bind keeps_set_receipt
          make_as_receipt_binds that(1)) (use that(2) t in \<open>auto simp: same_thread_def\<close>)
    show ?thesis unfolding Let_def
      by (intro keeps_abind [OF svc_rel_preorder(2) keeps_put_run [OF open_run_ok [OF o]]]
          keeps_emit_bind [OF o]) (simp add: fin)
  qed
  show ?thesis
    unfolding terminalize_def
    by (intro keeps_abind [OF svc_rel_preorder(2) keeps_authorize] keeps_if keeps_with_run svc_keeps)
      (use tail in auto)
qed

lemma keeps_finish_run: "keeps (svc_rel env issued) (finish_run env i ro)"
proof -
  have c: "keeps (svc_rel env issued) (conclude env i st status res h a er)"
    if "run_ok env issued i st" "rs_thread st = Running" for st status res h a er
    using that by (intro keeps_conclude thread_open thread_not_recovered) auto
  show ?thesis
    unfolding finish_run_def conclude_failed_def
    by (intro keeps_with_run) (auto intro!: c keeps_if keeps_aret svc_keeps split: sum.split option.split)
qed

lemma begin_run_rel:
  assumes safe: "safe env issued s"
  shows "svc_rel env issued s (snd (begin_run env i s))"
proof (cases "map_of (sv_runs s) i")
  case None
  then show ?thesis using reflpD [OF svc_rel_preorder(1)]
    by (simp add: begin_run_def get_run_def assignment_error_def abind_def)
next
  case (Some st)
  have ok: "run_ok env issued i st" using safe Some by (auto simp: safe_def runs_ok_def)
  show ?thesis
  proof (cases "rs_thread st = Launched")
    case False
    then show ?thesis using Some reflpD [OF svc_rel_preorder(1)] by (simp add: begin_run_def get_run_def abind_def)
  next
    case True
    obtain r s1 where b: "begin_body env i st s = (r, s1)" by fastforce
    have rel: "svc_rel env issued s s1" using keepsD [OF keeps_begin_body [OF ok True] b] .
    have act: "active i s1"
      using keepsD [OF keeps_active_begin b] Some True by (auto simp: active_rel_def active_def)
    then obtain st1 where st1: "map_of (sv_runs s1) i = Some st1" "rs_thread st1 \<in> {Launched, Running}"
      by (auto simp: active_def)
    have ok1: "run_ok env issued i st1"
      using rel safe st1(1) by (auto simp: svc_rel_def safe_def runs_ok_def)
    have "keeps (svc_rel env issued) (conclude_failed env i st1 None None e)" for e
      unfolding conclude_failed_def
      using ok1 st1(2) by (intro keeps_conclude thread_open thread_not_recovered) auto
    then have "svc_rel env issued s (snd (conclude_failed env i st1 None None e s1))" for e
      using rel transpD [OF svc_rel_preorder(2)] unfolding keeps_def by blast
    then show ?thesis
      using b rel Some True st1(1)
      by (auto simp: begin_run_def get_run_def abind_def acatch_def split: sum.splits)
  qed
qed

section \<open>Admission\<close>

lemma keeps_afor: "(\<And>x. x \<in> set xs \<Longrightarrow> keeps R (f x)) \<Longrightarrow> reflp R \<Longrightarrow> transp R \<Longrightarrow> keeps R (afor xs f)"
  by (induction xs) (auto intro!: keeps_abind keeps_aret simp del: aret_def)

lemma keeps_try_read: "keeps (svc_rel env issued) (try_read env l load)"
  unfolding try_read_def by (intro keeps_rules svc_keeps)

lemma keeps_reject: "keeps (svc_rel env issued) (reject_duplicate_identity env r)"
  unfolding reject_duplicate_identity_def
  by (intro keeps_rules svc_keeps keeps_afor keeps_try_read)

lemma reject_passes:
  assumes "reject_duplicate_identity env r s = (Inr (), s')"
  shows "map_of (sv_runs s) (rq_assignment_id r) = None" "map_of (sv_tombstones s) (rq_assignment_id r) = None"
    "map_of (sv_envelope_tombstones s) (rq_envelope_id r) = None"
    "\<forall>(i, st) \<in> set (sv_runs s). rq_envelope_id (rs_request st) \<noteq> rq_envelope_id r"
  using assms
  by (auto simp: reject_duplicate_identity_def assignment_error_def list_ex_iff split: if_splits)

lemma id_no_suffix: "id_pattern i \<Longrightarrow> \<not> suffix quarantine_suffix i"
proof
  assume "id_pattern i" and "suffix quarantine_suffix i"
  then obtain p where p: "i = p @ ''.quarantined''" by (auto simp: suffix_def quarantine_suffix_def)
  have "\<forall>c \<in> set i. ascii_alnum c \<or> c = CHR ''_'' \<or> c = CHR ''-''"
    using \<open>id_pattern i\<close> by (cases i) (auto simp: list_all_iff)
  moreover have "dot \<in> set i" by (simp add: p)
  ultimately show False by (auto simp: ascii_alnum_def)
qed

lemma base_name_id: "\<not> suffix quarantine_suffix i \<Longrightarrow> base_name i = i"
  and base_name_quarantined [simp]: "base_name (i @ quarantine_suffix) = i"
  by (simp_all add: base_name_def suffix_def)

lemma validate_request_id: "validate_request r = Inr r' \<Longrightarrow> r' = r \<and> id_pattern (rq_assignment_id r)"
  by (auto simp: validate_request_def require_def split: if_splits)

lemma init_open:
  assumes "validate_request r = Inr r" and "rq_envelope_id r = issued (rq_assignment_id r)"
  shows "open_run env issued (rq_assignment_id r) (run_state_init r (rq_assignment_id r) t)"
  using assms id_no_suffix validate_request_id [OF assms(1)]
  by (auto simp: open_run_def run_ok_def run_state_init_def log_ok_def)

lemma keeps_admit_prepare:
  assumes "validate_request r = Inr r" and "rq_envelope_id r = issued (rq_assignment_id r)"
  shows "keeps (svc_rel env issued) (admit_prepare env r)"
proof -
  have "base_name (rq_assignment_id r) = rq_assignment_id r"
    using assms(1) validate_request_id id_no_suffix base_name_id by blast
  then have "file_ok env issued (base_name (rq_assignment_id r)) ''request.json''
      (FFile (json_line env (request_dict env r)))"
    using assms by (auto simp: file_ok_def tombstone_name_def)
  then show ?thesis
    unfolding admit_prepare_def Let_def
    by (intro keeps_abind keeps_reject svc_keeps keeps_write_key keeps_put_run open_run_ok init_open
        keeps_emit assms) simp_all
qed

text \<open>An event leaves every request where it is.\<close>

definition request_rel :: "svc \<Rightarrow> svc \<Rightarrow> bool" where
  "request_rel s s' \<longleftrightarrow> (\<forall>n. has_request (sv_disk s) n \<longrightarrow> has_request (sv_disk s') n)"

lemma request_rel_preorder: "reflp request_rel" "transp request_rel"
  by (auto simp: request_rel_def intro!: reflpI transpI)

lemma keeps_request_host:
  assumes "keeps (host_rel P) m" and "\<And>d d' n. P d d' \<Longrightarrow> has_request d n \<Longrightarrow> has_request d' n"
  shows "keeps request_rel m"
  using assms(1) by (rule keeps_mono) (auto simp: host_rel_def request_rel_def dest: assms(2))

lemma request_grow: "\<lbrakk>grow d d'; has_request d n\<rbrakk> \<Longrightarrow> has_request d' n"
  and request_same: "\<lbrakk>same_dirs d d'; has_request d n\<rbrakk> \<Longrightarrow> has_request d' n"
  using disk_rel_grow disk_rel_same_dirs by (auto simp: disk_rel_def)

lemma request_chg: "\<lbrakk>chg m F d d'; ''request.json'' \<notin> F; has_request d n\<rbrakk> \<Longrightarrow> has_request d' n"
  using chg_dfile [of m F d d' "''request.json''" n] by (simp add: has_request_def)

lemma keeps_request_write:
  "\<lbrakk>f \<noteq> ''request.json''; f @ ''.tmp'' \<noteq> ''request.json''\<rbrakk>
    \<Longrightarrow> keeps request_rel (atomic_write_bytes fl (InDir n f) p)"
  by (rule keeps_request_host [OF keeps_atomic_write_dir]) (auto intro: request_chg)

lemmas request_keeps = request_rel_preorder keeps_request_host [OF keeps_mkdir request_grow]
  keeps_request_host [OF keeps_atomic_write_root request_same]
  keeps_request_host [OF keeps_probe [OF same_dirs_preorder(1)] request_same]
  keeps_request_host [OF keeps_fsync_dir [OF same_dirs_preorder(1)] request_same]
  keeps_request_host [OF keeps_read_clock [OF same_dirs_preorder(1)] request_same]
  keeps_request_host [OF keeps_read_bytes [OF same_dirs_preorder] request_same]

lemma keeps_request_append: "keeps request_rel (append_file fl (InDir n ''events.jsonl'') p)"
  by (rule keeps_request_host [OF keeps_append_file]) (auto intro: request_chg)

lemma keeps_request_emit: "keeps request_rel (emit_event env i st ev det)"
  unfolding emit_event_def Let_def put_run_def
  by (intro keeps_rules request_keeps keeps_request_append) (simp_all add: request_rel_def)

lemma admit_prepare_post:
  assumes "validate_request r = Inr r" and "rq_envelope_id r = issued (rq_assignment_id r)"
    and "safe env issued s" and "admit_prepare env r s = (Inr (ev, st), s')"
  shows "open_run env issued (rq_assignment_id r) st" "\<not> rs_recovered st"
    "durable (sv_disk s') (rq_assignment_id r)"
    "map_of (sv_runs s) (rq_assignment_id r) = None" "map_of (sv_tombstones s) (rq_assignment_id r) = None"
    "map_of (sv_envelope_tombstones s) (rq_envelope_id r) = None"
    "\<forall>(i, st) \<in> set (sv_runs s). rq_envelope_id (rs_request st) \<noteq> rq_envelope_id r"
proof -
  let ?i = "rq_assignment_id r"
  obtain t s1 s2 s3 s4 s5 s6 where
    1: "reject_duplicate_identity env r s = (Inr (), s1)"
    and 2: "atomic_write_bytes (faults env) (InDir ?i ''request.json'') (json_line env (request_dict env r)) s4
        = (Inr (), s5)"
    and 3: "put_run ?i (run_state_init r ?i t) s5 = (Inr (), s6)"
    and 4: "emit_event env ?i (run_state_init r ?i t) ''admitted'' [(''backend'', PStr (rq_backend r))] s6
        = (Inr (ev, st), s')"
    using assms(4) by (auto simp: admit_prepare_def Let_def abind_Inr_iff)
  note o = init_open [where issued = issued and env = env and t = t, OF assms(1,2)]
  have "open_run env issued ?i st \<and> same_thread (run_state_init r ?i t) st"
    using emit_yields [OF o, of "\<lambda>_. True"] 4 unfolding yields_def by blast
  then show "open_run env issued ?i st" "\<not> rs_recovered st"
    by (simp_all add: same_thread_def run_state_init_def)
  have "dfile (sv_disk s5) ?i ''request.json'' \<noteq> None" using atomic_write_content [OF 2] by auto
  then have "durable (sv_disk s6) ?i" using 3 by (auto simp: durable_def has_request_def put_run_def)
  then show "durable (sv_disk s') ?i"
    using keepsD [OF keeps_request_emit 4] by (auto simp: request_rel_def durable_def)
  show "map_of (sv_runs s) ?i = None" "map_of (sv_tombstones s) ?i = None"
    "map_of (sv_envelope_tombstones s) (rq_envelope_id r) = None"
    "\<forall>(i, st) \<in> set (sv_runs s). rq_envelope_id (rs_request st) \<noteq> rq_envelope_id r"
    by (fact reject_passes [OF 1])+
qed

text \<open>
  What a start does to the record of launches: nothing, or it adds an id with evidence for it,
  and neither the id nor its envelope was remembered before.
\<close>

definition started :: "svc_env \<Rightarrow> (string \<Rightarrow> string) \<Rightarrow> svc \<Rightarrow> svc \<Rightarrow> bool" where
  "started env issued s s' \<longleftrightarrow> (\<exists>i. sv_launched s' = sv_launched s @ [i] \<and> safe env issued s'
     \<and> sv_alive s' = sv_alive s \<and> sv_ambiguous s = {} \<and> \<not> suffix quarantine_suffix i
     \<and> (\<forall>j. durable (sv_disk s) j \<longrightarrow> durable (sv_disk s') j) \<and> durable (sv_disk s') i
     \<and> (\<forall>j. remembered issued s j \<longrightarrow> remembered issued s' j) \<and> remembered issued s' i
     \<and> (\<forall>j. remembered issued s j \<longrightarrow> issued j \<noteq> issued i))"

lemma launch_started:
  assumes "svc_rel env issued s s1" and "safe env issued s" and "sv_ambiguous s = {}"
    and "open_run env issued i st" and "\<not> rs_recovered st" and "durable (sv_disk s1) i"
    and "\<And>j. remembered issued s j \<Longrightarrow> issued j \<noteq> issued i"
  shows "started env issued s (snd (launch i st s1))"
proof -
  let ?st = "st\<lparr>rs_thread := Launched\<rparr>"
  have ok: "run_ok env issued i ?st" using open_run_ok open_run_thread(2) assms(4,5) by blast
  obtain s2 where p: "put_run i ?st s1 = (Inr (), s2)" by (simp add: put_run_def)
  have "svc_rel env issued s1 s2" using keepsD [OF keeps_put_run [OF ok] p] .
  then have rel: "svc_rel env issued s s2" using assms(1) transpD [OF svc_rel_preorder(2)] by blast
  have "remembered issued s2 i" using p by (auto simp: put_run_def remembered_def update_conv')
  moreover have "durable (sv_disk s2) i" using p assms(6) by (auto simp: put_run_def)
  moreover have "snd (launch i st s1) = s2\<lparr>sv_launched := sv_launched s2 @ [i]\<rparr>"
    using p by (simp add: launch_def)
  moreover have "\<not> suffix quarantine_suffix i" using ok by (simp add: run_ok_def)
  moreover have "safe env issued (s2\<lparr>sv_launched := l\<rparr>) = safe env issued s2"
    "remembered issued (s2\<lparr>sv_launched := l\<rparr>) = remembered issued s2" for l
    by (auto simp: safe_def remembered_def fun_eq_iff)
  ultimately show ?thesis
    using rel assms(2,3,7) unfolding started_def svc_rel_def by auto
qed

lemma start_cases:
  assumes c: "host_clock (clock env) s = (Inr now, s1)"
  shows "snd (start env value s) = s \<or> snd (start env value s) = s1
     \<or> (\<exists>r. validate_request value = Inr r \<and> verify_dispatcher env r = Inr ()
          \<and> sv_ambiguous s1 = {} \<and> start env value s = admit env r s1)"
proof (cases "validate_request value")
  case (Inl e)
  then show ?thesis by (simp add: start_def)
next
  case (Inr r)
  show ?thesis
  proof (cases "verify_request env now r")
    case (Inl e)
    then show ?thesis using Inr c by (simp add: start_def)
  next
    case v: (Inr u)
    show ?thesis
    proof (cases "verify_dispatcher env r")
      case (Inl e)
      then show ?thesis using Inr c v by (simp add: start_def)
    next
      case d: (Inr w)
      then show ?thesis
        using Inr c v by (cases "rq_backend r \<in> set allowed_backends"; cases "sv_ambiguous s1 = {}")
          (simp_all add: start_def assignment_error_def)
    qed
  qed
qed

lemma start_rel:
  assumes "honest env issued" and "safe env issued s"
  shows "svc_rel env issued s (snd (start env value s)) \<or> started env issued s (snd (start env value s))"
proof -
  have refl: "svc_rel env issued s s" using reflpD [OF svc_rel_preorder(1)] .
  obtain now s1 where c: "host_clock (clock env) s = (Inr now, s1)" by (simp add: host_clock_def)
  have rel1: "svc_rel env issued s s1" using keepsD [OF keeps_svc_clock c] .
  have same: "sv_ambiguous s1 = sv_ambiguous s" "remembered issued s1 = remembered issued s"
    "sv_launched s1 = sv_launched s" "sv_disk s1 = sv_disk s" "sv_alive s1 = sv_alive s"
    using c by (auto simp: host_clock_def remembered_def fun_eq_iff)
  consider (no) "snd (start env value s) = s \<or> snd (start env value s) = s1"
    | (admit) r where "validate_request value = Inr r" "verify_dispatcher env r = Inr ()"
        "sv_ambiguous s1 = {}" "start env value s = admit env r s1"
    using start_cases [OF c, of "value"] by blast
  then show ?thesis
  proof cases
    case no
    then show ?thesis using refl rel1 by auto
  next
    case (admit r)
    have r: "validate_request r = Inr r" using validate_request_id [OF admit(1)] admit(1) by simp
    have e: "rq_envelope_id r = issued (rq_assignment_id r)" using assms(1) admit(2) by (auto simp: honest_def)
    obtain q s2 where p: "admit_prepare env r s1 = (q, s2)" by fastforce
    have rel2: "svc_rel env issued s1 s2"
      by (rule keepsD [OF keeps_admit_prepare [where issued = issued, OF r e] p])
    have safe1: "safe env issued s1" using rel1 assms(2) by (simp add: svc_rel_def)
    show ?thesis
    proof (cases q)
      case (Inl x)
      then have "snd (start env value s) = s2" using admit(4) p by (simp add: admit_def)
      then show ?thesis using rel1 rel2 transpD [OF svc_rel_preorder(2)] by metis
    next
      case (Inr y)
      obtain ev st where y: "y = (ev, st)" by fastforce
      note post = admit_prepare_post [where issued = issued, OF r e safe1 p [unfolded Inr y]]
      have fresh: "issued j \<noteq> issued (rq_assignment_id r)" if j: "remembered issued s1 j" for j
      proof (cases "map_of (sv_runs s1) j")
        case None
        then show ?thesis using j post(6) e admit(3) by (auto simp: remembered_def)
      next
        case (Some st')
        then have "rq_envelope_id (rs_request st') = issued j"
          using safe1 by (auto simp: safe_def runs_ok_def run_ok_def)
        then show ?thesis using post(7) e map_of_SomeD [OF Some] by auto
      qed
      have "started env issued s1 (snd (launch (rq_assignment_id r) st s2))"
        using launch_started [OF rel2 safe1 admit(3) post(1-3) fresh] .
      moreover have "snd (start env value s) = snd (launch (rq_assignment_id r) st s2)"
        using admit(4) p Inr y by (simp add: admit_def abind_def launch_def put_run_def)
      ultimately have "started env issued s1 (snd (start env value s))" by simp
      then have "started env issued s (snd (start env value s))" by (simp add: started_def same)
      then show ?thesis ..
    qed
  qed
qed

section \<open>Quarantine\<close>

lemma keeps_mark_ambiguous: "keeps (svc_rel env issued) (mark_ambiguous env n reason)"
  unfolding mark_ambiguous_def by (intro keeps_rules svc_keeps)

definition ambiguous_rel :: "svc \<Rightarrow> svc \<Rightarrow> bool" where
  "ambiguous_rel s s' \<longleftrightarrow> sv_ambiguous s \<subseteq> sv_ambiguous s'"

lemma ambiguous_rel_preorder: "reflp ambiguous_rel" "transp ambiguous_rel"
  by (auto simp: ambiguous_rel_def intro!: reflpI transpI)

lemma keeps_ambiguous_host: "keeps (host_rel P) m \<Longrightarrow> keeps ambiguous_rel m"
  by (erule keeps_mono) (auto simp: ambiguous_rel_def host_rel_def)

lemma mark_ambiguous_post: "n \<in> sv_ambiguous (snd (mark_ambiguous env n reason s))"
proof -
  let ?m = "awith (\<lambda>s. if file_at (sv_disk s) (InRoot (marker_name n)) \<noteq> None then aret ()
     else abind (host_clock (clock env)) (\<lambda>now. acatch is_OSError
       (atomic_write_bytes (faults env) (InRoot (marker_name n)) (json_line env
            [(''schema'', PStr ''testudo.assignment.ambiguous.v1''), (''run_id'', PStr n),
             (''reason'', PStr reason), (''at'', PStr (iso env now))])) (\<lambda>_. aret ())))"
  have "keeps ambiguous_rel ?m"
    by (intro keeps_rules ambiguous_rel_preorder keeps_ambiguous_host [OF keeps_atomic_write_root]
        keeps_ambiguous_host [OF keeps_read_clock [OF disk_rel_preorder(1)]])
  then have "ambiguous_rel (snd (add_ambiguous n s)) (snd (?m (snd (add_ambiguous n s))))"
    by (simp only: keeps_def)
  moreover have "snd (mark_ambiguous env n reason s) = snd (?m (snd (add_ambiguous n s)))"
    unfolding mark_ambiguous_def by (simp only: abind_def add_ambiguous_def act_simps prod.case sum.case snd_conv)
  ultimately show ?thesis
    by (auto simp: ambiguous_rel_def add_ambiguous_def simp del: act_simps(5))
qed

lemma suffix_quarantined: "suffix quarantine_suffix (i @ quarantine_suffix)"
  by (simp add: suffix_def)

lemma rename_quarantine:
  assumes "rename_dir n (n @ quarantine_suffix) d = Some d'" and "\<not> suffix quarantine_suffix n"
  shows "disk_ok env issued d \<Longrightarrow> disk_ok env issued d'" and "durable d i \<Longrightarrow> durable d' i"
    and "dfile d' (n @ quarantine_suffix) f = dfile d n f" and "dir_files d' (n @ quarantine_suffix) \<noteq> None"
proof -
  obtain fs where fs: "dir_files d n = Some fs" "map_of d (n @ quarantine_suffix) = None"
    and d': "d' = AList.update (n @ quarantine_suffix) (RDir fs) (AList.delete n d)"
    using assms(1) by (auto simp: rename_dir_def split: option.splits prod.splits)
  have at: "dfile d' m f = (if m = n @ quarantine_suffix then dfile d n f
      else if m = n then None else dfile d m f)" for m f
    by (simp add: dfile_def d' fs)
  show "disk_ok env issued d'" if "disk_ok env issued d"
    unfolding disk_ok_def
  proof (intro allI impI)
    fix m f c assume c: "dfile d' m f = Some c"
    show "file_ok env issued (base_name m) f c"
    proof (cases "m = n @ quarantine_suffix")
      case True
      then have "file_ok env issued (base_name n) f c" using c that at by (simp add: disk_ok_def)
      then show ?thesis using True assms(2) by (simp add: base_name_id)
    next
      case False
      then show ?thesis using c that at by (simp add: disk_ok_def split: if_splits)
    qed
  qed
  have absent: "dfile d (n @ quarantine_suffix) f = None" for f
    using fs(2) by (simp add: dfile_def dir_files_def)
  show "durable d' i" if "durable d i"
    using that assms(2) absent suffix_quarantined [of i] unfolding durable_def has_request_def at by auto
  show "dfile d' (n @ quarantine_suffix) f = dfile d n f" by (simp add: at)
  show "dir_files d' (n @ quarantine_suffix) \<noteq> None" by (simp add: d')
qed

lemma keeps_rename:
  assumes "\<not> suffix quarantine_suffix n"
  shows "keeps (svc_rel env issued) (rename_entry fl n (n @ quarantine_suffix))"
proof -
  let ?P = "\<lambda>d d'. (disk_ok env issued d \<longrightarrow> disk_ok env issued d') \<and> (\<forall>i. durable d i \<longrightarrow> durable d' i)"
  have "keeps (host_rel ?P) (rename_entry fl n (n @ quarantine_suffix))"
    unfolding rename_entry_def
    by (rule keeps_io) (use rename_quarantine(1,2) assms in \<open>auto intro!: reflpI\<close>)
  then show ?thesis
    by (rule keeps_mono) (auto simp: host_rel_def svc_rel_def safe_def remembered_def)
qed

lemma keeps_quarantine_move:
  "\<not> suffix quarantine_suffix n \<Longrightarrow> keeps (svc_rel env issued) (quarantine_move env n)"
  unfolding quarantine_move_def Let_def
  by (intro keeps_rules svc_keeps keeps_mark_ambiguous keeps_rename)

text \<open>What is read back from a key file of a safe state is what the service wrote.\<close>

lemma read_bytes_file:
  "read_bytes fl l s = (Inr raw, s') \<Longrightarrow> file_at (sv_disk s) l = Some raw"
  by (auto simp: read_bytes_def abind_Inr_iff dest!: probe_disk split: option.splits)

lemma file_at_ok:
  "\<lbrakk>disk_ok env issued d; file_at d (InDir n f) = Some raw\<rbrakk>
    \<Longrightarrow> file_ok env issued (base_name n) f (FFile raw)"
  unfolding disk_ok_def file_at_dfile by (auto split: option.splits fnode.splits)

lemma yields_read:
  "yields (safe env issued) (\<lambda>raw. file_ok env issued (base_name n) f (FFile raw)) (read_bytes fl (InDir n f))"
  unfolding yields_def safe_def by (blast intro: file_at_ok dest: read_bytes_file)

lemma yields_try_read:
  "yields (safe env issued) (\<lambda>v. \<forall>x. v = Some x \<longrightarrow>
      (\<exists>raw. file_ok env issued (base_name n) f (FFile raw) \<and> load raw = Inr x))
     (try_read env (InDir n f) load)"
  unfolding yields_def try_read_def safe_def
  by (auto simp: acatch_def abind_def simp del: file_at.simps split: option.splits prod.splits sum.splits if_splits)
    (blast intro: file_at_ok dest: read_bytes_file)

lemma load_key_files:
  assumes "honest env issued"
  shows "\<lbrakk>file_ok env issued m ''request.json'' (FFile raw); load_request env raw = Inr r\<rbrakk>
      \<Longrightarrow> rq_assignment_id r = m \<and> rq_envelope_id r = issued m \<and> validate_request r = Inr r"
    and "\<lbrakk>file_ok env issued m ''receipt.json'' (FFile raw); load_receipt env raw = Inr rc\<rbrakk>
      \<Longrightarrow> ar_assignment_id rc = m \<and> ar_envelope_id rc = issued m"
    and "file_ok env issued m tombstone_name (FFile raw)
      \<Longrightarrow> \<exists>t. load_tombstone_json env raw = Inr t \<and> tb_assignment_id t = m \<and> tb_envelope_id t = issued m"
proof -
  note laws = assms [unfolded honest_def]
  show "rq_assignment_id r = m \<and> rq_envelope_id r = issued m \<and> validate_request r = Inr r"
    if f: "file_ok env issued m ''request.json'' (FFile raw)" and l: "load_request env raw = Inr r"
  proof -
    obtain q where q: "raw = json_line env (request_dict env q)" "validate_request q = Inr q"
      "rq_assignment_id q = m" "rq_envelope_id q = issued m"
      using f unfolding file_ok_def by blast
    have "parse_request env raw = Inr q" using laws q(1,2) by blast
    then have "r = q" using l q(2) by (simp add: load_request_def)
    then show ?thesis using q by simp
  qed
  show "ar_assignment_id rc = m \<and> ar_envelope_id rc = issued m"
    if f: "file_ok env issued m ''receipt.json'' (FFile raw)" and l: "load_receipt env raw = Inr rc"
  proof -
    obtain q where q: "raw = json_line env (receipt_dict env q)" "ar_assignment_id q = m" "ar_envelope_id q = issued m"
      using f unfolding file_ok_def by blast
    obtain q' where q': "parse_receipt env raw = Inr q'" "ar_assignment_id q' = m" "ar_envelope_id q' = issued m"
      using laws q by metis
    then have "bind_receipt env q' = Inr rc" using l by (simp add: load_receipt_def validate_receipt_def)
    then show ?thesis using q' by (auto simp: bind_receipt_def Let_def split: if_splits)
  qed
  show "\<exists>t. load_tombstone_json env raw = Inr t \<and> tb_assignment_id t = m \<and> tb_envelope_id t = issued m"
    if f: "file_ok env issued m tombstone_name (FFile raw)"
  proof -
    obtain t where t: "raw = json_line env (tombstone_dict env t)" "validate_tombstone t = Inr t"
      "tb_assignment_id t = m" "tb_envelope_id t = issued m"
      using f unfolding file_ok_def by blast
    have "parse_tombstone env raw = Inr t" using laws t(1) by blast
    then show ?thesis using t by (simp add: load_tombstone_json_def)
  qed
qed

lemma keeps_recover_identity: "keeps (svc_rel env issued) (recover_identity env n)"
  unfolding recover_identity_def by (intro keeps_rules svc_keeps keeps_try_read)

definition true_identity :: "(string \<Rightarrow> string) \<Rightarrow> string \<Rightarrow> (string \<times> string \<times> string) option \<Rightarrow> bool" where
  "true_identity issued m v \<longleftrightarrow> (\<forall>aid eid sha. v = Some (aid, eid, sha) \<longrightarrow> aid = m \<and> eid = issued m)"

lemma yields_recover_identity:
  assumes "honest env issued"
  shows "yields (safe env issued) (true_identity issued (base_name n)) (recover_identity env n)"
  unfolding yields_def true_identity_def
proof (intro allI impI)
  fix s v s' aid eid sha
  assume s: "safe env issued s" and r: "recover_identity env n s = (Inr v, s')" and v: "v = Some (aid, eid, sha)"
  obtain q s1 where q: "try_read env (InDir n ''request.json'') (load_request env) s = (Inr q, s1)"
    and rest: "(case q of Some r \<Rightarrow> aret (Some (rq_assignment_id r, rq_envelope_id r, rq_envelope_sha256 r))
      | None \<Rightarrow> abind (try_read env (InDir n ''receipt.json'') (load_receipt env)) (\<lambda>c. case c of
           Some c \<Rightarrow> aret (Some (ar_assignment_id c, ar_envelope_id c, ar_envelope_sha256 c))
         | None \<Rightarrow> aret None)) s1 = (Inr v, s')"
    using r by (auto simp: recover_identity_def abind_Inr_iff)
  have s1: "safe env issued s1" using keepsD [OF keeps_try_read q] s by (simp add: svc_rel_def)
  show "aid = base_name n \<and> eid = issued (base_name n)"
  proof (cases q)
    case (Some r)
    then obtain raw where "file_ok env issued (base_name n) ''request.json'' (FFile raw)"
      "load_request env raw = Inr r"
      using yields_try_read [of env issued n "''request.json''" "load_request env"] q s
      unfolding yields_def by blast
    then show ?thesis using load_key_files(1) [OF assms] rest Some v by auto
  next
    case None
    then obtain c s2 where c: "try_read env (InDir n ''receipt.json'') (load_receipt env) s1 = (Inr (Some c), s2)"
      and v': "aid = ar_assignment_id c" "eid = ar_envelope_id c"
      using rest v by (auto simp: abind_Inr_iff split: option.splits)
    then obtain raw where "file_ok env issued (base_name n) ''receipt.json'' (FFile raw)"
      "load_receipt env raw = Inr c"
      using yields_try_read [of env issued n "''receipt.json''" "load_receipt env"] s1
      unfolding yields_def by blast
    then show ?thesis using load_key_files(2) [OF assms] v' by auto
  qed
qed

lemma validate_tombstone_same: "validate_tombstone t = Inr t' \<Longrightarrow> t' = t"
  by (auto simp: validate_tombstone_def)

lemma keeps_write_tombstone:
  assumes "aid = base_name n" and "eid = issued aid"
  shows "keeps (svc_rel env issued) (write_tombstone env n (aid, eid, sha) reason)"
proof -
  have "keeps (svc_rel env issued) (atomic_write_bytes (faults env) (InDir n tombstone_name)
      (json_line env (tombstone_dict env t)))"
    if "validate_tombstone \<lparr>tb_assignment_id = aid, tb_envelope_id = eid, tb_envelope_sha256 = sha,
      tb_quarantined_at = now, tb_reason = reason\<rparr> = Inr t" for t now
    using that validate_tombstone_same [OF that] assms
    by (intro keeps_write_key) (auto simp: file_ok_def tombstone_name_def key_files_def)
  then show ?thesis
    unfolding write_tombstone_def prod.case
    by (intro keeps_abind [OF svc_rel_preorder(2) keeps_svc_clock] keeps_lift_bind)
      (intro keeps_rules svc_keeps)
qed

lemma write_tombstone_post:
  assumes "write_tombstone env n (aid, eid, sha) reason s = (Inr v, s')"
  shows "map_of (sv_tombstones s') aid \<noteq> None \<and> map_of (sv_envelope_tombstones s') eid \<noteq> None"
proof -
  obtain now t p s1 where "validate_tombstone \<lparr>tb_assignment_id = aid, tb_envelope_id = eid,
      tb_envelope_sha256 = sha, tb_quarantined_at = now, tb_reason = reason\<rparr> = Inr t"
    and "register_tombstone t s1 = (Inr (), s')"
    using assms unfolding write_tombstone_def prod.case by (auto simp: abind_Inr_iff)
  then show ?thesis
    using validate_tombstone_same by (fastforce simp: register_tombstone_def update_conv')
qed

lemma keeps_entomb:
  assumes "honest env issued"
  shows "keeps (svc_rel env issued) (entomb env n reason)"
  unfolding entomb_def Let_def
  by (rule keeps_bind_yields [OF keeps_recover_identity yields_recover_identity [OF assms]])
    (auto simp: true_identity_def split: option.split intro!: keeps_mark_ambiguous keeps_abind keeps_aret
      svc_rel_preorder keeps_write_tombstone)

lemma entomb_post:
  assumes "honest env issued" and "safe env issued s" and "entomb env n reason s = (Inr (), s')"
  shows "remembered issued s' n"
proof -
  obtain v s1 where v: "recover_identity env (n @ quarantine_suffix) s = (Inr v, s1)"
    and rest: "(case v of None \<Rightarrow> mark_ambiguous env n ''quarantine identity unrecoverable''
     | Some ident \<Rightarrow> abind (write_tombstone env (n @ quarantine_suffix) ident reason) (\<lambda>_. aret ())) s1 = (Inr (), s')"
    using assms(3) unfolding entomb_def Let_def abind_Inr_iff by blast
  show ?thesis
  proof (cases v)
    case None
    then have "mark_ambiguous env n ''quarantine identity unrecoverable'' s1 = (Inr (), s')"
      using rest by (simp only: option.case)
    then show ?thesis
      using mark_ambiguous_post [of n env "''quarantine identity unrecoverable''" s1]
      by (simp only: snd_conv) (simp add: remembered_def)
  next
    case (Some w)
    obtain aid eid sha where w: "w = (aid, eid, sha)" by (cases w)
    have "true_identity issued n v"
      using yields_recover_identity [OF assms(1), of "n @ quarantine_suffix"] v assms(2)
      unfolding yields_def by fastforce
    then have "aid = n" "eid = issued n" using Some w by (auto simp: true_identity_def)
    moreover obtain u where "write_tombstone env (n @ quarantine_suffix) (aid, eid, sha) reason s1 = (Inr u, s')"
      using rest Some w by (auto simp: abind_Inr_iff)
    ultimately show ?thesis using write_tombstone_post by (fastforce simp: remembered_def)
  qed
qed

lemma keeps_quarantine:
  assumes "honest env issued" and "\<not> suffix quarantine_suffix n"
  shows "keeps (svc_rel env issued) (quarantine env n reason)"
  unfolding quarantine_def Let_def
  by (intro keeps_rules svc_keeps keeps_quarantine_move assms keeps_write_other keeps_entomb) simp_all

lemma quarantine_move_post:
  assumes "quarantine_move env n s = (Inr v, s')" and "\<not> suffix quarantine_suffix n"
    and "has_request (sv_disk s) n"
  shows "v = None \<and> n \<in> sv_ambiguous s' \<or> v = Some False \<and> dir_files (sv_disk s') (n @ quarantine_suffix) \<noteq> None"
proof -
  let ?t = "n @ quarantine_suffix"
  let ?names = "case dir_files (sv_disk s) n of None \<Rightarrow> [] | Some fs \<Rightarrow> map fst fs"
  let ?body = "if map_of (sv_disk s) ?t \<noteq> None then
      abind (mark_ambiguous env n ''quarantine target already exists'') (\<lambda>_. aret None)
    else abind (probe (faults env) n) (\<lambda>_.
      abind (rename_entry (faults env) n ?t) (\<lambda>_. aret (Some (list_all (\<lambda>f. f = ''request.json.tmp'') ?names))))"
  have mark: "n \<in> sv_ambiguous s2" if "abind (mark_ambiguous env n why) (\<lambda>_. aret None) s1 = (Inr w, s2)"
    for why s1 s2 and w :: "bool option"
    using that mark_ambiguous_post [of n env why s1] by (auto simp: abind_Inr_iff)
  have pre: "\<not> list_all (\<lambda>f. f = ''request.json.tmp'') ?names"
  proof -
    have "''request.json'' \<in> set ?names"
      using assms(3) by (force simp: has_request_def dfile_def split: option.splits dest!: map_of_SomeD)
    then show ?thesis by (auto simp: list_all_iff)
  qed
  obtain q s1 where q: "?body s = (q, s1)" by fastforce
  have def: "quarantine_move env n s = (case (q, s1) of
      (Inl e, s1) \<Rightarrow> if is_OSError e
        then abind (mark_ambiguous env n ''quarantine rename failed'') (\<lambda>_. aret None) s1 else (Inl e, s1)
    | r \<Rightarrow> r)"
    unfolding q [symmetric] by (simp add: quarantine_move_def acatch_def Let_def)
  show ?thesis
  proof (cases q)
    case (Inl e)
    then have "abind (mark_ambiguous env n ''quarantine rename failed'') (\<lambda>_. aret None) s1 = (Inr v, s')"
      using def assms(1) by (simp split: if_splits)
    then show ?thesis using mark by (auto simp: abind_Inr_iff)
  next
    case (Inr w)
    then have w: "w = v" "s1 = s'" using def assms(1) by simp_all
    show ?thesis
    proof (cases "map_of (sv_disk s) ?t \<noteq> None")
      case True
      then have m: "abind (mark_ambiguous env n ''quarantine target already exists'') (\<lambda>_. aret None) s = (Inr v, s')"
        using q Inr w by simp
      show ?thesis using mark [OF m] m by (auto simp: abind_Inr_iff)
    next
      case False
      then obtain s2 where r: "rename_entry (faults env) n ?t s2 = (Inr (), s')" and v: "v = Some False"
        using q Inr w pre by (auto simp: abind_Inr_iff)
      have "rename_dir n ?t (sv_disk s2) = Some (sv_disk s')" using io_Inr r unfolding rename_entry_def by blast
      then show ?thesis using v rename_quarantine(4) [OF _ assms(2)] by blast
    qed
  qed
qed

lemma quarantine_post:
  assumes "honest env issued" and "safe env issued s" and "\<not> suffix quarantine_suffix n"
    and "has_request (sv_disk s) n" and "quarantine env n reason s = (Inr (), s')"
  shows "remembered issued s' n"
proof -
  let ?t = "n @ quarantine_suffix"
  obtain v s1 where move: "quarantine_move env n s = (Inr v, s1)"
    using assms(5) unfolding quarantine_def Let_def abind_Inr_iff by blast
  have rel: "svc_rel env issued s s1" using keepsD [OF keeps_quarantine_move [OF assms(3)] move] .
  have post: "v = None \<and> n \<in> sv_ambiguous s1 \<or> v = Some False \<and> dir_files (sv_disk s1) ?t \<noteq> None"
    using quarantine_move_post [OF move assms(3,4)] .
  show ?thesis
  proof (cases v)
    case None
    then have "s' = s1" using assms(5) move by (simp add: quarantine_def)
    then show ?thesis using post None by (simp add: remembered_def)
  next
    case (Some b)
    then have v: "v = Some False" and dir: "dir_files (sv_disk s1) ?t \<noteq> None" using post by auto
    define wr where "wr = (\<lambda>now. atomic_write_bytes (faults env) (InDir ?t ''quarantine.json'') (json_line env
              [(''schema'', PStr ''testudo.assignment.quarantine.v1''), (''run_id'', PStr n),
               (''reason'', PStr reason), (''at'', PStr (iso env now))]) :: (svc, unit) act)"
    obtain now s2 where c: "host_clock (clock env) s1 = (Inr now, s2)" and d2: "sv_disk s2 = sv_disk s1"
      by (simp add: host_clock_def)
    obtain q s3 where w: "wr now s2 = (q, s3)" by fastforce
    have out: "(if b then entomb env n reason else aret ()) s3 = (Inr (), s')"
      if "acatch is_OSError (abind (wr now) (\<lambda>_. aret True)) (\<lambda>_. aret False) s2 = (Inr b, s3)" for b s3
      using assms(5) move v c that unfolding quarantine_def Let_def wr_def by (cases b) simp_all
    have q: "q = Inr ()"
    proof (cases q)
      case (Inl e)
      have "e = ProcessDied"
        using atomic_write_no_error [OF w [unfolded wr_def Inl]] assms(1) dir d2 by (auto simp: honest_def)
      then have "quarantine env n reason s = (Inl ProcessDied, s3)"
        using move v c w Inl unfolding quarantine_def Let_def wr_def by (simp add: acatch_def)
      then show ?thesis using assms(5) by simp
    qed simp
    have "entomb env n reason s3 = (Inr (), s')" using out [of True s3] w q by (simp add: acatch_def)
    moreover have "safe env issued s3"
    proof -
      have "svc_rel env issued s1 s2" using keepsD [OF keeps_svc_clock c] .
      moreover have "svc_rel env issued s2 s3"
        by (rule keepsD [OF keeps_write_other w [unfolded wr_def]]) simp_all
      ultimately show ?thesis using rel assms(2) by (simp add: svc_rel_def)
    qed
    ultimately show ?thesis using entomb_post [OF assms(1)] by blast
  qed
qed

section \<open>Recovery\<close>

lemma keeps_read_durable: "keeps (svc_rel env issued) (read_durable_events env n aid)"
  unfolding read_durable_events_def
  by (intro keeps_rules svc_keeps keeps_write_other) simp_all

lemma yields_read_durable: "yields P (log_ok aid aid) (read_durable_events env n aid)"
  unfolding yields_def read_durable_events_def
  by (auto simp: abind_Inr_iff split: option.splits dest!: parse_log_ok)

lemma load_receipt_bound: "load_receipt env raw = Inr rc \<Longrightarrow> ar_receipt_id rc = digest env (as_receipt_payload env rc)"
  by (auto simp: load_receipt_def validate_receipt_def bind_receipt_def Let_def as_receipt_payload_def
      split: if_splits)

lemma check_receipt_binds:
  "\<lbrakk>check_receipt env st rc = Inr (); load_receipt env raw = Inr rc\<rbrakk> \<Longrightarrow> receipt_binds env st rc"
  using load_receipt_bound by (auto simp: check_receipt_def receipt_binds_def Let_def split: if_splits)

lemma recovered_run_ok:
  assumes "validate_request r = Inr r" and "rq_envelope_id r = issued (rq_assignment_id r)"
    and "log_ok (rq_assignment_id r) (rq_assignment_id r) events"
    and "st = (run_state_init r (rq_assignment_id r) t)\<lparr>rs_recovered := True, rs_events := events\<rparr>"
    and "\<And>rc. receipt = Some rc \<Longrightarrow> receipt_binds env st rc"
  shows "run_ok env issued (rq_assignment_id r) (st\<lparr>rs_receipt := receipt\<rparr>)"
  using assms validate_request_id [OF assms(1)] id_no_suffix
  by (auto simp: run_ok_def run_state_init_def receipt_binds_def)

lemma keeps_recover_events: "keeps (svc_rel env issued) (recover_events env n aid)"
  unfolding recover_events_def by (intro keeps_rules svc_keeps keeps_read_durable)

lemma yields_recover_events: "yields P (log_ok aid aid) (recover_events env n aid)"
  using yields_read_durable [of P aid env n]
  by (auto simp: yields_def recover_events_def log_ok_def [of _ _ "[]"] split: if_splits)

lemma keeps_recover_receipt: "keeps (svc_rel env issued) (recover_receipt env n st)"
  unfolding recover_receipt_def by (intro keeps_rules svc_keeps)

lemma yields_recover_receipt:
  "yields P (\<lambda>v. \<forall>rc. v = Some rc \<longrightarrow> receipt_binds env st rc) (recover_receipt env n st)"
  unfolding yields_def recover_receipt_def
  by (auto simp: abind_Inr_iff split: if_splits intro: check_receipt_binds)

lemma keeps_recover_run:
  assumes "honest env issued" and "base_name n = n"
  shows "keeps (svc_rel env issued) (recover_run env n)"
  unfolding recover_run_def Let_def
proof (intro keeps_bind_yields [OF keeps_svc_read yields_read] keeps_lift_bind
    keeps_abind [OF svc_rel_preorder(2) keeps_svc_clock]
    keeps_bind_yields [OF keeps_recover_events yields_recover_events]
    keeps_bind_yields [OF keeps_recover_receipt yields_recover_receipt] keeps_awith keeps_if keeps_svc_error
    keeps_put_run, goal_cases)
  case (1 raw r started events receipt s)
  have "rq_assignment_id r = n \<and> rq_envelope_id r = issued n \<and> validate_request r = Inr r"
    using load_key_files(1) [OF assms(1) _ 1(2)] 1(1) assms(2) by simp
  then show ?case using recovered_run_ok [OF _ _ 1(3) refl, of issued receipt env started] 1(4) by auto
qed

lemma recover_run_post:
  assumes "honest env issued" and "base_name n = n" and "safe env issued s"
    and "recover_run env n s = (Inr (), s')"
  shows "remembered issued s' n"
proof -
  obtain raw s1 r st s2 where raw: "read_bytes (faults env) (InDir n ''request.json'') s = (Inr raw, s1)"
    and r: "load_request env raw = Inr r" and p: "put_run (rq_assignment_id r) st s2 = (Inr (), s')"
    using assms(4)
    by (auto simp: recover_run_def Let_def abind_Inr_iff assignment_error_def split: if_splits)
  have "file_ok env issued n ''request.json'' (FFile raw)"
    using yields_read [of env issued n "''request.json''" "faults env"] raw assms(2,3)
    unfolding yields_def by metis
  then have "rq_assignment_id r = n" using load_key_files(1) [OF assms(1) _ r] by blast
  then show ?thesis using p by (auto simp: put_run_def remembered_def update_conv')
qed

text \<open>
  Recovering one run directory leaves the request of every other directory where it is.
\<close>

lemma keeps_request_recover: "keeps request_rel (recover_run env n)"
  unfolding recover_run_def Let_def recover_events_def recover_receipt_def read_durable_events_def
    put_run_def assignment_error_def
  by (intro keeps_rules request_keeps keeps_request_write) (simp_all add: request_rel_def)

definition other_requests :: "string \<Rightarrow> svc \<Rightarrow> svc \<Rightarrow> bool" where
  "other_requests n s s' \<longleftrightarrow> (\<forall>i. i \<noteq> n \<longrightarrow> has_request (sv_disk s) i \<longrightarrow> has_request (sv_disk s') i)"

lemma other_requests_preorder: "reflp (other_requests n)" "transp (other_requests n)"
  by (auto simp: other_requests_def intro!: reflpI transpI)

lemma keeps_other: "keeps request_rel m \<Longrightarrow> keeps (other_requests n) m"
  by (erule keeps_mono) (simp add: request_rel_def other_requests_def)

lemma keeps_request_mark: "keeps request_rel (mark_ambiguous env n reason)"
  unfolding mark_ambiguous_def add_ambiguous_def
  by (intro keeps_rules request_keeps) (simp add: request_rel_def)

lemma keeps_request_entomb: "keeps request_rel (entomb env n reason)"
  unfolding entomb_def Let_def recover_identity_def try_read_def write_tombstone_def add_ambiguous_def
    register_tombstone_def
  by (intro keeps_rules request_keeps keeps_request_write keeps_request_mark)
    (simp_all add: tombstone_name_def request_rel_def)

lemma keeps_other_rename: "keeps (other_requests n) (rename_entry fl n m)"
proof -
  let ?P = "\<lambda>d d'. \<forall>i. i \<noteq> n \<longrightarrow> has_request d i \<longrightarrow> has_request d' i"
  have "?P d d'" if r: "rename_dir n m d = Some d'" for d d'
  proof -
    obtain fs where m: "map_of d m = None" and d': "d' = AList.update m (RDir fs) (AList.delete n d)"
      using r by (auto simp: rename_dir_def split: option.splits)
    have "\<not> has_request d m" using m by (simp add: has_request_def dfile_def dir_files_def)
    then show ?thesis by (auto simp: d' has_request_def dfile_def)
  qed
  then have "keeps (host_rel ?P) (rename_entry fl n m)"
    unfolding rename_entry_def by (intro keeps_io) (auto intro!: reflpI)
  then show ?thesis by (rule keeps_mono) (auto simp: host_rel_def other_requests_def)
qed

lemmas other_keeps = other_requests_preorder keeps_other_rename request_keeps(3-) [THEN keeps_other]
  keeps_request_mark [THEN keeps_other] keeps_request_entomb [THEN keeps_other]
  keeps_request_recover [THEN keeps_other] keeps_request_write [THEN keeps_other]

lemma keeps_other_quarantine: "keeps (other_requests n) (quarantine env n reason)"
  unfolding quarantine_def quarantine_move_def Let_def
  by (intro keeps_rules other_keeps) simp_all

lemma keeps_other_load: "keeps (other_requests n) (load_run_dir env n)"
  unfolding load_run_dir_def by (intro keeps_rules other_keeps keeps_other_quarantine)

lemma keeps_load_run_dir:
  assumes "honest env issued"
  shows "keeps (svc_rel env issued) (load_run_dir env n)"
proof (cases "suffix quarantine_suffix n")
  case True
  then show ?thesis
    unfolding load_run_dir_def by (intro keeps_awith keeps_if keeps_aret svc_rel_preorder) auto
next
  case False
  then show ?thesis
    unfolding load_run_dir_def
    by (intro keeps_rules svc_rel_preorder keeps_quarantine keeps_recover_run assms base_name_id)
qed

lemma load_run_dir_post:
  assumes "honest env issued" and "safe env issued s" and "\<not> suffix quarantine_suffix n"
    and "has_request (sv_disk s) n" and "load_run_dir env n s = (Inr (), s')"
  shows "remembered issued s' n"
proof -
  obtain c where "dfile (sv_disk s) n ''request.json'' = Some c" using assms(4) by (auto simp: has_request_def)
  moreover from this have "file_ok env issued (base_name n) ''request.json'' c"
    using assms(2) by (simp add: safe_def disk_ok_def)
  ultimately have "file_at (sv_disk s) (InDir n ''request.json'') \<noteq> None" "dir_files (sv_disk s) n \<noteq> None"
    unfolding file_at_dfile by (auto simp: file_ok_def dfile_def split: option.splits)
  then have l: "load_run_dir env n s = acatch load_caught (recover_run env n) (\<lambda>e. quarantine env n (error_text e)) s"
    using assms(3) by (auto simp: load_run_dir_def simp del: file_at.simps)
  obtain q s1 where q: "recover_run env n s = (q, s1)" by fastforce
  show ?thesis
  proof (cases q)
    case (Inr u)
    then show ?thesis
      using l q assms recover_run_post [OF assms(1) base_name_id [OF assms(3)] assms(2)] by (simp add: acatch_def)
  next
    case (Inl e)
    have rel: "svc_rel env issued s s1"
      using keepsD [OF keeps_recover_run [OF assms(1) base_name_id [OF assms(3)]] q] .
    moreover have "has_request (sv_disk s1) n"
      using keepsD [OF keeps_request_recover q] assms(4) by (simp add: request_rel_def)
    moreover have "quarantine env n (error_text e) s1 = (Inr (), s')"
      using l q Inl assms(5) by (simp add: acatch_def split: if_splits)
    ultimately show ?thesis
      using quarantine_post [OF assms(1) _ assms(3)] assms(2) unfolding svc_rel_def by blast
  qed
qed

lemma keeps_load_tombstone: "keeps (svc_rel env issued) (load_tombstone env n)"
  unfolding load_tombstone_def by (intro keeps_rules svc_keeps)

lemma keeps_request_tombstone: "keeps request_rel (load_tombstone env n)"
  unfolding load_tombstone_def add_ambiguous_def register_tombstone_def
  by (intro keeps_rules request_keeps) (simp_all add: request_rel_def)

lemma keeps_request_ambiguous: "keeps request_rel (add_ambiguous n)"
  unfolding add_ambiguous_def by (rule keeps_aset) (simp add: request_rel_def)

lemma add_ambiguous_post: "add_ambiguous n s = (r, s') \<Longrightarrow> n \<in> sv_ambiguous s'"
  by (auto simp: add_ambiguous_def)

lemma register_post:
  "register_tombstone t s = (r, s') \<Longrightarrow> tb_envelope_id t = issued (tb_assignment_id t)
    \<Longrightarrow> remembered issued s' (tb_assignment_id t)"
  by (auto simp: register_tombstone_def remembered_def update_conv')

lemma load_tombstone_post:
  assumes "honest env issued" and "safe env issued s" and "has_request (sv_disk s) (i @ quarantine_suffix)"
    and l: "load_tombstone env (i @ quarantine_suffix) s = (Inr (), s')"
  shows "remembered issued s' i"
proof (cases "file_at (sv_disk s) (InDir (i @ quarantine_suffix) tombstone_name)")
  case None
  obtain fs c where fs: "dir_files (sv_disk s) (i @ quarantine_suffix) = Some fs" "map_of fs ''request.json'' = Some c"
    using assms(3) by (auto simp: has_request_def dfile_def split: option.splits)
  have "list_ex (\<lambda>(f, c). f \<notin> {''quarantine.json'', ''request.json.tmp''}) fs"
    unfolding list_ex_iff by (rule bexI [OF _ map_of_SomeD [OF fs(2)]]) simp
  then obtain s1 where "add_ambiguous i s1 = (Inr (), s')"
    using l None fs(1) by (auto simp: load_tombstone_def abind_Inr_iff simp del: file_at.simps)
  then show ?thesis using add_ambiguous_post by (fastforce simp: remembered_def)
next
  case (Some raw)
  let ?read = "abind (read_bytes (faults env) (InDir (i @ quarantine_suffix) tombstone_name)) (\<lambda>raw.
            abind (alift (load_tombstone_json env raw)) (\<lambda>t. aret (Some t)))"
  obtain v s1 where v: "acatch (\<lambda>e. is_OSError e \<or> is_ValueError e) ?read (\<lambda>_. aret None) s = (Inr v, s1)"
    and rest: "(case v of None \<Rightarrow> add_ambiguous i | Some t \<Rightarrow> register_tombstone t) s1
        = (Inr (), s')"
    using l Some by (auto simp: load_tombstone_def abind_Inr_iff simp del: file_at.simps)
  show ?thesis
  proof (cases v)
    case None
    then show ?thesis using rest add_ambiguous_post by (fastforce simp: remembered_def)
  next
    case v2: (Some t)
    then have "?read s = (Inr (Some t), s1)"
      using v by (auto simp: acatch_def split: prod.splits sum.splits if_splits)
    then obtain raw2 s2 where "read_bytes (faults env) (InDir (i @ quarantine_suffix) tombstone_name) s = (Inr raw2, s2)"
      and t: "load_tombstone_json env raw2 = Inr t" by (auto simp: abind_Inr_iff)
    then have "file_ok env issued (base_name (i @ quarantine_suffix)) tombstone_name (FFile raw2)"
      using yields_read assms(2) unfolding yields_def by blast
    then obtain t' where "load_tombstone_json env raw2 = Inr t'" "tb_assignment_id t' = i" "tb_envelope_id t' = issued i"
      using load_key_files(3) [OF assms(1)] by fastforce
    then show ?thesis using t rest v2 register_post [of t s1 "Inr ()" s' issued] by auto
  qed
qed

text \<open>A loop that handles the directory \<open>x\<close>, and keeps it until then.\<close>

lemma afor_post:
  assumes "afor xs f s = (Inr (), s')" and "I s" and "x \<in> set xs" and "T s"
    and I: "\<And>y s s'. \<lbrakk>I s; f y s = (Inr (), s')\<rbrakk> \<Longrightarrow> I s'"
    and T: "\<And>y s s'. \<lbrakk>I s; T s; y \<noteq> x; f y s = (Inr (), s')\<rbrakk> \<Longrightarrow> T s'"
    and Q: "\<And>s s'. \<lbrakk>I s; T s; f x s = (Inr (), s')\<rbrakk> \<Longrightarrow> Q s'"
    and stable: "\<And>xs s s'. \<lbrakk>I s; Q s; afor xs f s = (Inr (), s')\<rbrakk> \<Longrightarrow> Q s'"
  shows "Q s'"
  using assms(1-4)
proof (induction xs arbitrary: s)
  case (Cons y ys)
  obtain s1 where 1: "f y s = (Inr (), s1)" "afor ys f s1 = (Inr (), s')"
    using Cons.prems(1) by (auto simp: abind_Inr_iff)
  have "I s1" using I Cons.prems(2) 1(1) .
  show ?case
  proof (cases "y = x")
    case True
    then show ?thesis using Q stable \<open>I s1\<close> 1 Cons.prems by blast
  next
    case False
    then show ?thesis using Cons.IH [OF 1(2) \<open>I s1\<close>] T Cons.prems 1(1) by auto
  qed
qed simp

lemma has_request_listed: "has_request d n \<Longrightarrow> n \<in> fst ` set d"
  by (auto simp: has_request_def dfile_def dir_files_def split: option.splits dest!: map_of_SomeD intro: rev_image_eqI)

lemma keeps_load_loops:
  "keeps (svc_rel env issued) (load_tombstones env)" "keeps (svc_rel env issued) load_markers"
  "honest env issued \<Longrightarrow> keeps (svc_rel env issued) (load_runs env)"
  unfolding load_tombstones_def load_markers_def load_runs_def
  by (intro keeps_awith keeps_afor svc_keeps keeps_load_tombstone keeps_load_run_dir; assumption)+

lemma keeps_request_loops: "keeps request_rel (load_tombstones env)" "keeps request_rel load_markers"
  unfolding load_tombstones_def load_markers_def
  by (intro keeps_awith keeps_afor request_rel_preorder keeps_request_tombstone keeps_request_ambiguous)+

lemma keeps_load:
  assumes "honest env issued"
  shows "keeps (svc_rel env issued) (load_durable_state env)"
  unfolding load_durable_state_def
  by (intro keeps_abind svc_keeps keeps_load_loops assms)

lemma svc_rel_facts:
  assumes "keeps (svc_rel env issued) m" and "m s = (r, s')" and "safe env issued s"
  shows "safe env issued s'" and "remembered issued s i \<Longrightarrow> remembered issued s' i"
  using keepsD [OF assms(1,2)] assms(3) by (auto simp: svc_rel_def)

lemma load_tombstones_post:
  assumes h: "honest env issued" and safe: "safe env issued s"
    and l: "load_tombstones env s = (Inr (), s')" and d: "has_request (sv_disk s) (i @ quarantine_suffix)"
  shows "remembered issued s' i"
proof -
  let ?x = "i @ quarantine_suffix"
  let ?names = "sort (filter (\<lambda>n. suffix quarantine_suffix n \<and> dir_files (sv_disk s) n \<noteq> None) (map fst (sv_disk s)))"
  have "dir_files (sv_disk s) ?x \<noteq> None" using d by (auto simp: has_request_def dfile_def split: option.splits)
  then have x: "?x \<in> set ?names" using has_request_listed [OF d] suffix_quarantined by simp
  have loop: "afor ?names (load_tombstone env) s = (Inr (), s')" using l by (simp add: load_tombstones_def)
  show ?thesis
  proof (rule afor_post [where I = "safe env issued" and T = "\<lambda>s. has_request (sv_disk s) ?x"
        and Q = "\<lambda>s. remembered issued s i", OF loop safe x d], goal_cases)
    case (1 y s s')
    show ?case using svc_rel_facts(1) [OF keeps_load_tombstone 1(2,1)] .
  next
    case (2 y s s')
    then show ?case using keepsD [OF keeps_request_tombstone 2(4)] by (simp add: request_rel_def)
  next
    case (3 s s')
    show ?case using load_tombstone_post [OF h 3] .
  next
    case (4 xs s s')
    show ?case using svc_rel_facts(2) [OF keeps_afor [OF keeps_load_tombstone svc_rel_preorder] 4(3,1,2)] .
  qed
qed

lemma load_runs_post:
  assumes h: "honest env issued" and safe: "safe env issued s"
    and l: "load_runs env s = (Inr (), s')" and d: "has_request (sv_disk s) i" and i: "\<not> suffix quarantine_suffix i"
  shows "remembered issued s' i"
proof -
  have x: "i \<in> set (sort (map fst (sv_disk s)))" using has_request_listed [OF d] by simp
  have loop: "afor (sort (map fst (sv_disk s))) (load_run_dir env) s = (Inr (), s')" using l by (simp add: load_runs_def)
  show ?thesis
  proof (rule afor_post [where I = "safe env issued" and T = "\<lambda>s. has_request (sv_disk s) i"
        and Q = "\<lambda>s. remembered issued s i", OF loop safe x d], goal_cases)
    case (1 y s s')
    show ?case using svc_rel_facts(1) [OF keeps_load_run_dir [OF h] 1(2,1)] .
  next
    case (2 y s s')
    then show ?case using keepsD [OF keeps_other_load 2(4)] by (auto simp: other_requests_def)
  next
    case (3 s s')
    show ?case using load_run_dir_post [OF h 3(1) i 3(2,3)] .
  next
    case (4 xs s s')
    show ?case using svc_rel_facts(2) [OF keeps_afor [OF keeps_load_run_dir [OF h] svc_rel_preorder] 4(3,1,2)] .
  qed
qed

lemma load_post:
  assumes h: "honest env issued" and safe: "safe env issued s"
    and l: "load_durable_state env s = (Inr (), s')"
    and d: "durable (sv_disk s) i" and i: "\<not> suffix quarantine_suffix i"
  shows "remembered issued s' i"
proof -
  obtain s1 s2 s3 s4 where
    1: "probe (faults env) ''.'' s = (Inr (), s1)" and 2: "load_tombstones env s1 = (Inr (), s2)"
    and 3: "load_markers s2 = (Inr (), s3)" and 4: "probe (faults env) ''.'' s3 = (Inr (), s4)"
    and 5: "load_runs env s4 = (Inr (), s')"
    using l unfolding load_durable_state_def abind_Inr_iff by auto
  note safe1 = svc_rel_facts(1) [OF keeps_svc_probe 1 safe]
  note safe2 = svc_rel_facts(1) [OF keeps_load_loops(1) 2 safe1]
  note safe3 = svc_rel_facts(1) [OF keeps_load_loops(2) 3 safe2]
  note safe4 = svc_rel_facts(1) [OF keeps_svc_probe 4 safe3]
  have d1: "sv_disk s1 = sv_disk s" and d4: "sv_disk s4 = sv_disk s3" using probe_disk 1 4 by blast+
  show ?thesis
  proof (cases "has_request (sv_disk s) (i @ quarantine_suffix)")
    case True
    then have "remembered issued s2 i" using load_tombstones_post [OF h safe1 2] d1 by simp
    then have "remembered issued s3 i" by (rule svc_rel_facts(2) [OF keeps_load_loops(2) 3 safe2])
    then have "remembered issued s4 i" by (rule svc_rel_facts(2) [OF keeps_svc_probe 4 safe3])
    then show ?thesis by (rule svc_rel_facts(2) [OF keeps_load_loops(3) [OF h] 5 safe4])
  next
    case False
    then have "has_request (sv_disk s) i" using d by (simp add: durable_def)
    then have "has_request (sv_disk s4) i"
      using keepsD [OF keeps_request_loops(1) 2] keepsD [OF keeps_request_loops(2) 3]
      by (simp add: request_rel_def d1 d4)
    then show ?thesis using load_runs_post [OF h safe4 5 _ i] by blast
  qed
qed

section \<open>The invariant of a session\<close>

definition svc_inv :: "svc_env \<Rightarrow> (string \<Rightarrow> string) \<Rightarrow> svc \<Rightarrow> bool" where
  "svc_inv env issued s \<longleftrightarrow> honest env issued \<and> safe env issued s
     \<and> (\<forall>i \<in> set (sv_launched s). \<not> suffix quarantine_suffix i \<and> durable (sv_disk s) i
          \<and> (sv_alive s \<longrightarrow> remembered issued s i))
     \<and> distinct (map issued (sv_launched s))"

lemma svc_inv_rel: "\<lbrakk>svc_inv env issued s; svc_rel env issued s s'\<rbrakk> \<Longrightarrow> svc_inv env issued s'"
  by (auto simp: svc_inv_def svc_rel_def)

lemma svc_inv_started:
  assumes "svc_inv env issued s" and "sv_alive s" and "started env issued s s'"
  shows "svc_inv env issued s'"
proof -
  obtain i where i: "sv_launched s' = sv_launched s @ [i]" "safe env issued s'" "\<not> suffix quarantine_suffix i"
    "durable (sv_disk s') i" "remembered issued s' i"
    and mono: "\<And>j. durable (sv_disk s) j \<Longrightarrow> durable (sv_disk s') j"
      "\<And>j. remembered issued s j \<Longrightarrow> remembered issued s' j"
    and fresh: "\<And>j. remembered issued s j \<Longrightarrow> issued j \<noteq> issued i"
    using assms(3) by (auto simp: started_def)
  have "remembered issued s j" if "j \<in> set (sv_launched s)" for j
    using that assms(1,2) by (simp add: svc_inv_def)
  then have "issued i \<notin> issued ` set (sv_launched s)" using fresh by fastforce
  then show ?thesis using assms(1,2) i mono by (auto simp: svc_inv_def)
qed

lemma svc_inv_restart:
  assumes "svc_inv env issued s"
  shows "svc_inv env issued (snd (restart env s))"
proof -
  let ?s = "s\<lparr>sv_runs := [], sv_tombstones := [], sv_envelope_tombstones := [], sv_ambiguous := {}\<rparr>"
  have h: "honest env issued" and safe: "safe env issued ?s"
    using assms by (auto simp: svc_inv_def safe_def runs_ok_def)
  obtain r s' where l: "load_durable_state env ?s = (r, s')" by fastforce
  have rel: "svc_rel env issued ?s s'" using keepsD [OF keeps_load [OF h] l] .
  let ?s' = "s'\<lparr>sv_alive := (case r of Inl _ \<Rightarrow> False | Inr _ \<Rightarrow> True)\<rparr>"
  have "remembered issued ?s' i" if "i \<in> set (sv_launched s)" "r = Inr ()" for i
    using load_post [OF h safe l [unfolded that(2)], of i] assms that(1)
    by (auto simp: svc_inv_def remembered_def)
  moreover have "snd (restart env s) = ?s'" using l by (simp add: restart_def)
  ultimately show ?thesis
    using rel safe h assms by (auto simp: svc_inv_def svc_rel_def safe_def split: sum.splits)
qed

text \<open>An operator's reconciliation trades the ambiguous name for its tombstone.\<close>

lemma svc_inv_unmark:
  assumes "svc_inv env issued s" and "remembered issued (s\<lparr>sv_ambiguous := sv_ambiguous s - {n}\<rparr>) n"
  shows "svc_inv env issued (s\<lparr>sv_ambiguous := sv_ambiguous s - {n}\<rparr>)"
proof -
  have "remembered issued (s\<lparr>sv_ambiguous := sv_ambiguous s - {n}\<rparr>) i" if "remembered issued s i" for i
    using that assms(2) by (cases "i = n") (auto simp: remembered_def)
  then show ?thesis using assms(1) by (auto simp: svc_inv_def safe_def)
qed

lemma svc_inv_commit:
  assumes inv: "svc_inv env issued s" and id: "aid = n" "eid = issued n"
  shows "svc_inv env issued (snd (reconcile_commit env n aid eid sha s))"
proof -
  let ?w = "write_tombstone env (n @ quarantine_suffix) (aid, eid, sha) ''operator reconciliation''"
  obtain v s2 where w: "?w s = (v, s2)" by fastforce
  let ?s3 = "s2\<lparr>sv_ambiguous := sv_ambiguous s2 - {n}\<rparr>"
  have "keeps (svc_rel env issued) ?w" using id by (intro keeps_write_tombstone) simp_all
  then have s2: "svc_inv env issued s2" using svc_inv_rel [OF inv] keepsD w by fastforce
  show ?thesis
  proof (cases v)
    case (Inl e)
    then show ?thesis using w s2 by (simp add: reconcile_commit_def)
  next
    case (Inr y)
    obtain t p where y: "y = (t, p)" by fastforce
    have "remembered issued ?s3 n"
      using write_tombstone_post [OF w [unfolded Inr]] id by (simp add: remembered_def)
    then have s3: "svc_inv env issued ?s3" using s2 svc_inv_unmark by blast
    have "keeps (svc_rel env issued) (abind (retire_marker env n) (\<lambda>_. aret t))"
      unfolding retire_marker_def by (intro keeps_rules svc_keeps)
    then have "svc_rel env issued ?s3 (snd (abind (retire_marker env n) (\<lambda>_. aret t) ?s3))"
      by (simp only: keeps_def)
    then show ?thesis
      using svc_inv_rel [OF s3] w Inr y s2 by (cases p) (simp_all add: reconcile_commit_def assignment_error_def)
  qed
qed

lemma svc_inv_reconcile:
  assumes inv: "svc_inv env issued s"
  shows "svc_inv env issued (snd (reconcile_quarantine env n aid eid sha s))"
proof -
  have h: "honest env issued" using inv by (simp add: svc_inv_def)
  define details where "details = [(''name'', n), (''assignment_id'', aid), (''envelope_id'', eid),
    (''envelope_sha256'', sha)]"
  obtain q s1 where a: "authorize_operator env ''reconcile_quarantine'' details s = (q, s1)" by fastforce
  have s1: "s1 = s" using a by (auto simp: authorize_operator_def assignment_error_def split: option.splits)
  show ?thesis
  proof (cases q)
    case (Inl e)
    then show ?thesis
      using inv a s1 unfolding reconcile_quarantine_def details_def [symmetric]
      by (simp add: assignment_error_def)
  next
    case (Inr u)
    obtain v where "verify_operator env = Some v" "v ''reconcile_quarantine'' details = Inr ()"
      using a Inr by (auto simp: authorize_operator_def assignment_error_def split: option.splits)
    then have id: "aid = n \<and> eid = issued n" using h unfolding honest_def details_def by blast
    have "snd (reconcile_quarantine env n aid eid sha s) \<in> {s, snd (reconcile_commit env n aid eid sha s)}"
      using a Inr s1 unfolding reconcile_quarantine_def details_def [symmetric]
      by (simp add: assignment_error_def)
    then show ?thesis using inv svc_inv_commit [OF inv] id by auto
  qed
qed

lemma snd_abind_unit: "snd (abind m (\<lambda>_. aret ()) s) = snd (m s)"
  by (auto simp: abind_def split: prod.splits sum.splits)

lemma svc_inv_keeps: "svc_inv env issued s \<Longrightarrow> keeps (svc_rel env issued) m \<Longrightarrow> svc_inv env issued (snd (m s))"
  unfolding keeps_def by (blast intro: svc_inv_rel)

lemma svc_inv_call:
  assumes "svc_inv env issued s" and "c \<noteq> ORestart \<longrightarrow> sv_alive s"
  shows "svc_inv env issued (snd (svc_call env c s))"
proof -
  have safe: "safe env issued s" and h: "honest env issued" using assms(1) by (simp_all add: svc_inv_def)
  note via = svc_inv_keeps [OF assms(1)]
  show ?thesis
  proof (cases c)
    case (OStart r)
    then show ?thesis
      using start_rel [OF h safe, of r] svc_inv_rel [OF assms(1)] svc_inv_started [OF assms(1)] assms(2)
      by (auto simp: snd_abind_unit)
  next
    case (OBegin i)
    then show ?thesis using begin_run_rel [OF safe] svc_inv_rel [OF assms(1)] by simp
  next
    case (OFinish i ro)
    then show ?thesis using via [OF keeps_finish_run] by simp
  next
    case (OCancel i reason)
    then show ?thesis using via [OF keeps_cancel] by (simp add: snd_abind_unit)
  next
    case (OTerminalize i status reason)
    then show ?thesis using via [OF keeps_terminalize] by (simp add: snd_abind_unit)
  next
    case (OReconcileQuarantine n aid eid sha)
    then show ?thesis using svc_inv_reconcile [OF assms(1)] by (simp add: snd_abind_unit)
  next
    case ORestart
    then show ?thesis using svc_inv_restart [OF assms(1)] by simp
  qed
qed

lemma svc_inv_dead: "svc_inv env issued s \<Longrightarrow> svc_inv env issued (s\<lparr>sv_alive := False\<rparr>)"
  by (auto simp: svc_inv_def safe_def)

lemma svc_inv_step:
  assumes "svc_inv env issued s"
  shows "svc_inv env issued (snd (svc_step env c s))"
proof (cases "c \<noteq> ORestart \<and> \<not> sv_alive s")
  case True
  then show ?thesis using assms by (simp add: svc_step_def)
next
  case False
  obtain r s1 where c: "svc_call env c s = (r, s1)" by fastforce
  have inv: "svc_inv env issued s1" using svc_inv_call [OF assms, of c] False c by auto
  have "snd (svc_step env c s) \<in> {s1, s1\<lparr>sv_alive := False\<rparr>}"
  proof (cases r)
    case (Inl e)
    then show ?thesis using False c by (cases e) (auto simp: svc_step_def)
  next
    case (Inr u)
    then show ?thesis using False c by (auto simp: svc_step_def)
  qed
  then show ?thesis using inv svc_inv_dead by auto
qed

lemma svc_inv_init: "honest env issued \<Longrightarrow> svc_inv env issued svc_init"
  by (simp add: svc_inv_def svc_init_def safe_def disk_ok_def runs_ok_def dfile_def dir_files_def)

interpretation service: guarded_machine "svc_step env" "svc_inv env issued" for env issued
  by unfold_locales (rule svc_inv_step)

section \<open>An environment that meets the assumptions\<close>

text \<open>A printer that is injective on every countable type, and its inverse on the values in \<open>P\<close>.\<close>

definition mark_text :: "'a::countable \<Rightarrow> string" where
  "mark_text x = replicate (to_nat x) CHR ''x''"

lemma mark_text_inj [simp]: "mark_text x = mark_text y \<longleftrightarrow> x = y"
  by (simp add: mark_text_def replicate_eq_replicate)

definition decode_by :: "('a \<Rightarrow> bool) \<Rightarrow> ('a \<Rightarrow> pydict) \<Rightarrow> string \<Rightarrow> exn + 'a" where
  "decode_by P f raw = (if \<exists>x. P x \<and> mark_text (f x) @ [newline] = raw
     then Inr (SOME x. P x \<and> mark_text (f x) @ [newline] = raw) else Inl (ValidationError ''json''))"

lemma decode_by: "P x \<Longrightarrow> \<exists>y. decode_by P f (mark_text (f x) @ [newline]) = Inr y \<and> P y \<and> f y = f x"
  unfolding decode_by_def by (auto intro: someI2)

definition demo_codec :: codec where
  "demo_codec = \<lparr>canonical = mark_text, sha256 = (\<lambda>_. replicate 64 CHR ''0''), iso = mark_text, parse_request = (\<lambda>_. Inl (ValidationError [])),
     parse_event = (\<lambda>_. Inl (ValidationError [])), parse_receipt = (\<lambda>_. Inl (ValidationError [])),
     parse_tombstone = (\<lambda>_. Inl (ValidationError []))\<rparr>"

definition demo_issued :: "string \<Rightarrow> string" where "demo_issued i = ''env-'' @ i"

definition demo_env :: svc_env where
  "demo_env = codec.extend
     (demo_codec\<lparr>parse_request := decode_by (\<lambda>r. validate_request r = Inr r) (request_dict demo_codec),
        parse_receipt := decode_by (\<lambda>_. True) (receipt_dict demo_codec),
        parse_tombstone := decode_by (\<lambda>_. True) (tombstone_dict demo_codec)\<rparr>)
     \<lparr>faults = (\<lambda>k name. if name = ''events.jsonl'' \<and> even k then IoCrash 3 else IoOk),
      clock = int, utc_now = int,
      runner_factory = (\<lambda>r. Inr \<lparr>rn_backend = rq_backend r, rn_stop_handle = True\<rparr>),
      isolation_factory = (\<lambda>_. Inr \<lparr>is_primitive = ''microvm'', is_network = ''none'', is_read_only = True\<rparr>),
      verify_dispatcher = (\<lambda>r. if rq_envelope_id r = demo_issued (rq_assignment_id r) then Inr ()
         else Inl (AssignmentError ''envelope'')),
      verify_operator = Some (\<lambda>_ ds. if map_of ds ''assignment_id'' = map_of ds ''name''
           \<and> map_of ds ''envelope_id'' = map_option demo_issued (map_of ds ''name'') then Inr ()
         else Inl (AssignmentError ''operator'')),
      artifact_factories = False, stop_vm = (\<lambda>_ _. Inr ())\<rparr>"

definition demo_request :: request where
  "demo_request = \<lparr>rq_assignment_id = ''a1'', rq_envelope_id = ''env-a1'', rq_repository = ''r'',
     rq_branch = ''agent/x'', rq_base_sha = replicate 40 CHR ''0'', rq_allowed_paths = [''src''],
     rq_capabilities = [], rq_stopping_point = ''end'', rq_expires_at = 1000, rq_expires_tz = True,
     rq_backend = ''microvm'', rq_image = ''sha256:0'',
     rq_journey = \<lparr>pj_prompt = ''p'', pj_role = ''dev'', pj_model = ''m'', pj_max_steps = 1,
       pj_autonomy = ''autonomous''\<rparr>,
     rq_artifact_store_id = None, rq_egress_scanner_id = None,
     rq_envelope_sha256 = replicate 64 CHR ''0''\<rparr>"

lemma demo_dicts [simp]:
  "request_dict demo_env = request_dict demo_codec" "receipt_dict demo_env = receipt_dict demo_codec"
  "tombstone_dict demo_env = tombstone_dict demo_codec"
  by (simp_all add: fun_eq_iff request_dict_def request_payload_def receipt_dict_def as_receipt_payload_def
      tombstone_dict_def demo_env_def demo_codec_def codec.defs)

lemma request_dict_inj:
  assumes "request_dict demo_codec r = request_dict demo_codec q" and "rq_expires_tz r = rq_expires_tz q"
  shows "r = q"
  using assms
  by (cases r; cases q)
    (auto simp: request_dict_def request_payload_def journey_dict_def demo_codec_def opt_text_def
      inj_map_eq_map inj_def split: option.splits intro!: pi_journey.equality)

lemma tombstone_dict_inj: "tombstone_dict demo_codec t = tombstone_dict demo_codec u \<Longrightarrow> t = u"
  by (cases t; cases u) (auto simp: tombstone_dict_def demo_codec_def)

lemma validated_tz: "validate_request r = Inr r \<Longrightarrow> rq_expires_tz r"
  by (simp add: validate_request_def immutable_and_live_def require_def split: if_splits)

lemma demo_parse:
  "json_line demo_env d = mark_text d @ [newline]"
  "parse_request demo_env = decode_by (\<lambda>r. validate_request r = Inr r) (request_dict demo_codec)"
  "parse_receipt demo_env = decode_by (\<lambda>_. True) (receipt_dict demo_codec)"
  "parse_tombstone demo_env = decode_by (\<lambda>_. True) (tombstone_dict demo_codec)"
  by (simp_all add: json_line_def demo_env_def demo_codec_def codec.defs)

lemma demo_honest: "honest demo_env demo_issued"
  unfolding honest_def demo_dicts demo_parse
proof (intro conjI allI impI, goal_cases)
  case (1 r)
  then show ?case by (simp add: demo_env_def codec.defs split: if_splits)
next
  case (2 v n aid eid sha)
  then show ?case by (auto simp: demo_env_def codec.defs split: if_splits)
next
  case (3 v n aid eid sha)
  then show ?case by (auto simp: demo_env_def codec.defs split: if_splits)
next
  case (4 r)
  obtain q where "decode_by (\<lambda>r. validate_request r = Inr r) (request_dict demo_codec)
      (mark_text (request_dict demo_codec r) @ [newline]) = Inr q"
    "validate_request q = Inr q" "request_dict demo_codec q = request_dict demo_codec r"
    using decode_by [of "\<lambda>r. validate_request r = Inr r" r "request_dict demo_codec"] 4 by blast
  then show ?case using request_dict_inj [of q r] validated_tz 4 by simp
next
  case (5 rc)
  obtain q where "decode_by (\<lambda>_. True) (receipt_dict demo_codec) (mark_text (receipt_dict demo_codec rc) @ [newline]) = Inr q"
    "receipt_dict demo_codec q = receipt_dict demo_codec rc"
    using decode_by [of "\<lambda>_. True" rc "receipt_dict demo_codec"] by blast
  then show ?case by (auto simp: receipt_dict_def as_receipt_payload_def)
next
  case (6 t)
  obtain q where "decode_by (\<lambda>_. True) (tombstone_dict demo_codec) (mark_text (tombstone_dict demo_codec t) @ [newline]) = Inr q"
    "tombstone_dict demo_codec q = tombstone_dict demo_codec t"
    using decode_by [of "\<lambda>_. True" t "tombstone_dict demo_codec"] by blast
  then show ?case using tombstone_dict_inj [of q t] by simp
next
  case (7 k j)
  then show ?case by (simp add: demo_env_def codec.defs)
qed

section \<open>Theorems\<close>





end
