(* ===== verification/Recovery_Gap.thy ===== *)
theory Recovery_Gap
  imports Service
begin

text \<open>
  A gap in the recovery of the assignment service. When the record \<open>quarantine.json\<close> of a
  quarantined run directory cannot be written, \<open>_quarantine\<close> returns before it writes a
  tombstone or marks the root ambiguous, although the directory has already been moved: the
  assignment id is forgotten. Only the envelope is still found, by the scan over the
  directories.
\<close>

definition gap_request :: request where
  "gap_request = \<lparr>rq_assignment_id = ''a1'', rq_envelope_id = ''e1'', rq_repository = ''r'',
     rq_branch = ''agent/x'', rq_base_sha = replicate 40 CHR ''0'', rq_allowed_paths = [''src''],
     rq_capabilities = [], rq_stopping_point = ''done'', rq_expires_at = 1000, rq_expires_tz = True,
     rq_backend = ''microvm'', rq_image = ''sha256:0'',
     rq_journey = \<lparr>pj_prompt = ''p'', pj_role = ''dev'', pj_model = ''m'', pj_max_steps = 1,
       pj_autonomy = ''autonomous''\<rparr>,
     rq_artifact_store_id = None, rq_egress_scanner_id = None,
     rq_envelope_sha256 = replicate 64 CHR ''0''\<rparr>"

definition gap_env :: svc_env where
  "gap_env = \<lparr>canonical = (\<lambda>d. case map_of d ''event'' of Some (PStr e) \<Rightarrow> e | _ \<Rightarrow> ''json''),
     sha256 = (\<lambda>_. replicate 64 CHR ''0''), iso = (\<lambda>_. ''t''),
     parse_request = (\<lambda>_. Inr gap_request),
     parse_event = (\<lambda>s. if s = ''admitted'' then Inr \<lparr>ae_assignment_id = ''a1'', ae_run_id = ''a1'',
        ae_sequence = 0, ae_event = ''admitted'', ae_at = 0, ae_details = []\<rparr>
        else Inl (ValidationError ''json'')),
     parse_receipt = (\<lambda>_. Inl (ValidationError ''json'')), parse_tombstone = (\<lambda>_. Inl (ValidationError ''json'')),
     faults = (\<lambda>k name. if name = ''quarantine.json'' \<or> name = ''events.jsonl'' \<and> k = 17 then IoError 3 else IoOk),
     clock = (\<lambda>_. 0), utc_now = (\<lambda>_. 0),
     runner_factory = (\<lambda>r. Inr \<lparr>rn_backend = rq_backend r, rn_stop_handle = True\<rparr>),
     isolation_factory = (\<lambda>_. Inr \<lparr>is_primitive = ''microvm'', is_network = ''none'', is_read_only = True\<rparr>),
     verify_dispatcher = (\<lambda>_. Inr ()), verify_operator = None, artifact_factories = False,
     stop_vm = (\<lambda>_ _. Inr ())\<rparr>"


end
