(* ===== verification/Command.thy ===== *)
theory Command
  imports Service
begin

text \<open>
  The newline-framed command boundary of the assignment service:
  \<open>src/testudo/runtime/assignment_protocol.py\<close>.

  \<open>hmac_hex\<close> is HMAC-SHA256 in hexadecimal, \<open>json_loads\<close> the JSON parser, and
  \<open>assignment_of\<close> the coercion of the \<open>assignment\<close> object of a start command to the typed
  request that \<open>AssignmentService.start\<close> validates; the three are parameters. The bytes of a
  fresh secret are an argument of \<open>provision_session_secret\<close>. The state of a served session is
  the registry of active generations, the current verifier with its history, and the service
  behind it;
  \<open>cs_accepted\<close> records the accepted nonces in order.
\<close>

record cmd_env =
  hmac_hex :: "string \<Rightarrow> string \<Rightarrow> string"
  json_loads :: "string \<Rightarrow> exn + pyval"
  assignment_of :: "pydict \<Rightarrow> exn + request"
  service_env :: svc_env

record session_secret =
  se_session_id :: string
  se_secret :: string
  se_provisioning :: string

record cmd_state =
  cs_active :: "(string \<times> string) list"
  cs_verifier :: "session_secret option"
  cs_seen :: "int set"
  cs_high :: "int option"
  cs_accepted :: "int list"
  cs_svc :: svc

definition protocol_schema :: string where "protocol_schema = ''testudo.assignment.protocol.v1''"
definition max_message_bytes :: int where "max_message_bytes = 128 * 1024"
definition max_session_commands :: int where "max_session_commands = 1024"

definition refuse :: "string \<Rightarrow> (cmd_state, 'a) act" where
  "refuse m = araise (AssignmentError m)"

section \<open>Session secrets\<close>

text \<open>\<open>^[A-Za-z0-9][A-Za-z0-9._-]{0,127}$\<close>\<close>

fun valid_session_id :: "string \<Rightarrow> bool" where
  "valid_session_id [] = False"
| "valid_session_id (c # cs) \<longleftrightarrow> ascii_alnum c \<and> int (length cs) \<le> 127
     \<and> list_all (\<lambda>x. ascii_alnum x \<or> x = dot \<or> x = CHR ''_'' \<or> x = CHR ''-'') cs"

definition session_binding :: "cmd_env \<Rightarrow> string \<Rightarrow> string \<Rightarrow> string" where
  "session_binding env secret sid = hmac_hex env secret (''session:'' @ sid)"

definition provision_session_secret :: "cmd_env \<Rightarrow> string \<Rightarrow> string \<Rightarrow> (cmd_state, session_secret) act" where
  "provision_session_secret env token_bytes sid =
     (if \<not> valid_session_id sid then
        refuse ''session id must be 1-128 safe identifier characters''
      else let binding = session_binding env token_bytes sid in
        abind (aset (\<lambda>s. s\<lparr>cs_active := AList.update sid binding (cs_active s)\<rparr>)) (\<lambda>_.
          aret \<lparr>se_session_id = sid, se_secret = token_bytes, se_provisioning = binding\<rparr>))"

definition revoke_session_secret :: "string \<Rightarrow> (cmd_state, unit) act" where
  "revoke_session_secret sid =
     (if \<not> valid_session_id sid then
        refuse ''session id must be 1-128 safe identifier characters''
      else aset (\<lambda>s. s\<lparr>cs_active := AList.delete sid (cs_active s)\<rparr>))"

definition credential_message :: "string \<Rightarrow> string \<Rightarrow> string \<Rightarrow> string" where
  "credential_message nonce request_id sid =
     (if sid = [] then nonce @ '':'' @ request_id else sid @ '':'' @ nonce @ '':'' @ request_id)"

definition command_credential :: "cmd_env \<Rightarrow> string \<Rightarrow> string \<Rightarrow> string \<Rightarrow> string \<Rightarrow> exn + string" where
  "command_credential env secret nonce request_id sid =
     (if int (length secret) < 32 then
        Inl (AssignmentError ''command credential secret must be at least 32 bytes'')
      else if \<not> len_between 1 128 nonce then
        Inl (AssignmentError ''command credential nonce is required'')
      else if \<not> len_between 1 128 request_id then
        Inl (AssignmentError ''command credential request_id is required'')
      else if 128 < int (length sid) then
        Inl (AssignmentError ''command credential session_id is invalid'')
      else Inr (hmac_hex env secret (credential_message nonce request_id sid)))"

section \<open>The verifier\<close>

text \<open>\<open>CommandSessionVerifier.__init__\<close>: a fresh history for an active generation.\<close>

definition verifier_init :: "cmd_env \<Rightarrow> session_secret \<Rightarrow> (cmd_state, unit) act" where
  "verifier_init env v =
     (if int (length (se_secret v)) < 32 then
        refuse ''command credential secret must be at least 32 bytes''
      else if se_provisioning v \<noteq> session_binding env (se_secret v) (se_session_id v) then
        refuse ''session secret provisioning digest does not match''
      else awith (\<lambda>s.
        if map_of (cs_active s) (se_session_id v) \<noteq> Some (se_provisioning v) then
          refuse ''session secret generation is not active''
        else aset (\<lambda>s. s\<lparr>cs_verifier := Some v, cs_seen := {}, cs_high := None, cs_accepted := []\<rparr>)))"

text \<open>\<open>nonce.isascii() and nonce.isdecimal()\<close> without redundant zeros, and \<open>int(nonce)\<close>.\<close>

definition canonical_nonce :: "string \<Rightarrow> bool" where
  "canonical_nonce n \<longleftrightarrow> n \<noteq> [] \<and> list_all ascii_digit n \<and> \<not> (1 < length n \<and> hd n = CHR ''0'')"

definition str_field :: "pydict \<Rightarrow> string \<Rightarrow> string \<Rightarrow> (cmd_state, string) act" where
  "str_field d name msg = (case dict_get d name of
     PStr s \<Rightarrow> if len_between 1 128 s then aret s else refuse msg | _ \<Rightarrow> refuse msg)"

definition ascii_only :: "string \<Rightarrow> bool" where
  "ascii_only s = list_all (\<lambda>c. (of_char c :: nat) < 128) s"

text \<open>\<open>hmac.compare_digest\<close> of two strings raises on non-ASCII characters.\<close>

definition compare_digest :: "string \<Rightarrow> string \<Rightarrow> exn + bool" where
  "compare_digest a b = (if ascii_only a \<and> ascii_only b then Inr (a = b)
     else Inl (TypeError ''comparing strings with non-ASCII characters is not supported''))"

definition admit_nonce :: "session_secret \<Rightarrow> string \<Rightarrow> (cmd_state, unit) act" where
  "admit_nonce v nonce = awith (\<lambda>s.
     if map_of (cs_active s) (se_session_id v) \<noteq> Some (se_provisioning v) then
       refuse ''assignment session secret is revoked or rotated''
     else if \<not> canonical_nonce nonce then
       refuse ''assignment command nonce must be a canonical base-ten integer''
     else let sequence = int_of_str nonce in
       if sequence \<in> cs_seen s then refuse ''assignment command nonce was already used''
       else if max_session_commands \<le> int (card (cs_seen s)) then
         refuse (''assignment session command budget is exhausted; ''
           @ ''terminate and rotate the session before continuing'')
       else if (case cs_high s of None \<Rightarrow> False | Some h \<Rightarrow> sequence \<le> h) then
         refuse ''assignment command nonce must be strictly monotonic within the session''
       else aset (\<lambda>s. s\<lparr>cs_seen := insert sequence (cs_seen s), cs_high := Some sequence,
              cs_accepted := cs_accepted s @ [sequence]\<rparr>))"

definition verify_command :: "cmd_env \<Rightarrow> session_secret \<Rightarrow> pydict \<Rightarrow> (cmd_state, unit) act" where
  "verify_command env v d =
     abind (str_field d ''nonce'' ''assignment command nonce is required'') (\<lambda>nonce.
     abind (str_field d ''request_id'' ''assignment command request_id is required'') (\<lambda>rid.
     case dict_get d ''credential'' of
       PStr credential \<Rightarrow>
         if credential = [] then refuse ''assignment command credential is required''
         else
           abind (alift (command_credential env (se_secret v) nonce rid (se_session_id v))) (\<lambda>expected.
           abind (alift (compare_digest credential expected)) (\<lambda>ok.
           if \<not> ok then refuse ''assignment command credential verification failed''
           else admit_nonce v nonce))
     | _ \<Rightarrow> refuse ''assignment command credential is required''))"

definition handshake :: "session_secret \<Rightarrow> pydict" where
  "handshake v = [(''schema'', PStr ''testudo.assignment.session.v1''),
     (''session_id'', PStr (se_session_id v)), (''provisioning_sha256'', PStr (se_provisioning v))]"

definition commands_remaining :: "cmd_state \<Rightarrow> int" where
  "commands_remaining s = max 0 (max_session_commands - int (card (cs_seen s)))"

section \<open>Commands\<close>

record command =
  cm_schema :: string
  cm_request_id :: string
  cm_operation :: string
  cm_assignment_id :: "string option"
  cm_envelope_id :: "string option"
  cm_reason :: "string option"
  cm_status :: "string option"
  cm_assignment :: "pydict option"

definition command_keys :: "string list" where
  "command_keys = [''request_id'', ''operation'', ''nonce'', ''credential'', ''assignment_id'',
     ''envelope_id'', ''reason'', ''status'', ''assignment'']"

definition req_str :: "pydict \<Rightarrow> string \<Rightarrow> (string \<Rightarrow> bool) \<Rightarrow> exn + string" where
  "req_str d name ok = (case map_of d name of
     Some (PStr s) \<Rightarrow> if ok s then Inr s else Inl (ValidationError name)
   | _ \<Rightarrow> Inl (ValidationError name))"

definition opt_field :: "pydict \<Rightarrow> string \<Rightarrow> (string \<Rightarrow> bool) \<Rightarrow> exn + string option" where
  "opt_field d name ok = (case dict_get d name of
     PNone \<Rightarrow> Inr None
   | PStr s \<Rightarrow> if ok s then Inr (Some s) else Inl (ValidationError name)
   | _ \<Rightarrow> Inl (ValidationError name))"

text \<open>
  \<open>AssignmentCommand.model_validate\<close>: the field \<open>schema_\<close> is read by its alias \<open>schema\<close> or by
  its own name, and no other key is accepted.
\<close>

definition command_schema :: "pydict \<Rightarrow> exn + string" where
  "command_schema d = (case (map_of d ''schema'', map_of d ''schema_'') of
     (None, None) \<Rightarrow> Inr protocol_schema
   | (Some (PStr s), None) \<Rightarrow> Inr s
   | (None, Some (PStr s)) \<Rightarrow> Inr s
   | _ \<Rightarrow> Inl (ValidationError ''schema''))"

definition validate_command :: "pydict \<Rightarrow> exn + command" where
  "validate_command d =
     (if \<not> list_all (\<lambda>(k, v). k = ''schema'' \<or> k = ''schema_'' \<or> k \<in> set command_keys) d then
        Inl (ValidationError ''extra fields are not permitted'')
      else
        rbind (command_schema d) (\<lambda>sch.
        rbind (req_str d ''request_id'' (len_between 1 128)) (\<lambda>rid.
        rbind (req_str d ''operation'' (\<lambda>_. True)) (\<lambda>operation.
        rbind (req_str d ''nonce'' (len_between 1 128)) (\<lambda>_.
        rbind (req_str d ''credential'' (len_between 1 128)) (\<lambda>_.
        rbind (opt_field d ''assignment_id'' (\<lambda>_. True)) (\<lambda>aid.
        rbind (opt_field d ''envelope_id'' (\<lambda>_. True)) (\<lambda>eid.
        rbind (opt_field d ''reason'' (\<lambda>_. True)) (\<lambda>reason.
        rbind (opt_field d ''status'' (\<lambda>s. s \<in> {''failed'', ''cancelled''})) (\<lambda>status.
        rbind (case dict_get d ''assignment'' of PNone \<Rightarrow> Inr None | PDict a \<Rightarrow> Inr (Some a)
               | _ \<Rightarrow> Inl (ValidationError ''assignment'')) (\<lambda>assignment.
          Inr \<lparr>cm_schema = sch, cm_request_id = rid, cm_operation = operation, cm_assignment_id = aid,
               cm_envelope_id = eid, cm_reason = reason, cm_status = status,
               cm_assignment = assignment\<rparr>)))))))))))"

text \<open>\<open>not value\<close> of an optional string.\<close>

definition missing :: "string option \<Rightarrow> bool" where
  "missing v \<longleftrightarrow> v = None \<or> v = Some []"

definition require_only :: "command \<Rightarrow> string \<Rightarrow> (cmd_state, string) act" where
  "require_only c field =
     (let named = (if field = ''assignment_id'' then cm_assignment_id c else cm_envelope_id c);
          other = (if field = ''assignment_id'' then cm_envelope_id c else cm_assignment_id c) in
      if missing named \<or> other \<noteq> None \<or> cm_reason c \<noteq> None \<or> cm_status c \<noteq> None \<or> cm_assignment c \<noteq> None
      then refuse (cm_operation c @ '' requires only '' @ field)
      else aret (the named))"

text \<open>A call on the service behind the session.\<close>

definition on_svc :: "(svc, 'a) act \<Rightarrow> (cmd_state, 'a) act" where
  "on_svc m s = (case m (cs_svc s) of (r, v) \<Rightarrow> (r, s\<lparr>cs_svc := v\<rparr>))"

definition op_start :: "cmd_env \<Rightarrow> command \<Rightarrow> (cmd_state, pyval) act" where
  "op_start env c = (case cm_assignment c of
     None \<Rightarrow> refuse ''start requires only assignment''
   | Some a \<Rightarrow>
       if cm_assignment_id c \<noteq> None \<or> cm_envelope_id c \<noteq> None \<or> cm_reason c \<noteq> None \<or> cm_status c \<noteq> None
       then refuse ''start requires only assignment''
       else abind (alift (assignment_of env a)) (\<lambda>r.
            abind (on_svc (start (service_env env) r)) (\<lambda>e.
              aret (PDict (event_dict (service_env env) e)))))"

definition op_observe :: "cmd_env \<Rightarrow> command \<Rightarrow> (cmd_state, pyval) act" where
  "op_observe env c =
     abind (require_only c ''assignment_id'') (\<lambda>i.
     abind (on_svc (observe i)) (\<lambda>es.
       aret (PList (map (\<lambda>e. PDict (event_dict (service_env env) e)) es))))"

definition op_cancel :: "cmd_env \<Rightarrow> command \<Rightarrow> (cmd_state, pyval) act" where
  "op_cancel env c =
     (if missing (cm_assignment_id c) \<or> missing (cm_reason c) then
        refuse ''cancel requires assignment_id and reason''
      else if cm_assignment c \<noteq> None \<or> cm_envelope_id c \<noteq> None then
        refuse ''cancel contains unsupported fields''
      else abind (on_svc (cancel (service_env env) (the (cm_assignment_id c)) (the (cm_reason c)))) (\<lambda>e.
        aret (PDict (event_dict (service_env env) e))))"

definition op_receipt :: "cmd_env \<Rightarrow> command \<Rightarrow> (cmd_state, pyval) act" where
  "op_receipt env c =
     abind (require_only c ''assignment_id'') (\<lambda>i.
     abind (on_svc (receipt_of i)) (\<lambda>r.
       aret (case r of None \<Rightarrow> PNone | Some rc \<Rightarrow> PDict (receipt_dict (service_env env) rc))))"

definition op_terminalize :: "cmd_env \<Rightarrow> command \<Rightarrow> (cmd_state, pyval) act" where
  "op_terminalize env c =
     (if cm_envelope_id c \<noteq> None \<or> cm_assignment c \<noteq> None then
        refuse ''terminalize contains unsupported fields''
      else if missing (cm_assignment_id c) then refuse ''terminalize requires assignment_id''
      else if missing (cm_reason c) then refuse ''terminalize requires reason''
      else (case cm_status c of
        None \<Rightarrow> refuse ''terminalize requires status''
      | Some status \<Rightarrow>
          abind (on_svc (terminalize (service_env env) (the (cm_assignment_id c)) status
                   (the (cm_reason c)))) (\<lambda>rc.
            aret (PDict (receipt_dict (service_env env) rc)))))"

definition op_reconcile :: "cmd_env \<Rightarrow> command \<Rightarrow> (cmd_state, pyval) act" where
  "op_reconcile env c =
     abind (require_only c ''envelope_id'') (\<lambda>i.
     abind (on_svc (reconcile i)) (\<lambda>d. aret (PDict d)))"

definition dispatch :: "cmd_env \<Rightarrow> command \<Rightarrow> (cmd_state, pyval) act" where
  "dispatch env c = (let operation = cm_operation c in
     if operation = ''start'' then op_start env c
     else if operation = ''observe'' then op_observe env c
     else if operation = ''cancel'' then op_cancel env c
     else if operation = ''receipt'' then op_receipt env c
     else if operation = ''terminalize'' then op_terminalize env c
     else if operation = ''reconcile'' then op_reconcile env c
     else refuse ''unsupported assignment operation'')"

definition handle_command :: "cmd_env \<Rightarrow> session_secret option \<Rightarrow> pydict \<Rightarrow> (cmd_state, pydict) act" where
  "handle_command env verifier d = (case verifier of
     None \<Rightarrow> refuse ''assignment command credential verifier is required''
   | Some v \<Rightarrow>
       abind (verify_command env v d) (\<lambda>_.
       abind (alift (validate_command d)) (\<lambda>c.
       if cm_schema c \<noteq> protocol_schema then refuse ''unsupported assignment protocol schema''
       else abind (dispatch env c) (\<lambda>result.
         aret [(''schema'', PStr protocol_schema), (''request_id'', PStr (cm_request_id c)),
               (''ok'', PBool True), (''result'', result)]))))"

section \<open>The framed session\<close>

definition error_response :: "string option \<Rightarrow> string \<Rightarrow> pydict" where
  "error_response rid err = [(''schema'', PStr protocol_schema), (''request_id'', opt_text rid),
     (''ok'', PBool False), (''error'', PStr (take 4096 err))]"

text \<open>The identifier a response to an object carries: its \<open>request_id\<close>, if a non-empty string.\<close>

definition frame_request_id :: "pydict \<Rightarrow> string option" where
  "frame_request_id d = (case dict_get d ''request_id'' of
     PStr s \<Rightarrow> if s = [] then None else Some s | _ \<Rightarrow> None)"

definition answer_error :: "string option \<Rightarrow> exn \<Rightarrow> (cmd_state, pydict) act" where
  "answer_error rid e = aret (error_response rid (error_text e))"

definition serve_line :: "cmd_env \<Rightarrow> session_secret option \<Rightarrow> string \<Rightarrow> (cmd_state, pydict) act" where
  "serve_line env verifier line =
     (if max_message_bytes < utf8_len line then
        aret (error_response None ''assignment message exceeds the transport limit'')
      else (case json_loads env line of
        Inl e \<Rightarrow> answer_error None e
      | Inr (PDict d) \<Rightarrow>
          let rid = frame_request_id d in
          acatch (\<lambda>e. e \<noteq> ProcessDied)
            (if verifier = None then refuse ''assignment session requires a command credential verifier''
             else handle_command env verifier d)
            (answer_error rid)
      | Inr _ \<Rightarrow> answer_error None (AssignmentError ''assignment command must be a JSON object'')))"

text \<open>The responses written, in order.\<close>

fun serve_framed :: "cmd_env \<Rightarrow> session_secret option \<Rightarrow> string list \<Rightarrow> (cmd_state, pydict list) act" where
  "serve_framed env verifier [] = aret []"
| "serve_framed env verifier (line # lines) =
     abind (serve_line env verifier line) (\<lambda>response.
     abind (serve_framed env verifier lines) (\<lambda>responses. aret (response # responses)))"

section \<open>The boundary as a machine\<close>

text \<open>
  What can happen at the boundary: the dispatcher provisions and revokes secrets, a verifier is
  built for a session, a frame arrives on it, and the service is driven by its own threads, its
  operators and restarts of the process. A restart loses the registry and the verifier, which
  live in the process.
\<close>

datatype boundary_op =
    BProvision string string
  | BRevoke string
  | BOpen session_secret
  | BFrame string
  | BService svc_op

definition forget_session :: "cmd_state \<Rightarrow> cmd_state" where
  "forget_session s = s\<lparr>cs_active := [], cs_verifier := None, cs_seen := {}, cs_high := None, cs_accepted := []\<rparr>"

definition frame_step :: "cmd_env \<Rightarrow> string \<Rightarrow> cmd_state \<Rightarrow> (exn + pydict) \<times> cmd_state" where
  "frame_step env line s =
     (if \<not> sv_alive (cs_svc s) then (Inl ProcessDied, s)
      else case serve_line env (cs_verifier s) line s of
        (Inl e, s') \<Rightarrow> (Inl e, s'\<lparr>cs_svc := (cs_svc s')\<lparr>sv_alive := False\<rparr>\<rparr>)
      | r \<Rightarrow> r)"

fun boundary_step :: "cmd_env \<Rightarrow> boundary_op \<Rightarrow> cmd_state \<Rightarrow> (exn + pydict) \<times> cmd_state" where
  "boundary_step env (BProvision secret sid) s =
     abind (provision_session_secret env secret sid) (\<lambda>_. aret []) s"
| "boundary_step env (BRevoke sid) s = abind (revoke_session_secret sid) (\<lambda>_. aret []) s"
| "boundary_step env (BOpen v) s = abind (verifier_init env v) (\<lambda>_. aret []) s"
| "boundary_step env (BFrame line) s = frame_step env line s"
| "boundary_step env (BService c) s =
     (case svc_step (service_env env) c (cs_svc s) of (r, v) \<Rightarrow>
        (map_sum id (\<lambda>_. []) r, (if c = ORestart then forget_session s else s)\<lparr>cs_svc := v\<rparr>))"

definition boundary_init :: cmd_state where
  "boundary_init = \<lparr>cs_active = [], cs_verifier = None, cs_seen = {}, cs_high = None, cs_accepted = [],
     cs_svc = svc_init\<rparr>"

section \<open>Histories\<close>

text \<open>
  The history of a verifier: the accepted nonces are strictly increasing, are the set of seen
  ones, end in the high-water mark and stay within the budget.
\<close>

definition history_ok :: "cmd_state \<Rightarrow> bool" where
  "history_ok s \<longleftrightarrow> cs_seen s = set (cs_accepted s) \<and> sorted_wrt (<) (cs_accepted s)
     \<and> cs_high s = (if cs_accepted s = [] then None else Some (last (cs_accepted s)))
     \<and> int (length (cs_accepted s)) \<le> max_session_commands"

lemma sorted_wrt_snoc_last:
  "sorted_wrt (<) xs \<Longrightarrow> (xs \<noteq> [] \<Longrightarrow> last xs < x) \<Longrightarrow> sorted_wrt (<) (xs @ [x :: int])"
proof -
  assume s: "sorted_wrt (<) xs" and l: "xs \<noteq> [] \<Longrightarrow> last xs < x"
  have "y < x" if y: "y \<in> set xs" for y
  proof -
    have ne: "xs \<noteq> []" using y by auto
    have "y \<le> last xs"
      using s y ne by (induction xs) (auto split: if_splits simp: less_imp_le)
    then show ?thesis using l [OF ne] by simp
  qed
  then show ?thesis using s by (simp add: sorted_wrt_append)
qed

lemma sorted_card: "sorted_wrt (<) (xs :: int list) \<Longrightarrow> card (set xs) = length xs"
  using distinct_card strict_sorted_iff by blast

lemma history_admit:
  assumes "history_ok s" and "admit_nonce v nonce s = (r, s')"
  shows "history_ok s' \<and> (s' = s \<or> s' = s\<lparr>cs_seen := insert (int_of_str nonce) (cs_seen s),
      cs_high := Some (int_of_str nonce), cs_accepted := cs_accepted s @ [int_of_str nonce]\<rparr>)"
proof (cases "s' = s")
  case False
  have new: "s' = s\<lparr>cs_seen := insert (int_of_str nonce) (cs_seen s),
      cs_high := Some (int_of_str nonce), cs_accepted := cs_accepted s @ [int_of_str nonce]\<rparr>"
    and budget: "int (card (cs_seen s)) < max_session_commands"
    and high: "\<not> (case cs_high s of None \<Rightarrow> False | Some h \<Rightarrow> int_of_str nonce \<le> h)"
    using assms(2) False by (auto simp: admit_nonce_def refuse_def Let_def split: if_splits)
  have "sorted_wrt (<) (cs_accepted s @ [int_of_str nonce])"
    by (rule sorted_wrt_snoc_last) (use assms(1) high in \<open>auto simp: history_ok_def split: if_splits\<close>)
  moreover have "int (length (cs_accepted s)) < max_session_commands"
    using budget assms(1) sorted_card by (simp add: history_ok_def)
  ultimately show ?thesis using assms(1) new by (simp add: history_ok_def)
qed (use assms(1) in simp)

definition history_rel :: "cmd_state \<Rightarrow> cmd_state \<Rightarrow> bool" where
  "history_rel s s' \<longleftrightarrow> (history_ok s \<longrightarrow> history_ok s')"

definition same_svc :: "cmd_state \<Rightarrow> cmd_state \<Rightarrow> bool" where
  "same_svc s s' \<longleftrightarrow> cs_svc s' = cs_svc s"

lemma cmd_preorders: "reflp history_rel" "transp history_rel" "reflp same_svc" "transp same_svc"
  by (auto simp: history_rel_def same_svc_def intro!: reflpI transpI)

lemma keeps_refuse: "reflp R \<Longrightarrow> keeps R (refuse m)"
  unfolding refuse_def by (rule keeps_araise)

lemma keeps_str_field: "reflp R \<Longrightarrow> keeps R (str_field d name msg)"
  unfolding str_field_def by (auto split: pyval.split intro!: keeps_refuse keeps_aret keeps_if)

lemma keeps_admit_nonce: "keeps history_rel (admit_nonce v nonce)" "keeps same_svc (admit_nonce v nonce)"
proof -
  show "keeps history_rel (admit_nonce v nonce)"
    unfolding keeps_def history_rel_def using history_admit by (metis prod.collapse)
  show "keeps same_svc (admit_nonce v nonce)"
    unfolding admit_nonce_def Let_def
    by (intro keeps_rules keeps_refuse cmd_preorders) (simp add: same_svc_def)
qed

lemma keeps_verify:
  assumes "reflp R" and "transp R" and "\<And>nonce. keeps R (admit_nonce v nonce)"
  shows "keeps R (verify_command env v d)"
  unfolding verify_command_def
  by (intro keeps_abind keeps_str_field assms)
    (auto split: pyval.split intro!: keeps_if keeps_refuse keeps_abind keeps_alift assms)

lemma keeps_history_svc: "keeps history_rel (on_svc m)"
  by (auto simp: keeps_def history_rel_def history_ok_def on_svc_def split: prod.splits)

lemma keeps_history_dispatch: "keeps history_rel (dispatch env c)"
  unfolding dispatch_def Let_def op_start_def op_observe_def op_cancel_def op_receipt_def op_terminalize_def
    op_reconcile_def require_only_def
  by (intro keeps_rules keeps_refuse keeps_history_svc cmd_preorders)

lemma keeps_history_serve: "keeps history_rel (serve_line env verifier line)"
  unfolding serve_line_def handle_command_def answer_error_def Let_def
  by (auto split: sum.split pyval.split option.split
      intro!: keeps_rules keeps_refuse cmd_preorders keeps_verify keeps_admit_nonce keeps_history_dispatch)

lemma history_step:
  assumes "history_ok s"
  shows "history_ok (snd (boundary_step env c s))"
proof (cases c)
  case (BFrame line)
  obtain r s' where r: "serve_line env (cs_verifier s) line s = (r, s')" by fastforce
  have "history_ok s'" using keepsD [OF keeps_history_serve r] assms by (simp add: history_rel_def)
  then show ?thesis
    using BFrame r assms by (cases r) (auto simp: frame_step_def history_ok_def)
next
  case (BService o')
  then show ?thesis
    using assms by (auto simp: history_ok_def forget_session_def max_session_commands_def split: prod.splits)
qed (use assms in \<open>auto simp: history_ok_def provision_session_secret_def revoke_session_secret_def
    verifier_init_def refuse_def max_session_commands_def abind_def Let_def split: if_splits\<close>)

interpretation nonces: guarded_machine "boundary_step env" history_ok for env
  by unfold_locales (rule history_step)

text \<open>
  C7: Within a framed session every accepted nonce is greater than all accepted before it, so
  none is accepted twice, and at most 1024 commands are accepted, whatever frames, secrets,
  revocations and restarts come in between.
\<close>

theorem accepted_nonces_increase:
  "sorted_wrt (<) (cs_accepted (snd (run_ops (boundary_step env) calls boundary_init)))
     \<and> int (length (cs_accepted (snd (run_ops (boundary_step env) calls boundary_init)))) \<le> 1024"
proof -
  have "history_ok boundary_init"
    by (simp add: history_ok_def boundary_init_def max_session_commands_def)
  then show ?thesis using nonces.run_inv [of boundary_init env calls] by (simp add: history_ok_def max_session_commands_def)
qed

section \<open>Authentication\<close>

lemma str_field_ok: "str_field d name msg s = (Inr x, s') \<Longrightarrow> dict_get d name = PStr x \<and> s' = s"
  by (auto simp: str_field_def refuse_def split: pyval.splits if_splits)

lemma admit_nonce_ok:
  "admit_nonce v nonce s = (Inr u, s') \<Longrightarrow> map_of (cs_active s) (se_session_id v) = Some (se_provisioning v)
     \<and> canonical_nonce nonce \<and> int_of_str nonce \<notin> cs_seen s
     \<and> cs_accepted s' = cs_accepted s @ [int_of_str nonce]"
  by (auto simp: admit_nonce_def refuse_def Let_def split: if_splits)

lemma verify_ok:
  assumes "verify_command env v d s = (Inr u, s')"
  obtains nonce rid where "dict_get d ''nonce'' = PStr nonce" "dict_get d ''request_id'' = PStr rid"
    "dict_get d ''credential'' = PStr (hmac_hex env (se_secret v) (credential_message nonce rid (se_session_id v)))"
    "admit_nonce v nonce s = (Inr (), s')"
proof -
  obtain nonce s1 rid s2 where n: "str_field d ''nonce'' ''assignment command nonce is required'' s = (Inr nonce, s1)"
    and r: "str_field d ''request_id'' ''assignment command request_id is required'' s1 = (Inr rid, s2)"
    and rest: "(case dict_get d ''credential'' of
       PStr credential \<Rightarrow>
         if credential = [] then refuse ''assignment command credential is required''
         else
           abind (alift (command_credential env (se_secret v) nonce rid (se_session_id v))) (\<lambda>expected.
           abind (alift (compare_digest credential expected)) (\<lambda>ok.
           if \<not> ok then refuse ''assignment command credential verification failed''
           else admit_nonce v nonce))
     | _ \<Rightarrow> refuse ''assignment command credential is required'') s2 = (Inr u, s')"
    using assms unfolding verify_command_def abind_Inr_iff by blast
  have ids: "dict_get d ''nonce'' = PStr nonce" "dict_get d ''request_id'' = PStr rid" "s1 = s" "s2 = s1"
    using str_field_ok n r by blast+
  obtain cred where c: "dict_get d ''credential'' = PStr cred" "cred \<noteq> []"
    using rest by (cases "dict_get d ''credential''") (auto simp: refuse_def split: if_splits)
  obtain expected where e: "command_credential env (se_secret v) nonce rid (se_session_id v) = Inr expected"
    and ok: "compare_digest cred expected = Inr True" and adm: "admit_nonce v nonce s2 = (Inr u, s')"
    using rest c by (auto simp: abind_Inr_iff refuse_def split: if_splits)
  have "cred = expected" using ok by (simp add: compare_digest_def split: if_splits)
  moreover have "expected = hmac_hex env (se_secret v) (credential_message nonce rid (se_session_id v))"
    using e by (simp add: command_credential_def split: if_splits)
  ultimately show thesis using that ids c adm by simp
qed

text \<open>The frame of an authenticated command: its fields, its credential, and a fresh nonce.\<close>

definition authentic :: "cmd_env \<Rightarrow> cmd_state \<Rightarrow> string \<Rightarrow> cmd_state \<Rightarrow> bool" where
  "authentic env s line s' \<longleftrightarrow> (\<exists>v d nonce rid. cs_verifier s = Some v \<and> json_loads env line = Inr (PDict d)
     \<and> dict_get d ''nonce'' = PStr nonce \<and> dict_get d ''request_id'' = PStr rid
     \<and> dict_get d ''credential'' = PStr (hmac_hex env (se_secret v) (credential_message nonce rid (se_session_id v)))
     \<and> map_of (cs_active s) (se_session_id v) = Some (se_provisioning v)
     \<and> canonical_nonce nonce \<and> int_of_str nonce \<notin> cs_seen s
     \<and> cs_accepted s' = cs_accepted s @ [int_of_str nonce])"

definition same_history :: "cmd_state \<Rightarrow> cmd_state \<Rightarrow> bool" where
  "same_history s s' \<longleftrightarrow> cs_accepted s' = cs_accepted s"

lemma same_history_preorder: "reflp same_history" "transp same_history"
  by (auto simp: same_history_def intro!: reflpI transpI)

lemma keeps_same_history_svc: "keeps same_history (on_svc m)"
  by (auto simp: keeps_def same_history_def on_svc_def split: prod.splits)

lemma keeps_same_history_dispatch: "keeps same_history (dispatch env c)"
  unfolding dispatch_def Let_def op_start_def op_observe_def op_cancel_def op_receipt_def op_terminalize_def
    op_reconcile_def require_only_def
  by (intro keeps_rules keeps_refuse keeps_same_history_svc same_history_preorder)

lemma verify_never_dies:
  assumes "verify_command env v d s = (Inl e, s')" shows "e \<noteq> ProcessDied"
proof -
  have refuse: "e \<noteq> ProcessDied" if "refuse m s1 = (Inl e, s2)" for m s1 s2 e
    using that by (auto simp: refuse_def)
  have field: "e \<noteq> ProcessDied" if "str_field d n m s1 = (Inl e, s2)" for n m s1 s2 e
    using that by (auto simp: str_field_def refuse_def split: pyval.splits if_splits)
  have cred: "e \<noteq> ProcessDied" if "command_credential env a b c f = Inl e" for a b c f e
    using that by (auto simp: command_credential_def split: if_splits)
  have cmp: "e \<noteq> ProcessDied" if "compare_digest a b = Inl e" for a b e
    using that by (auto simp: compare_digest_def split: if_splits)
  have adm: "e \<noteq> ProcessDied" if "admit_nonce v n s1 = (Inl e, s2)" for n s1 s2 e
    using that by (auto simp: admit_nonce_def refuse_def Let_def split: if_splits)
  show ?thesis
    using assms unfolding verify_command_def
    by (elim abindE) (auto split: pyval.splits if_splits elim!: abindE dest: refuse field cred cmp adm)
qed

lemma handle_cases:
  assumes "handle_command env (Some v) d s = (r, s')"
  shows "(cs_svc s' = cs_svc s \<and> r \<noteq> Inl ProcessDied)
     \<or> (\<exists>s1. verify_command env v d s = (Inr (), s1) \<and> cs_accepted s' = cs_accepted s1)"
proof -
  obtain q s1 where q: "verify_command env v d s = (q, s1)" by fastforce
  show ?thesis
  proof (cases q)
    case (Inl e)
    have "cs_svc s1 = cs_svc s"
      using keepsD [OF keeps_verify [OF cmd_preorders(3,4) keeps_admit_nonce(2)] q] by (simp add: same_svc_def)
    then show ?thesis using assms q Inl verify_never_dies [OF q [unfolded Inl]] by (auto simp: handle_command_def)
  next
    case (Inr u)
    let ?rest = "abind (alift (validate_command d)) (\<lambda>c.
       if cm_schema c \<noteq> protocol_schema then refuse ''unsupported assignment protocol schema''
       else abind (dispatch env c) (\<lambda>result.
         aret [(''schema'', PStr protocol_schema), (''request_id'', PStr (cm_request_id c)),
               (''ok'', PBool True), (''result'', result)]))"
    have "keeps same_history ?rest"
      by (intro keeps_rules keeps_refuse same_history_preorder keeps_same_history_dispatch)
    moreover have "?rest s1 = (r, s')" using assms q Inr by (simp add: handle_command_def)
    ultimately have "same_history s1 s'" by (rule keepsD)
    then show ?thesis using q Inr by (simp add: same_history_def)
  qed
qed

lemma serve_line_cases:
  assumes "serve_line env (cs_verifier s) line s = (r, s')"
  shows "(cs_svc s' = cs_svc s \<and> r \<noteq> Inl ProcessDied) \<or> authentic env s line s'"
proof -
  consider (object) d v where "json_loads env line = Inr (PDict d)" "cs_verifier s = Some v"
      "\<not> max_message_bytes < utf8_len line"
    | (other) "\<exists>x. serve_line env (cs_verifier s) line s = (Inr x, s)"
    by (cases "max_message_bytes < utf8_len line"; cases "json_loads env line";
        cases "projr (json_loads env line)"; cases "cs_verifier s")
      (auto simp: serve_line_def answer_error_def acatch_def refuse_def Let_def)
  then show ?thesis
  proof cases
    case other
    then show ?thesis using assms by auto
  next
    case object
    obtain q s1 where h: "handle_command env (Some v) d s = (q, s1)" by fastforce
    have r: "s' = s1 \<and> (r = Inl ProcessDied \<longrightarrow> q = Inl ProcessDied)"
      using assms object h by (cases q) (auto simp: serve_line_def acatch_def answer_error_def Let_def split: if_splits)
    show ?thesis
    proof (cases "cs_svc s1 = cs_svc s \<and> q \<noteq> Inl ProcessDied")
      case True
      then show ?thesis using r by blast
    next
      case False
      then obtain s2 where v: "verify_command env v d s = (Inr (), s2)" "cs_accepted s1 = cs_accepted s2"
        using handle_cases [OF h] by blast
      obtain nonce rid where "dict_get d ''nonce'' = PStr nonce" "dict_get d ''request_id'' = PStr rid"
        "dict_get d ''credential'' = PStr (hmac_hex env (se_secret v) (credential_message nonce rid (se_session_id v)))"
        "admit_nonce v nonce s = (Inr (), s2)"
        using verify_ok [OF v(1)] by blast
      then show ?thesis
        using object v(2) r admit_nonce_ok [of v nonce s "()" s2] unfolding authentic_def by auto
    qed
  qed
qed

text \<open>
  C8: A frame changes the service behind the boundary only if it is authenticated: it parses to
  an object that carries the HMAC of the session's secret over the session, its own nonce and
  its own request id, the session's generation is the active one, and the nonce is a canonical
  integer not accepted before, which is recorded.
\<close>

theorem frames_authenticated:
  "cs_svc (snd (frame_step env line s)) = cs_svc s \<or> authentic env s line (snd (frame_step env line s))"
proof (cases "sv_alive (cs_svc s)")
  case True
  obtain r s' where r: "serve_line env (cs_verifier s) line s = (r, s')" by fastforce
  show ?thesis
  proof (cases r)
    case (Inl e)
    have "e = ProcessDied"
      using r Inl by (auto simp: serve_line_def acatch_def answer_error_def Let_def
          split: if_splits sum.splits pyval.splits prod.splits)
    then have "authentic env s line s'" using serve_line_cases [OF r] Inl by simp
    then show ?thesis using True r Inl by (simp add: frame_step_def authentic_def)
  next
    case (Inr x)
    then show ?thesis using serve_line_cases [OF r] True r by (auto simp: frame_step_def)
  qed
qed (simp add: frame_step_def)

section \<open>Responses\<close>

definition line_request_id :: "cmd_env \<Rightarrow> string \<Rightarrow> string option" where
  "line_request_id env line = (if max_message_bytes < utf8_len line then None
     else case json_loads env line of Inr (PDict d) \<Rightarrow> frame_request_id d | _ \<Rightarrow> None)"

definition correlated :: "cmd_env \<Rightarrow> string \<Rightarrow> pydict \<Rightarrow> bool" where
  "correlated env line r \<longleftrightarrow> dict_get r ''schema'' = PStr protocol_schema
     \<and> dict_get r ''request_id'' = opt_text (line_request_id env line)"

lemma error_response_correlated:
  "line_request_id env line = rid \<Longrightarrow> correlated env line (error_response rid m)"
  by (simp add: correlated_def error_response_def dict_get_def)

lemma handle_request_id:
  assumes "handle_command env (Some v) d s = (Inr x, s')"
  shows "dict_get x ''schema'' = PStr protocol_schema \<and> dict_get x ''request_id'' = opt_text (frame_request_id d)"
proof -
  obtain c result where c: "validate_command d = Inr c"
    and x: "x = [(''schema'', PStr protocol_schema), (''request_id'', PStr (cm_request_id c)),
               (''ok'', PBool True), (''result'', result)]"
    using assms by (auto simp: handle_command_def abind_Inr_iff refuse_def split: if_splits)
  obtain ok where "req_str d ''request_id'' (len_between 1 128) = Inr (cm_request_id c)"
    using c by (auto simp: validate_command_def split: if_splits)
  then have "map_of d ''request_id'' = Some (PStr (cm_request_id c))" "cm_request_id c \<noteq> []"
    by (auto simp: req_str_def len_between_def split: option.splits pyval.splits if_splits)
  then show ?thesis using x by (simp add: dict_get_def frame_request_id_def opt_text_def)
qed

lemma serve_line_answers:
  "case serve_line env verifier line s of
     (Inl e, s') \<Rightarrow> e = ProcessDied | (Inr r, s') \<Rightarrow> correlated env line r"
proof (cases "max_message_bytes < utf8_len line")
  case True
  then show ?thesis
    by (simp add: serve_line_def error_response_correlated line_request_id_def)
next
  case small: False
  show ?thesis
  proof (cases "\<exists>d v. json_loads env line = Inr (PDict d) \<and> verifier = Some v")
    case True
    then obtain d v where d: "json_loads env line = Inr (PDict d)" and v: "verifier = Some v" by blast
    then have rid: "line_request_id env line = frame_request_id d" using small by (simp add: line_request_id_def)
    obtain q s1 where h: "handle_command env (Some v) d s = (q, s1)" by fastforce
    show ?thesis
    proof (cases q)
      case (Inl e)
      then show ?thesis
        using h d v small error_response_correlated [OF rid]
        by (simp add: serve_line_def acatch_def answer_error_def Let_def)
    next
      case (Inr x)
      then show ?thesis
        using h d v small handle_request_id [of env v d s x s1] rid
        by (simp add: serve_line_def acatch_def Let_def correlated_def)
    qed
  next
    case False
    then show ?thesis
      using small
      by (auto simp: serve_line_def answer_error_def acatch_def refuse_def Let_def line_request_id_def
          intro!: error_response_correlated split: sum.split pyval.split option.split)
  qed
qed


end
