(* ===== verification/Wp.thy ===== *)
theory Wp
  imports Prelude
begin

text \<open>
  Weakest preconditions for methods that change a state and may raise: \<open>wp m Q E s\<close> says that
  \<open>m\<close> started in \<open>s\<close> ends with \<open>Q\<close> of its result and state, or raises with \<open>E\<close> of the exception
  and state. The equations compute it along the body of a method; \<open>wp_mono\<close> weakens what a
  called method is known to do.
\<close>

definition wp :: "('s, 'a) act \<Rightarrow> ('a \<Rightarrow> 's \<Rightarrow> bool) \<Rightarrow> (exn \<Rightarrow> 's \<Rightarrow> bool) \<Rightarrow> 's \<Rightarrow> bool" where
  "wp m Q E s = (case m s of (Inr x, s') \<Rightarrow> Q x s' | (Inl e, s') \<Rightarrow> E e s')"

named_theorems wp_rules \<open>equations for weakest preconditions\<close>

lemma wp_aret [wp_rules]: "wp (aret x) Q E s = Q x s"
  by (simp add: wp_def)

lemma wp_araise [wp_rules]: "wp (araise e) Q E s = E e s"
  by (simp add: wp_def)

lemma wp_alift [wp_rules]: "wp (alift r) Q E s = (case r of Inl e \<Rightarrow> E e s | Inr x \<Rightarrow> Q x s)"
  by (cases r) (simp_all add: wp_def)

lemma wp_aset [wp_rules]: "wp (aset f) Q E s = Q () (f s)"
  by (simp add: wp_def)

lemma wp_awith [wp_rules]: "wp (awith g) Q E s = wp (g s) Q E s"
  by (simp add: wp_def)

lemma wp_abind [wp_rules]: "wp (abind m f) Q E = wp m (\<lambda>x. wp (f x) Q E) E"
proof
  fix s
  obtain r s' where m: "m s = (r, s')" by fastforce
  then show "wp (abind m f) Q E s = wp m (\<lambda>x. wp (f x) Q E) E s" by (cases r) (simp_all add: wp_def)
qed

lemma wp_acatch [wp_rules]:
  "wp (acatch p m h) Q E s = wp m Q (\<lambda>e s'. if p e then wp (h e) Q E s' else E e s') s"
proof -
  obtain r s' where m: "m s = (r, s')" by fastforce
  then show ?thesis by (cases r) (simp_all add: wp_def acatch_def)
qed

lemma wp_afinally [wp_rules]:
  "wp (afinally m f) Q E s = wp m (\<lambda>x. wp f (\<lambda>_. Q x) E) (\<lambda>e. wp f (\<lambda>_. E e) E) s"
proof -
  obtain r s1 where m: "m s = (r, s1)" by fastforce
  obtain q s2 where f: "f s1 = (q, s2)" by fastforce
  show ?thesis using m f by (cases r; cases q) (simp_all add: wp_def afinally_def)
qed

lemma wp_if [wp_rules]: "wp (if b then m else n) Q E s = (if b then wp m Q E s else wp n Q E s)"
  by simp

lemma wp_case_option [wp_rules]:
  "wp (case x of None \<Rightarrow> m | Some y \<Rightarrow> f y) Q E s = (case x of None \<Rightarrow> wp m Q E s | Some y \<Rightarrow> wp (f y) Q E s)"
  by (cases x) simp_all

lemma wp_case_prod [wp_rules]: "wp (case x of (y, z) \<Rightarrow> f y z) Q E s = (case x of (y, z) \<Rightarrow> wp (f y z) Q E s)"
  by (cases x) simp_all

lemma wp_mono:
  assumes "wp m Q E s" and "\<And>x s'. Q x s' \<Longrightarrow> Q' x s'" and "\<And>e s'. E e s' \<Longrightarrow> E' e s'"
  shows "wp m Q' E' s"
proof -
  obtain r s' where m: "m s = (r, s')" by fastforce
  then show ?thesis using assms by (cases r) (simp_all add: wp_def)
qed

lemma wp_bindI:
  assumes "wp m R E s" and "\<And>x s'. R x s' \<Longrightarrow> wp (f x) Q E s'"
  shows "wp (abind m f) Q E s"
  unfolding wp_abind using assms by (rule wp_mono)

lemma wp_conj: "wp m (\<lambda>x s. Q x s \<and> Q' x s) (\<lambda>e s. E e s \<and> E' e s) s \<longleftrightarrow> wp m Q E s \<and> wp m Q' E' s"
proof -
  obtain r s' where m: "m s = (r, s')" by fastforce
  then show ?thesis by (cases r) (simp_all add: wp_def)
qed

lemma wp_Inr: "wp m Q E s \<Longrightarrow> m s = (Inr x, s') \<Longrightarrow> Q x s'"
  by (simp add: wp_def)

lemma wp_Inl: "wp m Q E s \<Longrightarrow> m s = (Inl e, s') \<Longrightarrow> E e s'"
  by (simp add: wp_def)

lemma wp_True: "wp m (\<lambda>_ _. True) (\<lambda>_ _. True) s"
  by (simp add: wp_def split: prod.split sum.split)

lemma wp_keeps: "keeps R m \<Longrightarrow> wp m (\<lambda>_ s'. R s s') (\<lambda>_ s'. R s s') s"
  by (auto simp: wp_def keeps_def split: prod.split sum.split) (metis snd_conv)+

end
