(* ===== verification/Seat_Fields.thy ===== *)
theory Seat_Fields
  imports Prelude
begin

text \<open>
  The field classes a seat configuration is made of and the rendering of remote commands:
  \<open>src/testudo/seats/validation.py\<close> and \<open>src/testudo/seats/render.py\<close>.

  A regular expression of the source is a predicate on the characters of the string. Strings
  are lists of 8-bit code points, so they carry no surrogates and every one of them encodes to
  UTF-8. \<open>ipaddress.ip_address(s).compressed\<close>, SHA-256 of a text and SHA-256 of the canonical
  JSON of an object are parameters.
\<close>

section \<open>Validation errors\<close>

definition verr :: "string \<Rightarrow> string \<Rightarrow> string \<Rightarrow> exn + 'a" where
  "verr field error_class detail = Inl (ValidationError (''invalid '' @ field @ '': '' @ error_class
     @ (if detail = [] then [] else '' ('' @ detail @ '')'')))"

definition is_control :: "char \<Rightarrow> bool" where
  "is_control c \<longleftrightarrow> (let n = (of_char c :: nat) in n < 32 \<or> 127 \<le> n \<and> n \<le> 159)"

definition check_common :: "string \<Rightarrow> string \<Rightarrow> exn + unit" where
  "check_common field s = (if list_ex is_control s then verr field ''control-character'' [] else Inr ())"

definition require_str :: "string \<Rightarrow> pyval \<Rightarrow> exn + string" where
  "require_str field v = (case v of PStr s \<Rightarrow> Inr s | _ \<Rightarrow> verr field ''type'' ''expected a string'')"

definition first_char_not_dash :: "string \<Rightarrow> string \<Rightarrow> exn + string" where
  "first_char_not_dash field s = (if prefix ''-'' s then verr field ''leading-dash'' [] else Inr s)"

text \<open>The common rules, then membership in the class.\<close>

definition field_class :: "string \<Rightarrow> string \<Rightarrow> (string \<Rightarrow> bool) \<Rightarrow> string \<Rightarrow> exn + string" where
  "field_class field error_class ok s =
     rbind (check_common field s) (\<lambda>_. if ok s then Inr s else verr field error_class [])"

definition len_in :: "nat \<Rightarrow> nat \<Rightarrow> string \<Rightarrow> bool" where
  "len_in lo hi s \<longleftrightarrow> lo \<le> length s \<and> length s \<le> hi"

section \<open>Classes of characters\<close>

definition lower_alpha :: "char \<Rightarrow> bool" where
  "lower_alpha c \<longleftrightarrow> (let n = (of_char c :: nat) in 97 \<le> n \<and> n \<le> 122)"

definition label_char :: "char \<Rightarrow> bool" where
  "label_char c \<longleftrightarrow> (let n = (of_char c :: nat) in 32 \<le> n \<and> n \<le> 126)"

definition unit_char :: "char \<Rightarrow> bool" where "unit_char c \<longleftrightarrow> ascii_alnum c \<or> c \<in> set ''_.@-''"
definition model_char :: "char \<Rightarrow> bool" where "model_char c \<longleftrightarrow> ascii_alnum c \<or> c \<in> set ''._/:+-''"
definition path_char :: "char \<Rightarrow> bool" where "path_char c \<longleftrightarrow> ascii_alnum c \<or> c \<in> set ''_./+@-''"
definition sub_char :: "char \<Rightarrow> bool" where "sub_char c \<longleftrightarrow> ascii_alnum c \<or> c \<in> set ''_.-''"
definition user_char :: "char \<Rightarrow> bool" where
  "user_char c \<longleftrightarrow> lower_alpha c \<or> ascii_digit c \<or> c \<in> set ''_.-''"
definition arg_char :: "char \<Rightarrow> bool" where "arg_char c \<longleftrightarrow> ascii_alnum c \<or> c \<in> set ''._/:+=,@%-''"
definition fingerprint_char :: "char \<Rightarrow> bool" where
  "fingerprint_char c \<longleftrightarrow> (let n = (of_char c :: nat) in
     65 \<le> n \<and> n \<le> 90 \<or> 97 \<le> n \<and> n \<le> 122 \<or> 50 \<le> n \<and> n \<le> 55) \<or> c \<in> set ''+/''"

section \<open>Field classes\<close>

abbreviation dash :: char where "dash \<equiv> CHR ''-''"

definition hex_groups :: "string \<Rightarrow> bool" where
  "hex_groups s \<longleftrightarrow> map length (split_on dash s) = [8, 4, 4, 4, 12]
     \<and> list_all (list_all lower_hex) (split_on dash s)"

definition uuid4_re :: "string \<Rightarrow> bool" where
  "uuid4_re s \<longleftrightarrow> hex_groups s \<and> split_on dash s ! 2 ! 0 = CHR ''4''
     \<and> split_on dash s ! 3 ! 0 \<in> set ''89ab''"

definition validate_uuid4 :: "string \<Rightarrow> string \<Rightarrow> exn + string" where
  "validate_uuid4 field = field_class field ''uuid4'' uuid4_re"

definition validate_label :: "string \<Rightarrow> string \<Rightarrow> exn + string" where
  "validate_label field = field_class field ''label'' (\<lambda>s. len_in 1 128 s \<and> list_all label_char s)"

definition validate_unit :: "string \<Rightarrow> string \<Rightarrow> exn + string" where
  "validate_unit field s =
     rbind (field_class field ''unit'' (\<lambda>s. len_in 1 255 s \<and> list_all unit_char s) s) (first_char_not_dash field)"

definition validate_model_id :: "string \<Rightarrow> string \<Rightarrow> exn + string" where
  "validate_model_id field s =
     rbind (field_class field ''model-id'' (\<lambda>s. len_in 1 512 s \<and> list_all model_char s) s) (first_char_not_dash field)"

definition abs_path_re :: "string \<Rightarrow> bool" where
  "abs_path_re s \<longleftrightarrow> prefix ''/'' s \<and> list_all path_char s"

definition validate_absolute_path :: "string \<Rightarrow> string \<Rightarrow> exn + string" where
  "validate_absolute_path field s =
     rbind (field_class field ''absolute-path'' (\<lambda>s. len_in 1 1024 s \<and> abs_path_re s) s) (\<lambda>s.
     if suffix ''/'' s \<and> s \<noteq> ''/'' then verr field ''absolute-path'' ''trailing slash''
     else if s \<noteq> ''/'' \<and> list_ex (\<lambda>p. p \<in> {[], ''.'', ''..''}) (tl (split_on slash s)) then
       verr field ''absolute-path'' ''empty/dot component''
     else Inr s)"

definition validate_subcommand :: "string \<Rightarrow> string \<Rightarrow> exn + string" where
  "validate_subcommand field s =
     rbind (field_class field ''subcommand'' (\<lambda>s. len_in 1 64 s \<and> list_all sub_char s) s) (first_char_not_dash field)"

text \<open>A host name: labels of at most 63 characters between dots, with an optional final dot.\<close>

definition dns_label :: "string \<Rightarrow> bool" where
  "dns_label s \<longleftrightarrow> len_in 1 63 s \<and> list_all (\<lambda>c. lower_alpha c \<or> ascii_digit c \<or> c = dash) s
     \<and> hd s \<noteq> dash \<and> last s \<noteq> dash"

definition hostname_re :: "string \<Rightarrow> bool" where
  "hostname_re s \<longleftrightarrow> (let body = (if suffix ''.'' s then butlast s else s) in
     len_in 1 253 body \<and> list_all dns_label (split_on dot body))"

definition validate_ssh_alias :: "string \<Rightarrow> string \<Rightarrow> exn + string" where
  "validate_ssh_alias field s =
     rbind (field_class field ''ssh-alias'' (len_in 1 255) s) (\<lambda>s.
     rbind (first_char_not_dash field s) (\<lambda>s.
     if list_ex (\<lambda>c. c \<in> set ''*!?'') s then verr field ''ssh-alias'' ''wildcard/negation character''
     else if \<not> hostname_re (py_lower s) then verr field ''ssh-alias'' []
     else Inr s))"

definition ssh_user_re :: "string \<Rightarrow> bool" where
  "ssh_user_re s \<longleftrightarrow> s \<noteq> [] \<and> (lower_alpha (hd s) \<or> hd s = CHR ''_'') \<and> list_all user_char (tl s)"

definition validate_ssh_user :: "string \<Rightarrow> string \<Rightarrow> exn + string" where
  "validate_ssh_user field = field_class field ''ssh-user'' (\<lambda>s. len_in 1 32 s \<and> ssh_user_re s)"

type_synonym ip_compressed = "string \<Rightarrow> string option"

definition canonical_hostname :: "ip_compressed \<Rightarrow> string \<Rightarrow> string \<Rightarrow> exn + string" where
  "canonical_hostname ip field s =
     rbind (field_class field ''hostname'' (len_in 1 253) s) (\<lambda>s.
     case ip s of Some c \<Rightarrow> Inr c
     | None \<Rightarrow> let lowered = py_lower s; name = (if suffix ''.'' lowered then butlast lowered else lowered) in
         if hostname_re name then Inr name else verr field ''hostname'' [])"

definition validate_range :: "string \<Rightarrow> string \<Rightarrow> int \<Rightarrow> int \<Rightarrow> pyval \<Rightarrow> exn + int" where
  "validate_range error_class field lo hi v = (case v of
     PInt n \<Rightarrow> if lo \<le> n \<and> n \<le> hi then Inr n else verr field error_class []
   | _ \<Rightarrow> verr field ''type'' ''expected a JSON integer'')"

definition validate_port :: "string \<Rightarrow> pyval \<Rightarrow> exn + int" where
  "validate_port field = validate_range ''port'' field 1 65535"

definition validate_timeout :: "string \<Rightarrow> pyval \<Rightarrow> int \<Rightarrow> int \<Rightarrow> exn + int" where
  "validate_timeout field v minimum maximum = validate_range ''timeout'' field minimum maximum v"

fun option_token_re :: "string \<Rightarrow> bool" where
  "option_token_re [a, b] \<longleftrightarrow> a = dash \<and> ascii_alnum b"
| "option_token_re (a # b # c # cs) \<longleftrightarrow> a = dash \<and> b = dash \<and> lower_alpha c
     \<and> list_all (\<lambda>x. lower_alpha x \<or> ascii_digit x \<or> x = dash) cs"
| "option_token_re _ \<longleftrightarrow> False"

definition argument_value_re :: "string \<Rightarrow> bool" where
  "argument_value_re s \<longleftrightarrow> s \<noteq> [] \<and> list_all arg_char s"

definition validate_option_token :: "string \<Rightarrow> string \<Rightarrow> exn + string" where
  "validate_option_token field = field_class field ''option-token'' (\<lambda>s. option_token_re s \<and> length s \<le> 64)"

definition validate_argument_value :: "string \<Rightarrow> string \<Rightarrow> exn + string" where
  "validate_argument_value field s =
     rbind (field_class field ''argument-value'' (len_in 1 1024) s) (\<lambda>s.
     rbind (first_char_not_dash field s) (\<lambda>s.
     if argument_value_re s then Inr s else verr field ''argument-value'' []))"

definition is_option :: "string \<Rightarrow> bool" where
  "is_option s \<longleftrightarrow> option_token_re s \<and> length s \<le> 64"

definition is_argument :: "string \<Rightarrow> bool" where
  "is_argument s \<longleftrightarrow> argument_value_re s \<and> len_in 1 1024 s \<and> \<not> prefix ''-'' s"

definition indexed :: "string \<Rightarrow> nat \<Rightarrow> string" where
  "indexed field i = field @ ''['' @ nat_str i @ '']''"

fun check_launch_args :: "string \<Rightarrow> nat \<Rightarrow> pyval list \<Rightarrow> exn + string list" where
  "check_launch_args field i [] = Inr []"
| "check_launch_args field i (v # vs) =
     rbind (require_str (indexed field i) v) (\<lambda>s.
     rbind (check_common (indexed field i) s) (\<lambda>_.
     if is_option s = is_argument s then
       verr field ''launch-argv'' (''element '' @ nat_str i @ '' ambiguous or invalid: '' @ py_repr s)
     else rbind (check_launch_args field (Suc i) vs) (\<lambda>ss. Inr (s # ss))))"

definition validate_launch_argv :: "string \<Rightarrow> pyval \<Rightarrow> exn + string list" where
  "validate_launch_argv field v = (case v of
     PList (a # args) \<Rightarrow>
       if 128 < length (a # args) then verr field ''launch-argv'' ''length out of range 1-128''
       else rbind (require_str (indexed field 0) a) (\<lambda>s.
            rbind (validate_absolute_path (indexed field 0) s) (\<lambda>p.
            rbind (check_launch_args field 1 args) (\<lambda>ss. Inr (p # ss))))
   | _ \<Rightarrow> verr field ''launch-argv'' ''length out of range 1-128'')"

definition validate_hex64 :: "string \<Rightarrow> string \<Rightarrow> exn + string" where
  "validate_hex64 field = field_class field ''hex64'' (hex_string 64)"

definition validate_nonce :: "string \<Rightarrow> string \<Rightarrow> exn + string" where
  "validate_nonce field = field_class field ''nonce'' (hex_string 32)"

definition lock_basename_re :: "string \<Rightarrow> bool" where
  "lock_basename_re s \<longleftrightarrow> prefix ''endpoint-'' s \<and> suffix ''.lock'' s \<and> length s = 78
     \<and> list_all lower_hex (take 64 (drop 9 s))"

definition validate_lock_basename :: "string \<Rightarrow> string \<Rightarrow> exn + string" where
  "validate_lock_basename field = field_class field ''lock-basename'' lock_basename_re"

definition validate_boot_id :: "string \<Rightarrow> string \<Rightarrow> exn + string" where
  "validate_boot_id field = field_class field ''boot-id'' hex_groups"

definition fingerprint_re :: "string \<Rightarrow> bool" where
  "fingerprint_re s \<longleftrightarrow> prefix ''SHA256:'' s \<and> length s = 50 \<and> list_all fingerprint_char (drop 7 s)"

definition validate_fingerprint :: "string \<Rightarrow> string \<Rightarrow> exn + string" where
  "validate_fingerprint field = field_class field ''fingerprint'' fingerprint_re"

definition rfc3339_re :: "string \<Rightarrow> bool" where
  "rfc3339_re s \<longleftrightarrow>
     list_all2 (\<lambda>t c. if t = CHR ''d'' then ascii_digit c else c = t) ''dddd-dd-ddTdd:dd:dd'' (take 19 s)
     \<and> (let r = drop 19 s in r = ''Z''
          \<or> prefix ''.'' r \<and> suffix ''Z'' r \<and> 3 \<le> length r \<and> list_all ascii_digit (butlast (tl r)))"

definition validate_rfc3339_utc :: "string \<Rightarrow> string \<Rightarrow> exn + string" where
  "validate_rfc3339_utc field = field_class field ''rfc3339'' rfc3339_re"

definition one_of :: "string \<Rightarrow> string \<Rightarrow> string list \<Rightarrow> string \<Rightarrow> exn + string" where
  "one_of field error_class allowed s = (if s \<in> set allowed then Inr s else verr field error_class [])"

definition seat_templates :: "string list" where
  "seat_templates = [''systemd-user'', ''control-script'', ''bare-command'']"

definition validate_seat_template :: "string \<Rightarrow> string \<Rightarrow> exn + string" where
  "validate_seat_template field = one_of field ''template'' seat_templates"

definition validate_transport_kind :: "string \<Rightarrow> string \<Rightarrow> exn + string" where
  "validate_transport_kind field = one_of field ''transport'' [''trusted-lan'', ''https'', ''ssh-tunnel'']"

definition validate_ssh_kind :: "string \<Rightarrow> string \<Rightarrow> exn + string" where
  "validate_ssh_kind field = one_of field ''ssh-kind'' [''alias'', ''explicit'']"

section \<open>Remote commands\<close>

abbreviation quote :: char where "quote \<equiv> CHR 0x27"
abbreviation backslash :: char where "backslash \<equiv> CHR 0x5C"

definition sq :: "string \<Rightarrow> string" where
  "sq s = quote # py_replace [quote] [quote, backslash, quote, quote] s @ [quote]"

definition render :: "string list \<Rightarrow> string" where
  "render ws = join_with (CHR '' '') (map sq ws)"

definition remote_command :: "string \<Rightarrow> string list \<Rightarrow> string" where
  "remote_command script args = render ([''sh'', ''-c'', script, ''testudo''] @ args)"

definition lock_basename :: "string \<Rightarrow> exn + string" where
  "lock_basename lock_key_hex = validate_lock_basename ''lock-basename'' (''endpoint-'' @ lock_key_hex @ ''.lock'')"

definition argv_image :: "string list \<Rightarrow> string" where
  "argv_image argv = concat (map (\<lambda>a. a @ [CHR 0x00]) argv)"

definition argv_sha256 :: "(string \<Rightarrow> string) \<Rightarrow> string list \<Rightarrow> string" where
  "argv_sha256 sha argv = sha (argv_image argv)"

definition lock_key :: "(pydict \<Rightarrow> string) \<Rightarrow> string \<Rightarrow> int \<Rightarrow> string \<Rightarrow> int \<Rightarrow> string" where
  "lock_key digest ssh_hostname ssh_port endpoint_host endpoint_port =
     digest [(''ssh_hostname'', PStr ssh_hostname), (''ssh_port'', PInt ssh_port),
             (''endpoint_host'', PStr endpoint_host), (''endpoint_port'', PInt endpoint_port)]"

section \<open>How a POSIX shell reads a command\<close>

text \<open>
  The part of the shell's token recognition that a rendered command uses: blanks separate
  words, a single quote starts literal text up to the next one, a backslash outside quotes
  makes the next character literal. An unquoted character other than letters, digits and a few
  harmless ones may be an operator, an expansion or a reserved word: there the reader gives up.
\<close>

datatype sh_mode = Between | InWord string | InQuote string | Escaped string

definition sh_plain :: "char \<Rightarrow> bool" where
  "sh_plain c \<longleftrightarrow> ascii_alnum c \<or> c \<in> set ''_./:,@%+-''"

fun sh_lex :: "sh_mode \<Rightarrow> string \<Rightarrow> string list option" where
  "sh_lex Between [] = Some []"
| "sh_lex (InWord w) [] = Some [w]"
| "sh_lex (InQuote w) [] = None"
| "sh_lex (Escaped w) [] = None"
| "sh_lex (InQuote w) (c # cs) = (if c = quote then sh_lex (InWord w) cs else sh_lex (InQuote (w @ [c])) cs)"
| "sh_lex (Escaped w) (c # cs) = sh_lex (InWord (w @ [c])) cs"
| "sh_lex Between (c # cs) =
     (if c = CHR '' '' then sh_lex Between cs
      else if c = quote then sh_lex (InQuote []) cs
      else if c = backslash then sh_lex (Escaped []) cs
      else if sh_plain c then sh_lex (InWord [c]) cs else None)"
| "sh_lex (InWord w) (c # cs) =
     (if c = CHR '' '' then map_option ((#) w) (sh_lex Between cs)
      else if c = quote then sh_lex (InQuote w) cs
      else if c = backslash then sh_lex (Escaped w) cs
      else if sh_plain c then sh_lex (InWord (w @ [c])) cs else None)"

lemma py_replace_quote:
  "py_replace [quote] [quote, backslash, quote, quote] (c # s) =
     (if c = quote then [quote, backslash, quote, quote] else [c]) @ py_replace [quote] [quote, backslash, quote, quote] s"
  "py_replace [quote] [quote, backslash, quote, quote] [] = []"
  by (simp_all add: py_replace_Cons1 py_replace.simps [of _ _ "[]"])

lemma sh_lex_quoted:
  "sh_lex (InQuote w) (py_replace [quote] [quote, backslash, quote, quote] s @ quote # rest) = sh_lex (InWord (w @ s)) rest"
  by (induction s arbitrary: w) (simp_all add: py_replace_quote)

lemma sh_lex_sq: "sh_lex Between (sq w @ rest) = sh_lex (InWord w) rest"
  using sh_lex_quoted [of "[]" w rest] by (simp add: sq_def)

lemma sh_lex_render: "sh_lex Between (render ws) = Some ws"
proof (induction ws)
  case (Cons w ws)
  then show ?case
  proof (cases ws)
    case Nil
    then show ?thesis using sh_lex_sq [of w "[]"] by (simp add: render_def)
  next
    case (Cons v vs)
    then show ?thesis using Cons.IH by (simp add: render_def sh_lex_sq)
  qed
qed (simp add: render_def)

text \<open>
  C12: A remote command reaches the remote shell as the words it was built from: \<open>sh\<close>, \<open>-c\<close>, the
  constant script, \<open>testudo\<close> and the arguments, each exactly as given. No character of an
  argument, quotes and line feeds included, is read as an operator or an expansion.
\<close>

theorem remote_command_words:
  "sh_lex Between (remote_command script args) = Some ([''sh'', ''-c'', script, ''testudo''] @ args)"
  unfolding remote_command_def by (rule sh_lex_render)

section \<open>Host key fingerprints\<close>

text \<open>The alphabet of unpadded base64, which OpenSSH prints fingerprints in.\<close>

definition base64_char :: "char \<Rightarrow> bool" where
  "base64_char c \<longleftrightarrow> ascii_alnum c \<or> c \<in> set ''+/''"

text \<open>
  The class of host key fingerprints is narrower than the form OpenSSH prints: the fingerprint
  of the empty key, 43 characters of base64, is refused because it contains an 8.
\<close>

theorem openssh_fingerprint_refused:
  "length (drop 7 ''SHA256:47DEQpj8HBSa+/TImW+5JCeuQeRkm5NMpJWZG3hSuFU'') = 43
   \<and> list_all base64_char (drop 7 ''SHA256:47DEQpj8HBSa+/TImW+5JCeuQeRkm5NMpJWZG3hSuFU'')
   \<and> validate_fingerprint field ''SHA256:47DEQpj8HBSa+/TImW+5JCeuQeRkm5NMpJWZG3hSuFU'' = verr field ''fingerprint'' []"
  by (simp add: base64_char_def validate_fingerprint_def field_class_def check_common_def is_control_def
      fingerprint_re_def fingerprint_char_def py_defs)

section \<open>Shapes of accepted values\<close>

lemma field_class_Inr: "field_class field cls ok s = Inr r \<longleftrightarrow> r = s \<and> ok s \<and> \<not> list_ex is_control s"
  by (auto simp: field_class_def check_common_def verr_def rbind_def)

lemma first_char_not_dash_Inr: "first_char_not_dash field s = Inr r \<longleftrightarrow> r = s \<and> \<not> prefix ''-'' s"
  by (auto simp: first_char_not_dash_def verr_def)

lemma verr_not_Inr [simp]: "verr f c d \<noteq> Inr x" "Inr x \<noteq> verr f c d"
  by (simp_all add: verr_def)

lemma require_str_Inr: "require_str field v = Inr s \<longleftrightarrow> v = PStr s"
  by (cases v) (auto simp: require_str_def)

lemma validate_range_Inr:
  "validate_range cls field lo hi v = Inr n \<longleftrightarrow> v = PInt n \<and> lo \<le> n \<and> n \<le> hi"
  by (cases v) (auto simp: validate_range_def)

lemma check_launch_args_Inr:
  "check_launch_args field i vs = Inr ss \<Longrightarrow> vs = map PStr ss \<and> list_all (\<lambda>s. is_option s \<noteq> is_argument s \<and> \<not> list_ex is_control s) ss"
proof (induction vs arbitrary: i ss)
  case (Cons v vs)
  then obtain s ts where "v = PStr s" "\<not> list_ex is_control s" "is_option s \<noteq> is_argument s"
    "check_launch_args field (Suc i) vs = Inr ts" "ss = s # ts"
    by (auto simp: rbind_eq_Inr require_str_Inr check_common_def split: if_splits)
  then show ?case using Cons.IH by auto
qed simp

lemma validate_absolute_path_Inr:
  "validate_absolute_path field s = Inr p \<Longrightarrow> p = s \<and> prefix ''/'' s \<and> list_all path_char s
     \<and> (s = ''/'' \<or> list_all (\<lambda>c. c \<noteq> [] \<and> c \<noteq> ''.'' \<and> c \<noteq> ''..'') (tl (split_on slash s)))"
  by (auto simp: validate_absolute_path_def rbind_eq_Inr field_class_Inr abs_path_re_def list_all_iff
      list_ex_iff split: if_splits)

end
