(* ===== verification/Seat_Guard.thy ===== *)
theory Seat_Guard
  imports Wp Seat_Fields
begin

text \<open>
  The two locks around every destructive operation on a seat: \<open>LocalLock\<close> and \<open>GuardController\<close>
  of \<open>src/testudo/seats/guard.py\<close>.

  What the operating system answers is an oracle: the readings of the clock, the results of
  \<open>flock\<close>, the lines the remote guard prints, its exit code, and so on, each by the number of
  the call. The state counts these calls and keeps a trace of what the controller did. The
  callbacks of the controller, the endpoint poll and the reconciliation, run on the same state.
  A loop takes fuel, and raises a \<open>RuntimeError\<close> of its own when it runs out: what is shown of the
  lock and the protocol holds then too. \<open>flock_loop_ends\<close> says how much the wait for the lock needs.
\<close>

section \<open>The world and the state\<close>

record lock_stat =
  ls_regular :: bool
  ls_owned :: bool
  ls_mode :: nat

record guard_world =
  gw_mkdir :: "exn option"
  gw_symlink :: bool
  gw_exists :: bool
  gw_create :: "exn option"
  gw_stat :: "exn + lock_stat"
  gw_open :: "exn option"
  gw_flock :: "nat \<Rightarrow> bool"
  gw_clock :: "nat \<Rightarrow> rat"
  gw_spawn :: "exn option"
  gw_line :: "nat \<Rightarrow> string \<times> nat"
  gw_err :: "nat \<Rightarrow> string"
  gw_exit :: "nat \<Rightarrow> int option"
  gw_ready :: "nat \<Rightarrow> bool"

datatype gevent =
    Locked
  | Unlocked
  | Spawned "string list" string
  | Permit bool
  | Go string
  | Eof
  | Reconciled string
  | Release string
  | Killed

record guard_state =
  gs_fd :: bool
  gs_flocked :: bool
  gs_stdin :: bool
  gs_returncode :: "int option"
  gs_flocks :: nat
  gs_ticks :: nat
  gs_lines :: nat
  gs_errs :: nat
  gs_polls :: nat
  gs_selects :: nat
  gs_trace :: "gevent list"

definition guard_event :: "gevent \<Rightarrow> ('x guard_state_scheme, unit) act" where
  "guard_event ev = aset (\<lambda>s. s\<lparr>gs_trace := gs_trace s @ [ev]\<rparr>)"

definition monotonic :: "guard_world \<Rightarrow> ('x guard_state_scheme, rat) act" where
  "monotonic w = awith (\<lambda>s. abind (aset (\<lambda>s. s\<lparr>gs_ticks := Suc (gs_ticks s)\<rparr>)) (\<lambda>_. aret (gw_clock w (gs_ticks s))))"

definition may_raise :: "exn option \<Rightarrow> ('x guard_state_scheme, unit) act" where
  "may_raise x = (case x of None \<Rightarrow> aret () | Some e \<Rightarrow> araise e)"

section \<open>The local lock\<close>

definition local_lock_wait_seconds :: rat where "local_lock_wait_seconds = 10"

fun oct_digits :: "nat \<Rightarrow> string" where
  "oct_digits n = (if n < 8 then [char_of (48 + n)] else oct_digits (n div 8) @ [char_of (48 + n mod 8)])"

declare oct_digits.simps [simp del]

definition stat_check :: "guard_world \<Rightarrow> string \<Rightarrow> ('x guard_state_scheme, unit) act" where
  "stat_check w path = abind (alift (gw_stat w)) (\<lambda>st.
     if \<not> ls_regular st then araise (LocalGuardError (''local guard unavailable: not a regular file: '' @ path))
     else if \<not> ls_owned st then
       araise (LocalGuardError (''local guard unavailable: not owned by current user: '' @ path))
     else if ls_mode st \<noteq> 384 then araise (LocalGuardError (''local guard unavailable: unsafe mode 0o'' @ oct_digits (ls_mode st) @ '': '' @ path))
     else aret ())"

definition close_fd :: "('x guard_state_scheme, unit) act" where
  "close_fd = awith (\<lambda>s. if gs_flocked s
     then abind (aset (\<lambda>s. s\<lparr>gs_fd := False, gs_flocked := False\<rparr>)) (\<lambda>_. guard_event Unlocked)
     else aset (\<lambda>s. s\<lparr>gs_fd := False\<rparr>))"

definition try_flock :: "guard_world \<Rightarrow> ('x guard_state_scheme, bool) act" where
  "try_flock w = awith (\<lambda>s.
     abind (aset (\<lambda>s. s\<lparr>gs_flocks := Suc (gs_flocks s)\<rparr>)) (\<lambda>_.
     if gw_flock w (gs_flocks s)
     then abind (aset (\<lambda>s. s\<lparr>gs_flocked := True\<rparr>)) (\<lambda>_. abind (guard_event Locked) (\<lambda>_. aret True))
     else aret False))"

text \<open>\<open>while True: try flock ... except OSError: deadline or sleep\<close>.\<close>

fun flock_loop :: "nat \<Rightarrow> guard_world \<Rightarrow> rat \<Rightarrow> ('x guard_state_scheme, unit) act" where
  "flock_loop 0 w deadline = araise (RuntimeError ''out of fuel'')"
| "flock_loop (Suc fuel) w deadline =
     abind (try_flock w) (\<lambda>ok. if ok then aret ()
       else abind (monotonic w) (\<lambda>now.
         if deadline \<le> now
         then abind close_fd (\<lambda>_. araise (LocalGuardError ''local guard unavailable: lock contention timeout''))
         else flock_loop fuel w deadline))"

definition release :: "('x guard_state_scheme, unit) act" where
  "release = awith (\<lambda>s. if gs_fd s then close_fd else aret ())"

definition acquire :: "nat \<Rightarrow> guard_world \<Rightarrow> string \<Rightarrow> ('x guard_state_scheme, unit) act" where
  "acquire fuel w path =
     abind (may_raise (gw_mkdir w)) (\<lambda>_.
     if gw_symlink w then araise (LocalGuardError (''local guard unavailable: symlink at '' @ path))
     else abind (if gw_exists w then aret () else may_raise (gw_create w)) (\<lambda>_.
     abind (stat_check w path) (\<lambda>_.
     abind (may_raise (gw_open w)) (\<lambda>_.
     abind (aset (\<lambda>s. s\<lparr>gs_fd := True\<rparr>)) (\<lambda>_.
     acatch (\<lambda>_. True)
       (abind (monotonic w) (\<lambda>now. flock_loop fuel w (now + local_lock_wait_seconds)))
       (\<lambda>e. abind release (\<lambda>_. araise e)))))))"

section \<open>Lines of the protocol\<close>

definition exact_trailer_rc :: "string \<Rightarrow> string \<Rightarrow> int option" where
  "exact_trailer_rc line nonce = (case split_on (CHR '' '') (py_strip line) of
     [a, b, c] \<Rightarrow> if a \<noteq> ''TESTUDO_OPERATION_EXIT'' \<or> b \<noteq> nonce then None else py_int c
   | _ \<Rightarrow> None)"

definition protocol_shaped :: "string \<Rightarrow> bool" where
  "protocol_shaped line \<longleftrightarrow> prefix ''TESTUDO_'' (hd (split_on (CHR '' '') (py_strip line)))"

fun last_trailer :: "string \<Rightarrow> int option \<Rightarrow> string list \<Rightarrow> int option" where
  "last_trailer nonce trailer [] = trailer"
| "last_trailer nonce trailer (line # lines) = (case exact_trailer_rc line nonce of
     Some rc \<Rightarrow> last_trailer nonce (Some rc) lines
   | None \<Rightarrow> if trailer \<noteq> None \<and> protocol_shaped line then None else last_trailer nonce trailer lines)"

definition parse_last_trailer :: "string \<Rightarrow> string \<Rightarrow> int option" where
  "parse_last_trailer stdout nonce = last_trailer nonce None (py_splitlines stdout)"

definition locked_line :: "string \<Rightarrow> bool" where
  "locked_line line \<longleftrightarrow> prefix ''TESTUDO_LOCKED '' line"

definition operation_output :: "string \<Rightarrow> string \<Rightarrow> string" where
  "operation_output stdout nonce = join_with (CHR 0x0A)
     (filter (\<lambda>l. \<not> locked_line l \<and> exact_trailer_rc l nonce = None) (py_splitlines stdout))"

section \<open>The controller\<close>

definition max_output_bytes :: nat where "max_output_bytes = 1024 * 1024"

record 's guard_controller =
  gc_command_argv :: "string \<Rightarrow> string list"
  gc_lock_basename :: string
  gc_nonce :: string
  gc_connect_timeout :: int
  gc_permits :: "('s, bool) act"
  gc_reconcile :: "string \<Rightarrow> ('s, unit) act"

definition ssh_argv :: "'s guard_controller \<Rightarrow> string \<Rightarrow> string list" where
  "ssh_argv c remote = (let argv = gc_command_argv c remote; n = length argv in
     take (n - 2) argv @ [''-o'', ''ConnectTimeout='' @ int_str (gc_connect_timeout c), argv ! (n - 2), remote])"

record guard_outcome =
  go_locked :: bool
  go_exit_code :: "int option"
  go_rc_trailer :: "int option"
  go_output :: string
  go_stderr :: string
  go_refused :: "string option"
  go_overflow :: bool
  go_duration :: rat
  go_lines :: "string list"

record drive_vars =
  dv_lines :: "string list"
  dv_stderr :: "string list"
  dv_total :: nat
  dv_overflow :: bool
  dv_locked :: bool
  dv_trailer :: bool
  dv_released :: bool
  dv_killed :: bool

definition drive_init :: drive_vars where
  "drive_init = \<lparr>dv_lines = [], dv_stderr = [], dv_total = 0, dv_overflow = False, dv_locked = False,
     dv_trailer = False, dv_released = False, dv_killed = False\<rparr>"

text \<open>A write to a closed file raises; a broken pipe is ignored, so the text counts as sent.\<close>

definition write_stdin :: "gevent \<Rightarrow> ('x guard_state_scheme, unit) act" where
  "write_stdin ev = awith (\<lambda>s. if gs_stdin s then guard_event ev else araise (ValueError ''write to closed file''))"

definition close_stdin :: "('x guard_state_scheme, unit) act" where
  "close_stdin = abind (aset (\<lambda>s. s\<lparr>gs_stdin := False\<rparr>)) (\<lambda>_. guard_event Eof)"

definition proc_poll :: "guard_world \<Rightarrow> ('x guard_state_scheme, int option) act" where
  "proc_poll w = awith (\<lambda>s.
     let rc = (case gs_returncode s of None \<Rightarrow> gw_exit w (gs_polls s) | r \<Rightarrow> r) in
     abind (aset (\<lambda>s. s\<lparr>gs_polls := Suc (gs_polls s), gs_returncode := rc\<rparr>)) (\<lambda>_. aret rc))"

definition read_line :: "guard_world \<Rightarrow> ('x guard_state_scheme, string \<times> nat) act" where
  "read_line w = awith (\<lambda>s. abind (aset (\<lambda>s. s\<lparr>gs_lines := Suc (gs_lines s)\<rparr>)) (\<lambda>_. aret (gw_line w (gs_lines s))))"

definition read_err :: "guard_world \<Rightarrow> ('x guard_state_scheme, string) act" where
  "read_err w = awith (\<lambda>s. abind (aset (\<lambda>s. s\<lparr>gs_errs := Suc (gs_errs s)\<rparr>)) (\<lambda>_. aret (gw_err w (gs_errs s))))"

definition select_ready :: "guard_world \<Rightarrow> ('x guard_state_scheme, bool) act" where
  "select_ready w = awith (\<lambda>s. abind (aset (\<lambda>s. s\<lparr>gs_selects := Suc (gs_selects s)\<rparr>)) (\<lambda>_. aret (gw_ready w (gs_selects s))))"

text \<open>The second word of the first \<open>TESTUDO_LOCKED\<close> line.\<close>

definition observed_nonce :: "string list \<Rightarrow> exn + string" where
  "observed_nonce lines = (case split_on (CHR '' '') (py_strip (hd (filter locked_line lines))) of
     _ # b # _ \<Rightarrow> Inr b | _ \<Rightarrow> Inl (IndexError ''list index out of range''))"

definition ask_permission :: "'x guard_state_scheme guard_controller \<Rightarrow> string \<Rightarrow> ('x guard_state_scheme, bool) act" where
  "ask_permission c observed = (if observed \<noteq> gc_nonce c then aret False
     else abind (gc_permits c) (\<lambda>ok. abind (guard_event (Permit ok)) (\<lambda>_. aret ok)))"

definition gate_step :: "'x guard_state_scheme guard_controller \<Rightarrow> drive_vars \<Rightarrow> ('x guard_state_scheme, drive_vars) act" where
  "gate_step c v =
     (if \<not> dv_locked v \<and> list_ex locked_line (dv_lines v) then
        abind (alift (observed_nonce (dv_lines v))) (\<lambda>observed.
        abind (ask_permission c observed) (\<lambda>ok.
        if ok then abind (write_stdin (Go (gc_nonce c))) (\<lambda>_. aret (v\<lparr>dv_locked := True\<rparr>))
        else abind close_stdin (\<lambda>_. aret (v\<lparr>dv_locked := True, dv_released := True\<rparr>))))
      else aret v)"

definition trailer_step :: "'x guard_state_scheme guard_controller \<Rightarrow> drive_vars \<Rightarrow> ('x guard_state_scheme, drive_vars) act" where
  "trailer_step c v =
     (if dv_locked v \<and> \<not> dv_trailer v \<and> dv_lines v \<noteq> [] \<and> exact_trailer_rc (last (dv_lines v)) (gc_nonce c) \<noteq> None then
        (let out = operation_output (concat (dv_lines v)) (gc_nonce c) in
        abind (guard_event (Reconciled out)) (\<lambda>_.
        abind (gc_reconcile c out) (\<lambda>_.
        abind (write_stdin (Release (gc_nonce c))) (\<lambda>_.
        aret (v\<lparr>dv_trailer := True, dv_released := True\<rparr>)))))
      else aret v)"

definition kill_proc :: "('x guard_state_scheme, unit) act" where
  "kill_proc = guard_event Killed"

definition exit_check :: "guard_world \<Rightarrow> drive_vars \<Rightarrow> ('x guard_state_scheme, bool) act" where
  "exit_check w v = abind (proc_poll w) (\<lambda>rc.
     if dv_released v then
       (if rc \<noteq> None then aret True else abind (proc_poll w) (\<lambda>_. aret False))
     else aret (rc \<noteq> None))"

definition drive_body :: "guard_world \<Rightarrow> 'x guard_state_scheme guard_controller \<Rightarrow> drive_vars
    \<Rightarrow> ('x guard_state_scheme, bool \<times> drive_vars) act" where
  "drive_body w c v =
     abind (read_line w) (\<lambda>(chunk, bytes).
     let v1 = (if chunk = [] then v else v\<lparr>dv_total := dv_total v + bytes\<rparr>) in
     if chunk \<noteq> [] \<and> max_output_bytes < dv_total v1 then
       abind kill_proc (\<lambda>_. aret (True, v1\<lparr>dv_overflow := True, dv_killed := True\<rparr>))
     else
       let v2 = (if chunk = [] then v1 else v1\<lparr>dv_lines := dv_lines v1 @ [chunk]\<rparr>) in
       abind (read_err w) (\<lambda>err.
       abind (gate_step c (v2\<lparr>dv_stderr := dv_stderr v2 @ [err]\<rparr>)) (\<lambda>v3.
       abind (trailer_step c v3) (\<lambda>v4.
       abind (exit_check w v4) (\<lambda>stop. aret (stop, v4))))))"

fun drive_loop :: "nat \<Rightarrow> guard_world \<Rightarrow> 'x guard_state_scheme guard_controller \<Rightarrow> rat \<Rightarrow> drive_vars
    \<Rightarrow> ('x guard_state_scheme, drive_vars) act" where
  "drive_loop 0 w c deadline v = araise (RuntimeError ''out of fuel'')"
| "drive_loop (Suc fuel) w c deadline v =
     abind (monotonic w) (\<lambda>now.
     if deadline \<le> now then abind kill_proc (\<lambda>_. aret (v\<lparr>dv_killed := True\<rparr>))
     else abind (drive_body w c v) (\<lambda>(stop, v'). if stop then aret v' else drive_loop fuel w c deadline v'))"

text \<open>Reading to the end of the output.\<close>

fun drain_loop :: "nat \<Rightarrow> guard_world \<Rightarrow> drive_vars \<Rightarrow> ('x guard_state_scheme, drive_vars) act" where
  "drain_loop 0 w v = araise (RuntimeError ''out of fuel'')"
| "drain_loop (Suc fuel) w v =
     abind (select_ready w) (\<lambda>ready.
     if \<not> ready then abind (proc_poll w) (\<lambda>rc. if rc \<noteq> None then aret v else drain_loop fuel w v)
     else abind (read_line w) (\<lambda>(chunk, bytes).
       if chunk \<noteq> [] then
         (let v1 = v\<lparr>dv_total := dv_total v + bytes\<rparr> in
          if max_output_bytes < dv_total v1 then aret (v1\<lparr>dv_overflow := True\<rparr>)
          else drain_loop fuel w (v1\<lparr>dv_lines := dv_lines v1 @ [chunk]\<rparr>))
       else abind (proc_poll w) (\<lambda>rc. if rc \<noteq> None then aret v else drain_loop fuel w v)))"

definition drive_outcome :: "string \<Rightarrow> drive_vars \<Rightarrow> int option \<Rightarrow> guard_outcome" where
  "drive_outcome nonce v returncode = (let raw = concat (dv_lines v) in
     \<lparr>go_locked = dv_locked v, go_exit_code = (if dv_killed v then None else returncode),
      go_rc_trailer = parse_last_trailer raw nonce, go_output = operation_output raw nonce,
      go_stderr = concat (dv_stderr v), go_refused = None, go_overflow = dv_overflow v, go_duration = 0,
      go_lines = filter (\<lambda>l. l \<noteq> []) (py_splitlines raw)\<rparr>)"

definition drive_protocol :: "nat \<Rightarrow> guard_world \<Rightarrow> 'x guard_state_scheme guard_controller \<Rightarrow> rat
    \<Rightarrow> ('x guard_state_scheme, guard_outcome) act" where
  "drive_protocol fuel w c timeout =
     abind (monotonic w) (\<lambda>now.
     abind (drive_loop fuel w c (now + timeout) drive_init) (\<lambda>v.
     abind (drain_loop fuel w v) (\<lambda>v'.
     awith (\<lambda>s. aret (drive_outcome (gc_nonce c) v' (gs_returncode s))))))"

definition refused_reason :: "int option \<Rightarrow> string option" where
  "refused_reason rc = (if rc = Some 75 then Some ''BUSY'' else if rc = Some 77 then Some ''GATE_REFUSED''
     else if rc = Some 76 then Some ''GATE_TIMEOUT'' else if rc = Some 73 then Some ''UNAVAILABLE''
     else if rc = Some 74 then Some ''UNSAFE'' else None)"

definition guard_remote :: "string \<Rightarrow> 's guard_controller \<Rightarrow> string list \<Rightarrow> string" where
  "guard_remote guard_v1 c argv = remote_command guard_v1 ([gc_lock_basename c, gc_nonce c] @ argv)"

definition operate :: "nat \<Rightarrow> guard_world \<Rightarrow> string \<Rightarrow> 'x guard_state_scheme guard_controller \<Rightarrow> string list \<Rightarrow> rat
    \<Rightarrow> ('x guard_state_scheme, guard_outcome) act" where
  "operate fuel w guard_v1 c operation_argv timeout =
     abind (monotonic w) (\<lambda>started.
     abind (may_raise (gw_spawn w)) (\<lambda>_.
     abind (aset (\<lambda>s. s\<lparr>gs_stdin := True, gs_returncode := None\<rparr>)) (\<lambda>_.
     abind (guard_event (Spawned (ssh_argv c (guard_remote guard_v1 c operation_argv)) (gc_nonce c))) (\<lambda>_.
     abind (drive_protocol fuel w c timeout) (\<lambda>outcome.
     abind (monotonic w) (\<lambda>ended.
     aret (outcome\<lparr>go_duration := ended - started, go_refused := refused_reason (go_exit_code outcome)\<rparr>)))))))"

section \<open>The guard protocol\<close>

text \<open>
  What a guarded operation may do, and in which order: take the local lock; start the remote
  guard; poll once the guard reports its lock; send \<open>GO\<close> only on a positive poll, and close the
  input otherwise; reconcile on the trailer; then release; and give the local lock back from
  any state. A phase carries the nonce of the guard it belongs to.
\<close>

datatype gphase =
    POut | PHeld | PWait string | PPermitted string | PDenied string | PGo string | PSettled string
  | PReleased string | PRefused string | PDead

fun gstep :: "gphase \<Rightarrow> gevent \<Rightarrow> gphase option" where
  "gstep POut Locked = Some PHeld"
| "gstep POut _ = None"
| "gstep p Unlocked = Some POut"
| "gstep PHeld (Spawned _ n) = Some (PWait n)"
| "gstep (PWait n) (Permit ok) = Some (if ok then PPermitted n else PDenied n)"
| "gstep (PWait n) Eof = Some (PRefused n)"
| "gstep (PPermitted n) (Go m) = (if m = n then Some (PGo n) else None)"
| "gstep (PDenied n) Eof = Some (PRefused n)"
| "gstep (PGo n) (Reconciled _) = Some (PSettled n)"
| "gstep (PSettled n) (Release m) = (if m = n then Some (PReleased n) else None)"
| "gstep (PRefused n) (Reconciled _) = Some (PRefused n)"
| "gstep (PWait n) Killed = Some PDead"
| "gstep (PGo n) Killed = Some PDead"
| "gstep (PReleased n) Killed = Some PDead"
| "gstep (PRefused n) Killed = Some PDead"
| "gstep _ _ = None"

definition trace_phase :: "gevent list \<Rightarrow> gphase option" where
  "trace_phase es = foldl (\<lambda>p e. Option.bind p (\<lambda>p. gstep p e)) (Some POut) es"

lemma trace_phase_Nil [simp]: "trace_phase [] = Some POut"
  by (simp add: trace_phase_def)

lemma trace_phase_append [simp]:
  "trace_phase (es @ xs) = foldl (\<lambda>p e. Option.bind p (\<lambda>p. gstep p e)) (trace_phase es) xs"
  by (simp add: trace_phase_def)

definition in_phase :: "gphase \<Rightarrow> 'x guard_state_scheme \<Rightarrow> bool" where
  "in_phase p s \<longleftrightarrow> trace_phase (gs_trace s) = Some p"

text \<open>An operation is under way: the lock is held and the trace is a run of the protocol.\<close>

definition live :: "'x guard_state_scheme \<Rightarrow> bool" where
  "live s \<longleftrightarrow> gs_fd s \<and> gs_flocked s \<and> (\<exists>p. in_phase p s \<and> p \<noteq> POut)"

definition idle :: "'x guard_state_scheme \<Rightarrow> bool" where
  "idle s \<longleftrightarrow> \<not> gs_fd s \<and> \<not> gs_flocked s \<and> in_phase POut s"

definition guard_same :: "'x guard_state_scheme \<Rightarrow> 'x guard_state_scheme \<Rightarrow> bool" where
  "guard_same s s' \<longleftrightarrow> gs_fd s' = gs_fd s \<and> gs_flocked s' = gs_flocked s \<and> gs_stdin s' = gs_stdin s \<and> gs_trace s' = gs_trace s"

text \<open>The callbacks may change what extends the state of the guard; the calls of the guard do not.\<close>

definition guard_read :: "'x guard_state_scheme \<Rightarrow> 'x guard_state_scheme \<Rightarrow> bool" where
  "guard_read s s' \<longleftrightarrow> guard_same s s' \<and> guard_state.more s' = guard_state.more s"

lemma guard_read_preorder: "reflp guard_read" "transp guard_read"
  by (auto simp: guard_read_def guard_same_def intro!: reflpI transpI)

lemma guard_same_preorder: "reflp guard_same" "transp guard_same"
  by (auto simp: guard_same_def intro!: reflpI transpI)

lemma guard_same_phase: "guard_same s s' \<Longrightarrow> in_phase p s \<Longrightarrow> in_phase p s'"
  by (simp add: guard_same_def in_phase_def)

lemma guard_same_live: "guard_same s s' \<Longrightarrow> live s \<Longrightarrow> live s'"
  by (simp add: guard_same_def live_def in_phase_def)

lemma keeps_guard_reads:
  "keeps guard_read (monotonic w)" "keeps guard_read (proc_poll w)" "keeps guard_read (read_line w)"
  "keeps guard_read (read_err w)" "keeps guard_read (select_ready w)" "keeps guard_read (may_raise x)"
  by (auto simp: keeps_def guard_read_def guard_same_def monotonic_def proc_poll_def read_line_def read_err_def select_ready_def
      may_raise_def Let_def split: option.splits)

lemma keeps_drain: "keeps guard_read (drain_loop fuel w v)"
proof (induction fuel arbitrary: v)
  case 0
  show ?case unfolding drain_loop.simps by (intro keeps_araise guard_read_preorder)
next
  case (Suc fuel)
  then show ?case
    unfolding drain_loop.simps Let_def by (intro keeps_rules keeps_guard_reads guard_read_preorder)
qed

lemma unlock_phase: "\<lbrakk>in_phase p s; p \<noteq> POut\<rbrakk> \<Longrightarrow> in_phase POut (s\<lparr>gs_trace := gs_trace s @ [Unlocked]\<rparr>)"
  by (cases p) (simp_all add: in_phase_def)

lemma release_idle: "live s \<Longrightarrow> wp release (\<lambda>_. idle) (\<lambda>_ _. False) s"
  unfolding release_def close_fd_def guard_event_def
  by (auto simp: wp_rules live_def idle_def in_phase_def dest: unlock_phase [unfolded in_phase_def])

section \<open>Local lock\<close>

lemma flock_loop_post:
  assumes "gs_fd s" and "\<not> gs_flocked s" and "in_phase POut s"
  shows "wp (flock_loop fuel w d) (\<lambda>_ s'. gs_fd s' \<and> gs_flocked s' \<and> in_phase PHeld s')
    (\<lambda>_ s'. \<not> gs_flocked s' \<and> in_phase POut s') s"
  using assms
proof (induction fuel arbitrary: s)
  case (Suc fuel)
  then show ?case
    by (simp add: wp_rules try_flock_def guard_event_def monotonic_def close_fd_def in_phase_def)
qed (simp add: wp_rules)

text \<open>\<open>acquire\<close> takes the lock, or raises and holds neither descriptor nor lock.\<close>

lemma acquire_post:
  assumes "idle s"
  shows "wp (acquire fuel w path) (\<lambda>_ s'. gs_fd s' \<and> gs_flocked s' \<and> in_phase PHeld s') (\<lambda>_. idle) s"
proof -
  let ?Q = "\<lambda>_ s'. gs_fd s' \<and> gs_flocked s' \<and> in_phase PHeld s'"
  have raises: "wp (may_raise x) (\<lambda>_. idle) (\<lambda>_. idle) s" if "idle s" for x s
    using that by (simp add: may_raise_def wp_rules split: option.split)
  have create: "wp (if b then aret () else may_raise x) (\<lambda>_. idle) (\<lambda>_. idle) s" if "idle s" for b x s
    using that raises [OF that, of x] by (simp add: wp_rules)
  have stat: "wp (stat_check w path) (\<lambda>_. idle) (\<lambda>_. idle) s" if "idle s" for s
    using that by (simp add: stat_check_def wp_rules split: sum.split)
  have loop: "wp (abind (aset (\<lambda>s. s\<lparr>gs_fd := True\<rparr>)) (\<lambda>_. acatch (\<lambda>_. True)
      (abind (monotonic w) (\<lambda>now. flock_loop fuel w (now + local_lock_wait_seconds)))
      (\<lambda>e. abind release (\<lambda>_. araise e)))) ?Q (\<lambda>_. idle) s" if "idle s" for s
  proof -
    let ?s = "s\<lparr>gs_fd := True, gs_ticks := Suc (gs_ticks s)\<rparr>"
    have "wp (flock_loop fuel w d) ?Q (\<lambda>e s'. wp (abind release (\<lambda>_. araise e)) ?Q (\<lambda>_. idle) s') ?s" for d
      by (rule wp_mono [OF flock_loop_post])
        (use that in \<open>simp_all add: idle_def in_phase_def wp_rules release_def close_fd_def\<close>)
    then show ?thesis by (simp add: wp_rules monotonic_def)
  qed
  have rest: "wp (if gw_symlink w then araise (LocalGuardError m)
      else abind (if gw_exists w then aret () else may_raise (gw_create w)) (\<lambda>_.
        abind (stat_check w path) (\<lambda>_. abind (may_raise (gw_open w)) (\<lambda>_.
        abind (aset (\<lambda>s. s\<lparr>gs_fd := True\<rparr>)) (\<lambda>_. acatch (\<lambda>_. True)
          (abind (monotonic w) (\<lambda>now. flock_loop fuel w (now + local_lock_wait_seconds)))
          (\<lambda>e. abind release (\<lambda>_. araise e))))))) ?Q (\<lambda>_. idle) s" if "idle s" for s m
  proof (cases "gw_symlink w")
    case True
    then show ?thesis using that by (simp add: wp_rules)
  next
    case False
    then show ?thesis
      using that by (simp only: if_False) (intro wp_bindI [OF create] wp_bindI [OF stat] wp_bindI [OF raises] loop)
  qed
  show ?thesis unfolding acquire_def by (rule wp_bindI [OF raises [OF assms] rest])
qed

section \<open>The controller follows the protocol\<close>

text \<open>The phase of a guard from the variables of its loop.\<close>

definition drive_phase :: "string \<Rightarrow> drive_vars \<Rightarrow> 'x guard_state_scheme \<Rightarrow> gphase" where
  "drive_phase n v s = (if dv_killed v then PDead else if \<not> dv_locked v then PWait n
     else if \<not> gs_stdin s then PRefused n else if dv_trailer v then PReleased n else PGo n)"

definition driving :: "string \<Rightarrow> drive_vars \<Rightarrow> 'x guard_state_scheme \<Rightarrow> bool" where
  "driving n v s \<longleftrightarrow> gs_fd s \<and> gs_flocked s \<and> in_phase (drive_phase n v s) s
     \<and> (\<not> dv_locked v \<longrightarrow> gs_stdin s \<and> \<not> dv_trailer v)"

lemma driving_live: "driving n v s \<Longrightarrow> live s"
  by (auto simp: driving_def live_def drive_phase_def split: if_splits)

lemma driving_same: "driving n v s \<Longrightarrow> guard_same s s' \<Longrightarrow> driving n v s'"
  by (auto simp: driving_def guard_same_def drive_phase_def in_phase_def)

lemma wp_read:
  assumes "keeps guard_read m" and "P s" and "\<And>s s'. P s \<Longrightarrow> guard_read s s' \<Longrightarrow> P s'"
  shows "wp m (\<lambda>_. P) (\<lambda>_. P) s"
  by (rule wp_mono [OF wp_keeps [OF assms(1)]]) (use assms(2,3) in blast)+

definition held :: "'x guard_state_scheme \<Rightarrow> bool" where
  "held s \<longleftrightarrow> gs_fd s \<and> gs_flocked s \<and> in_phase PHeld s"

lemma held_live: "held s \<Longrightarrow> live s"
  by (auto simp: held_def live_def)

lemma held_read: "held s \<Longrightarrow> guard_read s s' \<Longrightarrow> held s'"
  by (simp add: held_def guard_read_def guard_same_def in_phase_def)

text \<open>
  What the guard needs of its callbacks: neither touches the lock, the input of the process or
  the trace. What a client gains: \<open>N\<close>, \<open>A\<close> and \<open>B\<close> are its own facts before the poll, after a
  positive and after a negative one; reconciliation keeps \<open>A\<close>.
\<close>

locale guard_client =
  fixes c :: "'x guard_state_scheme guard_controller"
    and N :: "'x \<Rightarrow> bool" and A :: "'x \<Rightarrow> bool" and B :: "'x \<Rightarrow> bool"
  assumes permits: "N (guard_state.more s) \<Longrightarrow>
      wp (gc_permits c) (\<lambda>ok s'. guard_same s s' \<and> (if ok then A (guard_state.more s') else B (guard_state.more s')))
        (\<lambda>_ s'. guard_same s s') s"
    and reconcile: "wp (gc_reconcile c out)
        (\<lambda>_ s'. guard_same s s' \<and> (A (guard_state.more s) \<longrightarrow> A (guard_state.more s'))) (\<lambda>_ s'. guard_same s s') s"
begin

definition client :: "drive_vars \<Rightarrow> 'x guard_state_scheme \<Rightarrow> bool" where
  "client v s \<longleftrightarrow> driving (gc_nonce c) v s
     \<and> (if \<not> dv_locked v then N (guard_state.more s)
        else if gs_stdin s then A (guard_state.more s) else N (guard_state.more s) \<or> B (guard_state.more s))"

definition settled :: "'x guard_state_scheme \<Rightarrow> bool" where
  "settled s \<longleftrightarrow> live s \<and> (N (guard_state.more s) \<or> A (guard_state.more s) \<or> B (guard_state.more s))"

lemma client_settled: "client v s \<Longrightarrow> settled s"
  by (auto simp: client_def settled_def intro: driving_live split: if_splits)

lemma client_live: "client v s \<Longrightarrow> live s"
  by (auto simp: client_def intro: driving_live)

lemma settled_read: "settled s \<Longrightarrow> guard_read s s' \<Longrightarrow> settled s'"
  by (auto simp: settled_def guard_read_def intro: guard_same_live)

lemma wp_read_settled: "keeps guard_read m \<Longrightarrow> settled s \<Longrightarrow> wp m (\<lambda>_. settled) (\<lambda>_. live) s"
  by (rule wp_mono [OF wp_read [where P = settled]]) (assumption | erule (1) settled_read | simp add: settled_def)+

lemma client_read: "client v s \<Longrightarrow> guard_read s s' \<Longrightarrow> client v s'"
  by (auto simp: client_def guard_read_def guard_same_def driving_def drive_phase_def in_phase_def)

lemma wp_read_client:
  assumes "keeps guard_read m" and "client v s"
  shows "wp m (\<lambda>_. client v) (\<lambda>_. live) s"
  by (rule wp_mono [OF wp_read [OF assms(1), of "client v", OF assms(2) client_read]]) (auto intro: client_live)

lemma gate_step_client:
  assumes "client v s" and "\<not> dv_killed v"
  shows "wp (gate_step c v) (\<lambda>v' s'. client v' s' \<and> \<not> dv_killed v') (\<lambda>_. live) s"
proof (cases "\<not> dv_locked v \<and> list_ex locked_line (dv_lines v)")
  case True
  have N: "N (guard_state.more s)" using assms(1) True by (simp add: client_def)
  have wait: "gs_fd s'" "gs_flocked s'" "gs_stdin s'" "trace_phase (gs_trace s') = Some (PWait (gc_nonce c))"
    "\<not> dv_trailer v" if "guard_same s s'" for s'
    using assms True that by (simp_all add: client_def driving_def drive_phase_def in_phase_def guard_same_def)
  let ?Q = "\<lambda>v' s'. client v' s' \<and> \<not> dv_killed v'"
  let ?next = "\<lambda>ok. if ok then abind (write_stdin (Go (gc_nonce c))) (\<lambda>_. aret (v\<lparr>dv_locked := True\<rparr>))
        else abind close_stdin (\<lambda>_. aret (v\<lparr>dv_locked := True, dv_released := True\<rparr>))"
  have "wp (abind (ask_permission c o') ?next) ?Q (\<lambda>_. live) s" if "o' = gc_nonce c" for o'
  proof -
    have "wp (abind (abind (guard_event (Permit ok)) (\<lambda>_. aret ok)) ?next) ?Q (\<lambda>_. live) s'"
      if "guard_same s s'" "if ok then A (guard_state.more s') else B (guard_state.more s')" for ok s'
      using wait [OF that(1)] that(2) assms(2)
      by (cases ok) (simp_all add: wp_rules guard_event_def write_stdin_def close_stdin_def client_def driving_def drive_phase_def in_phase_def)
    note ok = this
    have raised: "live s'" if "guard_same s s'" for s'
      using wait [OF that] by (auto simp: live_def in_phase_def)
    have "wp (gc_permits c) (\<lambda>ok. wp (abind (abind (guard_event (Permit ok)) (\<lambda>_. aret ok)) ?next) ?Q (\<lambda>_. live)) (\<lambda>_. live) s"
      by (rule wp_mono [OF permits [OF N]]) (use ok raised in blast)+
    then show ?thesis
      using that by (simp add: ask_permission_def wp_abind)
  qed
  moreover have "wp (abind (ask_permission c o') ?next) ?Q (\<lambda>_. live) s" if "o' \<noteq> gc_nonce c" for o'
  proof -
    have "guard_same s s" by (simp add: guard_same_def)
    from wait [OF this] N show ?thesis
      using that assms(2)
      by (simp add: ask_permission_def wp_rules close_stdin_def guard_event_def client_def driving_def drive_phase_def in_phase_def)
  qed
  ultimately have any: "wp (abind (ask_permission c o') ?next) ?Q (\<lambda>_. live) s" for o' by blast
  have "live s" using assms(1) by (rule client_live)
  then show ?thesis
    using True any by (simp add: gate_step_def wp_abind wp_alift split: sum.split)
next
  case False
  then show ?thesis using assms unfolding gate_step_def by (simp only: if_False wp_aret) simp
qed

lemma trailer_step_client:
  assumes "client v s" and "\<not> dv_killed v"
  shows "wp (trailer_step c v) (\<lambda>v' s'. client v' s' \<and> \<not> dv_killed v') (\<lambda>_. live) s"
proof (cases "dv_locked v \<and> \<not> dv_trailer v \<and> dv_lines v \<noteq> [] \<and> exact_trailer_rc (last (dv_lines v)) (gc_nonce c) \<noteq> None")
  case True
  let ?out = "operation_output (concat (dv_lines v)) (gc_nonce c)"
  let ?s = "s\<lparr>gs_trace := gs_trace s @ [Reconciled ?out]\<rparr>"
  let ?p = "if gs_stdin s then PSettled (gc_nonce c) else PRefused (gc_nonce c)"
  have fd: "gs_fd s'" "gs_flocked s'" "gs_stdin s' = gs_stdin s" "trace_phase (gs_trace s') = Some ?p" if "guard_same ?s s'" for s'
    using assms True that by (simp_all add: client_def driving_def drive_phase_def in_phase_def guard_same_def)
  have A: "gs_stdin s \<Longrightarrow> A (guard_state.more ?s)" using assms True by (simp add: client_def)
  have ok: "wp (abind (write_stdin (Release (gc_nonce c))) (\<lambda>_. aret (v\<lparr>dv_trailer := True, dv_released := True\<rparr>)))
      (\<lambda>v' s'. client v' s' \<and> \<not> dv_killed v') (\<lambda>_. live) s'"
    if "guard_same ?s s'" "A (guard_state.more ?s) \<longrightarrow> A (guard_state.more s')" for s'
    using fd [OF that(1)] that(2) A True assms(2)
    by (cases "gs_stdin s")
      (auto simp: wp_rules guard_event_def write_stdin_def client_def driving_def drive_phase_def in_phase_def live_def)
  have raised: "live s'" if "guard_same ?s s'" for s' using fd [OF that] by (auto simp: live_def in_phase_def)
  have "wp (gc_reconcile c ?out) (\<lambda>_. wp (abind (write_stdin (Release (gc_nonce c))) (\<lambda>_.
      aret (v\<lparr>dv_trailer := True, dv_released := True\<rparr>))) (\<lambda>v' s'. client v' s' \<and> \<not> dv_killed v') (\<lambda>_. live))
      (\<lambda>_. live) ?s"
    by (rule wp_mono [OF reconcile]) (use ok raised in blast)+
  then show ?thesis using True by (simp add: trailer_step_def Let_def wp_abind wp_aset guard_event_def)
next
  case False
  then show ?thesis using assms unfolding trailer_step_def by (simp only: if_False wp_aret) simp
qed

lemma kill_client:
  "client v s \<Longrightarrow> \<not> dv_killed v \<Longrightarrow> wp kill_proc (\<lambda>_. client (v\<lparr>dv_killed := True\<rparr>)) (\<lambda>_. live) s"
  by (auto simp: kill_proc_def guard_event_def wp_rules client_def driving_def drive_phase_def in_phase_def)

lemma client_vars:
  "client v s \<Longrightarrow> dv_locked v' = dv_locked v \<Longrightarrow> dv_trailer v' = dv_trailer v \<Longrightarrow> dv_killed v' = dv_killed v \<Longrightarrow> client v' s"
  by (auto simp: client_def driving_def drive_phase_def)

lemma drive_body_client:
  assumes "client v s" and "\<not> dv_killed v"
  shows "wp (drive_body w c v) (\<lambda>(stop, v') s'. client v' s' \<and> (\<not> stop \<longrightarrow> \<not> dv_killed v')) (\<lambda>_. live) s"
  unfolding drive_body_def
proof (rule wp_bindI [OF wp_read_client [OF keeps_guard_reads(3) assms(1)]])
  fix x :: "string \<times> nat" and s1 :: "'x guard_state_scheme"
  assume s1: "client v s1"
  obtain chunk bytes where x: "x = (chunk, bytes)" by fastforce
  define v1 where "v1 = (if chunk = [] then v else v\<lparr>dv_total := dv_total v + bytes\<rparr>)"
  have v1: "client v1 s1" "\<not> dv_killed v1"
    using s1 assms(2) by (auto simp: v1_def intro: client_vars)
  let ?Q = "\<lambda>(stop, v') s'. client v' s' \<and> (\<not> stop \<longrightarrow> \<not> dv_killed v')"
  have over: "wp (abind kill_proc (\<lambda>_. aret (True, v1\<lparr>dv_overflow := True, dv_killed := True\<rparr>))) ?Q (\<lambda>_. live) s1"
    by (rule wp_bindI [OF kill_client [OF v1]]) (auto simp: wp_rules elim: client_vars)
  have rest: "wp (abind (read_err w) (\<lambda>err.
       abind (gate_step c (v2\<lparr>dv_stderr := dv_stderr v2 @ [err]\<rparr>)) (\<lambda>v3.
       abind (trailer_step c v3) (\<lambda>v4.
       abind (exit_check w v4) (\<lambda>stop. aret (stop, v4)))))) ?Q (\<lambda>_. live) s1"
    if v2: "client v2 s1" "\<not> dv_killed v2" for v2
  proof (rule wp_bindI [OF wp_read_client [OF keeps_guard_reads(4) v2(1)]])
    fix err and s2 :: "'x guard_state_scheme"
    assume "client v2 s2"
    then have "client (v2\<lparr>dv_stderr := dv_stderr v2 @ [err]\<rparr>) s2" by (rule client_vars) simp_all
    then show "wp (abind (gate_step c (v2\<lparr>dv_stderr := dv_stderr v2 @ [err]\<rparr>)) (\<lambda>v3.
       abind (trailer_step c v3) (\<lambda>v4. abind (exit_check w v4) (\<lambda>stop. aret (stop, v4))))) ?Q (\<lambda>_. live) s2"
    proof (rule wp_bindI [OF gate_step_client])
      fix v3 and s3 :: "'x guard_state_scheme"
      assume v3: "client v3 s3 \<and> \<not> dv_killed v3"
      show "wp (abind (trailer_step c v3) (\<lambda>v4. abind (exit_check w v4) (\<lambda>stop. aret (stop, v4)))) ?Q (\<lambda>_. live) s3"
      proof (rule wp_bindI [OF trailer_step_client])
        fix v4 and s4 :: "'x guard_state_scheme"
        assume v4: "client v4 s4 \<and> \<not> dv_killed v4"
        have "keeps guard_read (exit_check w v4)"
          unfolding exit_check_def by (intro keeps_rules keeps_guard_reads guard_read_preorder)
        then show "wp (abind (exit_check w v4) (\<lambda>stop. aret (stop, v4))) ?Q (\<lambda>_. live) s4"
          using v4 by (intro wp_bindI [OF wp_read_client]) (auto simp: wp_rules)
      qed (use v3 in simp_all)
    qed (use v2 in simp)
  qed
  show "wp (case x of (chunk, bytes) \<Rightarrow>
     let v1 = (if chunk = [] then v else v\<lparr>dv_total := dv_total v + bytes\<rparr>) in
     if chunk \<noteq> [] \<and> max_output_bytes < dv_total v1 then
       abind kill_proc (\<lambda>_. aret (True, v1\<lparr>dv_overflow := True, dv_killed := True\<rparr>))
     else
       let v2 = (if chunk = [] then v1 else v1\<lparr>dv_lines := dv_lines v1 @ [chunk]\<rparr>) in
       abind (read_err w) (\<lambda>err.
       abind (gate_step c (v2\<lparr>dv_stderr := dv_stderr v2 @ [err]\<rparr>)) (\<lambda>v3.
       abind (trailer_step c v3) (\<lambda>v4.
       abind (exit_check w v4) (\<lambda>stop. aret (stop, v4)))))) ?Q (\<lambda>_. live) s1"
  proof -
    define v2 where "v2 = (if chunk = [] then v1 else v1\<lparr>dv_lines := dv_lines v1 @ [chunk]\<rparr>)"
    have "client v2 s1" "\<not> dv_killed v2" using v1 by (auto simp: v2_def intro: client_vars)
    from over rest [OF this] show ?thesis
      unfolding x prod.case Let_def v1_def [symmetric] v2_def [symmetric]
      by (cases "chunk \<noteq> [] \<and> max_output_bytes < dv_total v1") (simp_all only: if_True if_False not_False_eq_True simp_thms)
  qed
qed

lemma drive_loop_client:
  fixes s :: "'x guard_state_scheme"
  assumes "client v s" and "\<not> dv_killed v"
  shows "wp (drive_loop fuel w c d v) (\<lambda>v'. client v') (\<lambda>_. live) s"
  using assms
proof (induction fuel arbitrary: v s)
  case 0
  then show ?case unfolding drive_loop.simps wp_araise by (auto intro: client_live)
next
  case (Suc fuel)
  have body: "wp (abind (drive_body w c v) (\<lambda>(stop, v'). if stop then aret v' else drive_loop fuel w c d v'))
      (\<lambda>v'. client v') (\<lambda>_. live) s1" if "client v s1" for s1 :: "'x guard_state_scheme"
    by (rule wp_bindI [OF drive_body_client [OF that Suc.prems(2)]])
      (auto simp: wp_rules intro!: Suc.IH split: prod.splits)
  have kill: "wp (abind kill_proc (\<lambda>_. aret (v\<lparr>dv_killed := True\<rparr>))) (\<lambda>v'. client v') (\<lambda>_. live) s1"
    if "client v s1" for s1 :: "'x guard_state_scheme"
    by (rule wp_bindI [OF kill_client [OF that Suc.prems(2)]]) (simp add: wp_rules)
  show ?case
    unfolding drive_loop.simps
  proof (rule wp_bindI [OF wp_read_client [OF keeps_guard_reads(1) Suc.prems(1)]])
    fix now and s1 :: "'x guard_state_scheme"
    assume "client v s1"
    then show "wp (if d \<le> now then abind kill_proc (\<lambda>_. aret (v\<lparr>dv_killed := True\<rparr>))
        else abind (drive_body w c v) (\<lambda>(stop, v'). if stop then aret v' else drive_loop fuel w c d v'))
        (\<lambda>v'. client v') (\<lambda>_. live) s1"
      using body kill by (cases "d \<le> now") (simp_all only: if_True if_False)
  qed
qed

lemma drive_protocol_settled:
  fixes s :: "'x guard_state_scheme"
  assumes "client drive_init s"
  shows "wp (drive_protocol fuel w c timeout) (\<lambda>_. settled) (\<lambda>_. live) s"
  unfolding drive_protocol_def
proof (rule wp_bindI [OF wp_read_client [OF keeps_guard_reads(1) assms]])
  fix now :: rat and s1 :: "'x guard_state_scheme"
  assume s1: "client drive_init s1"
  show "wp (abind (drive_loop fuel w c (now + timeout) drive_init) (\<lambda>v. abind (drain_loop fuel w v) (\<lambda>v'.
     awith (\<lambda>s. aret (drive_outcome (gc_nonce c) v' (gs_returncode s)))))) (\<lambda>_. settled) (\<lambda>_. live) s1"
  proof (rule wp_bindI [OF drive_loop_client [OF s1]])
    fix v and s2 :: "'x guard_state_scheme"
    assume "client v s2"
    then show "wp (abind (drain_loop fuel w v) (\<lambda>v'. awith (\<lambda>s. aret (drive_outcome (gc_nonce c) v' (gs_returncode s)))))
        (\<lambda>_. settled) (\<lambda>_. live) s2"
      by (intro wp_bindI [OF wp_read_settled [OF keeps_drain client_settled]]) (auto simp: wp_rules)
  qed (simp add: drive_init_def)
qed

lemma wp_read_held:
  assumes "keeps guard_read m" and "held s \<and> N (guard_state.more s)"
  shows "wp m (\<lambda>_ s. held s \<and> N (guard_state.more s)) (\<lambda>_. live) s"
  by (rule wp_mono [OF wp_read [OF assms(1), where P = "\<lambda>s. held s \<and> N (guard_state.more s)", OF assms(2)]])
    (auto intro: held_read held_live simp: guard_read_def)

lemma operate_settled:
  assumes "held s" and "N (guard_state.more s)"
  shows "wp (operate fuel w g c argv timeout) (\<lambda>_. settled) (\<lambda>_. live) s"
proof -
  have start: "held s \<and> N (guard_state.more s)" using assms by blast
  have spawn: "wp (guard_event (Spawned (ssh_argv c (guard_remote g c argv)) (gc_nonce c)))
      (\<lambda>_. client drive_init) (\<lambda>_. live) (s\<lparr>gs_stdin := True, gs_returncode := None\<rparr>)"
    if "held s \<and> N (guard_state.more s)" for s
    using that by (simp add: guard_event_def wp_rules held_def client_def driving_def drive_phase_def drive_init_def in_phase_def)
  show ?thesis
    unfolding operate_def
    by (rule wp_bindI [OF wp_read_held [OF keeps_guard_reads(1) start]],
        rule wp_bindI [OF wp_read_held [OF keeps_guard_reads(6)]], assumption,
        unfold wp_abind wp_aset, rule wp_mono [OF spawn], assumption,
        rule wp_mono [OF drive_protocol_settled], assumption,
        rule wp_mono [OF wp_read_settled [OF keeps_guard_reads(1)]], assumption)
      (simp_all add: wp_rules)
qed

end

section \<open>Facts of the protocol\<close>

lemma gstep_permitted: "gstep p e = Some (PPermitted n) \<Longrightarrow> e = Permit True"
  by (cases p; cases e) (auto split: if_splits)

lemma gstep_settled: "gstep p e = Some (PSettled n) \<Longrightarrow> \<exists>out. e = Reconciled out \<and> p = PGo n"
  by (cases p; cases e) (auto split: if_splits)

lemma foldl_none: "foldl (\<lambda>p e. Option.bind p (\<lambda>p. gstep p e)) None es = None"
  by (induction es) simp_all

lemma trace_split:
  assumes "trace_phase (xs @ e # ys) \<noteq> None"
  shows "\<exists>p q. trace_phase xs = Some p \<and> gstep p e = Some q"
proof (cases "trace_phase xs")
  case (Some p)
  then show ?thesis using assms foldl_none by (cases "gstep p e") simp_all
qed (use assms foldl_none in simp)

lemma phase_last: "trace_phase xs = Some p \<Longrightarrow> p \<noteq> POut \<Longrightarrow> \<exists>ys e q. xs = ys @ [e] \<and> trace_phase ys = Some q \<and> gstep q e = Some p"
  by (cases xs rule: rev_cases) (auto split: bind_splits)

text \<open>\<open>GO\<close> directly follows a positive poll, and \<open>RELEASE\<close> a reconciliation of what \<open>GO\<close> started.\<close>

lemma go_after_permit:
  assumes "trace_phase (xs @ Go n # ys) \<noteq> None"
  shows "\<exists>zs. xs = zs @ [Permit True]"
proof -
  obtain p where p: "trace_phase xs = Some p" "gstep p (Go n) \<noteq> None" using trace_split [OF assms] by auto
  then have "\<exists>m. p = PPermitted m" by (cases p) simp_all
  then show ?thesis using phase_last [OF p(1)] gstep_permitted by fastforce
qed

lemma release_after_go:
  assumes "trace_phase (xs @ Release n # ys) \<noteq> None"
  shows "\<exists>zs out. xs = zs @ [Reconciled out] \<and> trace_phase zs = Some (PGo n)"
proof -
  obtain p where p: "trace_phase xs = Some p" "gstep p (Release n) \<noteq> None" using trace_split [OF assms] by auto
  then have "p = PSettled n" by (cases p) (auto split: if_splits)
  then show ?thesis using phase_last [OF p(1)] gstep_settled by fastforce
qed

section \<open>The trailer\<close>

text \<open>
  A reference for the parser: from the first trailer on, nothing else may look like the
  protocol, and then the last trailer counts.
\<close>

definition trailer_spec :: "string \<Rightarrow> string list \<Rightarrow> int option" where
  "trailer_spec nonce lines =
     (let rest = dropWhile (\<lambda>l. exact_trailer_rc l nonce = None) lines;
          trailers = filter (\<lambda>l. exact_trailer_rc l nonce \<noteq> None) rest
      in if rest = [] \<or> list_ex (\<lambda>l. exact_trailer_rc l nonce = None \<and> protocol_shaped l) rest then None
         else exact_trailer_rc (last trailers) nonce)"

lemma last_trailer_Some:
  "last_trailer nonce (Some r) lines =
     (if list_ex (\<lambda>l. exact_trailer_rc l nonce = None \<and> protocol_shaped l) lines then None
      else case filter (\<lambda>l. exact_trailer_rc l nonce \<noteq> None) lines of
        [] \<Rightarrow> Some r | ts \<Rightarrow> exact_trailer_rc (last ts) nonce)"
proof (induction lines arbitrary: r)
  case (Cons l lines)
  show ?case
  proof (cases "exact_trailer_rc l nonce")
    case None
    then show ?thesis using Cons [of r] by simp
  next
    case (Some rc)
    then show ?thesis
      using Cons [of rc] by (cases "filter (\<lambda>l. exact_trailer_rc l nonce \<noteq> None) lines") simp_all
  qed
qed simp


section \<open>Waiting for the lock ends\<close>

lemma flock_loop_ends:
  assumes "d \<le> gw_clock w (gs_ticks s + k)" and "k < fuel"
  shows "wp (flock_loop fuel w d) (\<lambda>_ _. True) (\<lambda>e _. \<exists>m. e = LocalGuardError m) s"
  using assms
proof (induction fuel arbitrary: s k)
  case (Suc fuel)
  show ?case
  proof (cases "d \<le> gw_clock w (gs_ticks s)")
    case True
    then show ?thesis by (simp add: wp_rules try_flock_def monotonic_def close_fd_def guard_event_def)
  next
    case False
    then obtain j where "k = Suc j" using Suc.prems(1) by (cases k) auto
    then show ?thesis
      using Suc.prems Suc.IH [of "s\<lparr>gs_flocks := Suc (gs_flocks s), gs_ticks := Suc (gs_ticks s)\<rparr>" j]
      by (simp add: wp_rules try_flock_def monotonic_def guard_event_def False)
  qed
qed simp

section \<open>Hostile output\<close>

text \<open>A line that only announces the lock makes the controller raise \<open>IndexError\<close>.\<close>

lemma bare_locked_line: "observed_nonce [''TESTUDO_LOCKED ''] = Inl (IndexError ''list index out of range'')"
  by (simp add: observed_nonce_def locked_line_def py_strip_def py_isspace_def)

text \<open>A trailer printed after the controller closed the input makes it raise \<open>ValueError\<close>.\<close>

lemma write_after_close: "\<not> gs_stdin s \<Longrightarrow> write_stdin ev s = (Inl (ValueError ''write to closed file''), s)"
  by (simp add: write_stdin_def)

end
