(* ===== verification/Seat_Ssh.thy ===== *)
theory Seat_Ssh
  imports Wp Seat_Fields
begin

text \<open>
  SSH identity and host-key trust: \<open>src/testudo/seats/ssh.py\<close>. Command lines are lists of words;
  what a subprocess answered is a value of \<open>proc_result\<close>; the trusted \<open>known_hosts\<close> file is its
  text, rewritten as a whole. UTF-8 decoding, JSON, SHA-256, \<open>str()\<close> of a value that is no string
  and \<open>ssh-keygen -lf\<close> are parameters. Failing reads and writes of the temporary files are not
  modelled.
\<close>

section \<open>Parameters\<close>

datatype proc_result = TimedOut string | SpawnError string | Exited int string string

record ssh_env =
  sx_ip :: ip_compressed
  sx_str :: "pyval \<Rightarrow> string"
  sx_decode :: "string \<Rightarrow> exn + string"
  sx_replace :: "string \<Rightarrow> string"
  sx_dumps :: "pydict \<Rightarrow> string"
  sx_sha :: "string \<Rightarrow> string"
  sx_keygen :: "string \<Rightarrow> proc_result"

definition max_ssh_output :: nat where "max_ssh_output = 1024 * 1024"

section \<open>Command lines\<close>

definition mandatory_options :: "string list" where
  "mandatory_options = [''BatchMode=yes'', ''StrictHostKeyChecking=yes'', ''GlobalKnownHostsFile=/dev/null'',
     ''PermitLocalCommand=no'', ''RemoteCommand=none'', ''ClearAllForwardings=yes'', ''ForwardAgent=no'',
     ''ForwardX11=no'', ''ForwardX11Trusted=no'', ''RequestTTY=no'']"

definition mandatory_ssh_options :: "string \<Rightarrow> string list" where
  "mandatory_ssh_options known_hosts_path = concat (map (\<lambda>option.
     if option = ''StrictHostKeyChecking=yes''
     then [''-o'', option, ''-o'', ''UserKnownHostsFile='' @ known_hosts_path]
     else [''-o'', option]) mandatory_options)"

record ssh_descriptor =
  sd_destination :: string
  sd_port :: "int option"
  sd_key_path :: "string option"
  sd_known_hosts :: string

definition str_of :: "ssh_env \<Rightarrow> pyval \<Rightarrow> string" where
  "str_of env v = (case v of PStr s \<Rightarrow> s | _ \<Rightarrow> sx_str env v)"

definition key_of :: "pydict \<Rightarrow> string \<Rightarrow> exn + pyval" where
  "key_of d k = (case map_of d k of None \<Rightarrow> Inl (KeyError k) | Some v \<Rightarrow> Inr v)"

definition from_config :: "ssh_env \<Rightarrow> pydict \<Rightarrow> string \<Rightarrow> exn + ssh_descriptor" where
  "from_config env ssh known_hosts_path =
     (if dict_get ssh ''kind'' = PStr ''alias'' then
        rbind (key_of ssh ''alias'') (\<lambda>a.
        rbind (validate_ssh_alias ''ssh.alias'' (str_of env a)) (\<lambda>alias.
        Inr \<lparr>sd_destination = alias, sd_port = None, sd_key_path = None, sd_known_hosts = known_hosts_path\<rparr>))
      else if dict_get ssh ''kind'' = PStr ''explicit'' then
        rbind (key_of ssh ''user'') (\<lambda>u.
        rbind (validate_ssh_user ''ssh.user'' (str_of env u)) (\<lambda>user.
        rbind (key_of ssh ''host'') (\<lambda>h.
        rbind (canonical_hostname (sx_ip env) ''ssh.host'' (str_of env h)) (\<lambda>host.
        rbind (key_of ssh ''port'') (\<lambda>p.
        case p of PInt port \<Rightarrow>
          Inr \<lparr>sd_destination = user @ ''@'' @ host, sd_port = Some port,
            sd_key_path = (case dict_get ssh ''key_path'' of PNone \<Rightarrow> None | v \<Rightarrow> Some (str_of env v)),
            sd_known_hosts = known_hosts_path\<rparr>
        | _ \<Rightarrow> verr ''ssh.port'' ''type'' ''expected a JSON integer'')))))
      else verr ''ssh.kind'' ''discriminator'' [])"

definition user_args :: "ssh_descriptor \<Rightarrow> string list" where
  "user_args d = (case sd_port d of None \<Rightarrow> [] | Some p \<Rightarrow> [''-p'', int_str p])
     @ (case sd_key_path d of None \<Rightarrow> [] | Some k \<Rightarrow> [''-i'', k])"

definition destination_args :: "ssh_descriptor \<Rightarrow> string list" where
  "destination_args d = user_args d @ [sd_destination d]"

definition command_argv :: "ssh_descriptor \<Rightarrow> string \<Rightarrow> string list" where
  "command_argv d remote = [''ssh''] @ mandatory_ssh_options (sd_known_hosts d) @ destination_args d @ [remote]"

definition resolve_argv :: "ssh_descriptor \<Rightarrow> string list" where
  "resolve_argv d = [''ssh''] @ mandatory_ssh_options (sd_known_hosts d) @ [''-G'']
     @ butlast (destination_args d) @ [sd_destination d]"

definition probe_options :: "string \<Rightarrow> string list" where
  "probe_options temporary_known_hosts = concat (map (\<lambda>option. [''-o'', option])
     [''StrictHostKeyChecking=accept-new'', ''UserKnownHostsFile='' @ temporary_known_hosts,
      ''GlobalKnownHostsFile=/dev/null'', ''HashKnownHosts=no'', ''ConnectionAttempts=1'', ''ConnectTimeout=10''])"

definition probe_argv :: "ssh_descriptor \<Rightarrow> string \<Rightarrow> string list" where
  "probe_argv d temporary_known_hosts = [''ssh''] @ probe_options temporary_known_hosts
     @ mandatory_ssh_options (sd_known_hosts d) @ butlast (destination_args d)
     @ [''-N'', ''-T''] @ [last (destination_args d)]"

text \<open>\<open>argv[:-2] + ["-o", "ConnectTimeout=..."] + [argv[-2], remote]\<close>.\<close>

definition exec_argv :: "ssh_descriptor \<Rightarrow> string \<Rightarrow> int \<Rightarrow> string list" where
  "exec_argv d remote connect_timeout = (let argv = command_argv d remote; n = length argv in
     take (n - 2) argv @ [''-o'', ''ConnectTimeout='' @ int_str connect_timeout] @ [argv ! (n - 2), remote])"

section \<open>Results\<close>

record exec_result =
  er_exit :: "int option"
  er_stdout :: string
  er_stderr :: string
  er_truncated :: bool

definition exec_remote :: "ssh_env \<Rightarrow> proc_result \<Rightarrow> exec_result" where
  "exec_remote env result = (case result of
     TimedOut _ \<Rightarrow> \<lparr>er_exit = None, er_stdout = [], er_stderr = ''local SSH terminated on timeout'', er_truncated = False\<rparr>
   | SpawnError e \<Rightarrow> \<lparr>er_exit = None, er_stdout = [], er_stderr = e, er_truncated = False\<rparr>
   | Exited rc out err \<Rightarrow>
       \<lparr>er_exit = Some rc, er_stdout = sx_replace env (take max_ssh_output out),
        er_stderr = sx_replace env (take max_ssh_output err),
        er_truncated = (max_ssh_output < length out \<or> max_ssh_output < length err)\<rparr>)"

record effective_ssh =
  es_pairs :: "(string \<times> string) list"
  es_path :: string
  es_version :: string
  es_sha256 :: string

definition canonical_json :: "ssh_env \<Rightarrow> effective_ssh \<Rightarrow> string" where
  "canonical_json env e = sx_dumps env
     [(''ordered_pairs'', PList (map (\<lambda>(k, v). PList [PStr k, PStr v]) (es_pairs e))),
      (''binary_path'', PStr (es_path e)), (''binary_version'', PStr (es_version e)),
      (''binary_sha256'', PStr (es_sha256 e))]"

definition effective_sha256 :: "ssh_env \<Rightarrow> effective_ssh \<Rightarrow> string" where
  "effective_sha256 env e = sx_sha env (canonical_json env e)"

definition parse_ssh_g_line :: "string \<Rightarrow> exn + string \<times> string" where
  "parse_ssh_g_line line =
     (if list_ex (\<lambda>c. (of_char c :: nat) < 32 \<and> c \<noteq> CHR 0x09) line then
        Inl (SshResolveError ''control character in ssh -G output'')
      else if prefix ''warning '' (py_lower line) \<or> prefix ''warning:'' (py_lower line) then
        Inl (SshResolveError ''warning line in ssh -G output'')
      else case py_partition (CHR '' '') line of
        None \<Rightarrow> Inl (SshResolveError (''malformed ssh -G line: '' @ py_repr line))
      | Some (k, v) \<Rightarrow>
          if k = [] \<or> v = [] then Inl (SshResolveError (''malformed ssh -G line: '' @ py_repr line))
          else if k \<noteq> py_lower k \<and> k \<noteq> ''canonicalizePermittedcnames'' then
            Inl (SshResolveError (''uppercase key in ssh -G line: '' @ py_repr line))
          else Inr (k, v))"

definition parse_ssh_g_output :: "ssh_env \<Rightarrow> string \<Rightarrow> exn + (string \<times> string) list" where
  "parse_ssh_g_output env raw =
     (if CHR 0x00 \<in> set raw then Inl (SshResolveError ''NUL byte in ssh -G output'')
      else rbind (sx_decode env raw) (\<lambda>text.
        rbind (rmap parse_ssh_g_line (filter (\<lambda>l. l \<noteq> []) (py_splitlines text))) (\<lambda>pairs.
        if pairs = [] then Inl (SshResolveError ''empty ssh -G output'') else Inr pairs)))"

definition effective_user :: "effective_ssh \<Rightarrow> string option" where
  "effective_user e = map_of (es_pairs e) ''user''"

text \<open>What the machine says of its \<open>ssh\<close> binary and what \<open>ssh -G\<close> answers.\<close>

record resolve_world =
  rw_which :: "string option"
  rw_realpath :: string
  rw_bytes :: "exn + string"
  rw_version :: proc_result
  rw_run :: "string list \<Rightarrow> proc_result"

definition ssh_binary_info :: "ssh_env \<Rightarrow> resolve_world \<Rightarrow> exn + string \<times> string \<times> string" where
  "ssh_binary_info env w = (case rw_which w of None \<Rightarrow> Inl (SshResolveError ''ssh binary not found'')
     | Some _ \<Rightarrow> rbind (rw_bytes w) (\<lambda>data.
         case rw_version w of
           TimedOut e \<Rightarrow> Inl (SshResolveError (''ssh -V failed: '' @ e))
         | SpawnError e \<Rightarrow> Inl (SshResolveError (''ssh -V failed: '' @ e))
         | Exited _ _ err \<Rightarrow> Inr (rw_realpath w, py_strip (sx_replace env err), sx_sha env data)))"

definition resolve_effective_ssh :: "ssh_env \<Rightarrow> resolve_world \<Rightarrow> ssh_descriptor \<Rightarrow> exn + effective_ssh" where
  "resolve_effective_ssh env w d =
     rbind (ssh_binary_info env w) (\<lambda>(path, version, sha).
     case rw_run w (resolve_argv d) of
       TimedOut _ \<Rightarrow> Inl (SshResolveError ''ssh -G timed out'')
     | SpawnError e \<Rightarrow> Inl (SshResolveError (''ssh -G spawn failed: '' @ e))
     | Exited rc out err \<Rightarrow>
         if rc \<noteq> 0 then Inl (SshResolveError (''ssh -G exited '' @ int_str rc @ '': '' @ take 512 (sx_replace env err)))
         else if max_ssh_output < length out \<or> max_ssh_output < length err then
           Inl (SshResolveError ''ssh -G output overflow'')
         else rbind (parse_ssh_g_output env out) (\<lambda>pairs.
           Inr \<lparr>es_pairs = pairs, es_path = path, es_version = version, es_sha256 = sha\<rparr>))"

section \<open>The key probe\<close>

definition fingerprint_of_line :: "ssh_env \<Rightarrow> string \<Rightarrow> exn + string" where
  "fingerprint_of_line env line = (case sx_keygen env (line @ [CHR 0x0A]) of
     TimedOut e \<Rightarrow> Inl (KeyProbeError (''ssh-keygen failed: '' @ e))
   | SpawnError e \<Rightarrow> Inl (KeyProbeError (''ssh-keygen failed: '' @ e))
   | Exited rc out _ \<Rightarrow>
       if rc \<noteq> 0 then Inl (KeyProbeError ''ssh-keygen -lf exited nonzero'')
       else (case filter (prefix ''SHA256:'') (py_split (sx_replace env out)) of
         [f] \<Rightarrow> Inr f
       | fs \<Rightarrow> Inl (KeyProbeError (''expected exactly one SHA256: fingerprint, got '' @ nat_str (length fs)))))"

text \<open>
  The probe reads the clock, the temporary file and the state of the process, by the number of
  the reading; the state counts the readings and says whether the process runs.
\<close>

record probe_world =
  kp_spawn :: "string option"
  kp_clock :: "nat \<Rightarrow> rat"
  kp_text :: "nat \<Rightarrow> string"
  kp_exited :: "nat \<Rightarrow> bool"

record probe_state =
  ks_ticks :: nat
  ks_running :: bool
  ks_terminated :: bool
  ks_temp :: bool

definition probe_timeout_seconds :: rat where "probe_timeout_seconds = 10"

definition probe_clock :: "probe_world \<Rightarrow> (probe_state, rat) act" where
  "probe_clock w = awith (\<lambda>s. abind (aset (\<lambda>s. s\<lparr>ks_ticks := Suc (ks_ticks s)\<rparr>)) (\<lambda>_. aret (kp_clock w (ks_ticks s))))"

definition written_lines :: "string \<Rightarrow> string list" where
  "written_lines text = filter (\<lambda>l. py_strip l \<noteq> []) (py_splitlines text)"

fun probe_loop :: "nat \<Rightarrow> probe_world \<Rightarrow> rat \<Rightarrow> (probe_state, string option) act" where
  "probe_loop 0 w deadline = araise (RuntimeError ''out of fuel'')"
| "probe_loop (Suc fuel) w deadline =
     abind (probe_clock w) (\<lambda>now.
     if \<not> now < deadline then aret None
     else awith (\<lambda>s. let written = written_lines (kp_text w (ks_ticks s)) in
       if 1 < length written then
         araise (KeyProbeError (''expected exactly one known-hosts line, got '' @ nat_str (length written)))
       else if written \<noteq> [] then aret (Some (py_strip (hd written)))
       else if kp_exited w (ks_ticks s) then aret None
       else probe_loop fuel w deadline))"

definition probe_terminate :: "(probe_state, unit) act" where
  "probe_terminate = aset (\<lambda>s. s\<lparr>ks_running := False, ks_terminated := True\<rparr>)"

record key_probe_result =
  kr_line :: string
  kr_fingerprint :: string

definition probe_host_key :: "nat \<Rightarrow> ssh_env \<Rightarrow> probe_world \<Rightarrow> (probe_state, key_probe_result) act" where
  "probe_host_key fuel env w =
     abind (aset (\<lambda>s. s\<lparr>ks_temp := True\<rparr>)) (\<lambda>_.
     afinally
       (abind (case kp_spawn w of
          Some e \<Rightarrow> araise (KeyProbeError (''key probe spawn failed: '' @ e))
        | None \<Rightarrow> aset (\<lambda>s. s\<lparr>ks_running := True\<rparr>)) (\<lambda>_.
        abind (probe_clock w) (\<lambda>now.
        abind (probe_loop fuel w (now + probe_timeout_seconds)) (\<lambda>line.
        abind probe_terminate (\<lambda>_.
        case line of
          None \<Rightarrow> araise (KeyProbeError ''no known-hosts line was observed before exit/timeout'')
        | Some l \<Rightarrow>
            if l = [] then araise (KeyProbeError ''no known-hosts line was observed before exit/timeout'')
            else abind (alift (fingerprint_of_line env l)) (\<lambda>f. aret \<lparr>kr_line = l, kr_fingerprint = f\<rparr>))))))
       (aset (\<lambda>s. s\<lparr>ks_temp := False\<rparr>)))"

section \<open>The trusted keys\<close>

definition trust_lines :: "string option \<Rightarrow> string list" where
  "trust_lines text = (case text of None \<Rightarrow> [] | Some t \<Rightarrow> py_splitlines t)"

definition rewrite_lines :: "string list \<Rightarrow> string option" where
  "rewrite_lines lines = Some (concat (map (\<lambda>l. l @ [CHR 0x0A]) lines))"

definition host_entry_prefix :: "string \<Rightarrow> int option \<Rightarrow> string" where
  "host_entry_prefix host port = (case port of
     Some p \<Rightarrow> if p \<noteq> 22 then ''['' @ host @ '']:'' @ int_str p else host | None \<Rightarrow> host)"

definition host_entry_markers :: "string \<Rightarrow> int option \<Rightarrow> string list" where
  "host_entry_markers host port = (case port of
     Some p \<Rightarrow> if p \<noteq> 22 then [''['' @ host @ '']:'' @ int_str p, host] else [host] | None \<Rightarrow> [host])"

definition extract_fingerprint :: "ssh_env \<Rightarrow> string \<Rightarrow> exn + string" where
  "extract_fingerprint env line = (case find (prefix ''SHA256:'') (py_split line) of
     Some f \<Rightarrow> Inr f | None \<Rightarrow> fingerprint_of_line env line)"

definition known_fingerprint :: "ssh_env \<Rightarrow> string option \<Rightarrow> string \<Rightarrow> int option \<Rightarrow> exn + string option" where
  "known_fingerprint env text host port =
     (case concat (map (\<lambda>m. filter (prefix m) (trust_lines text)) (host_entry_markers host port)) of
        [] \<Rightarrow> Inr None
      | line # _ \<Rightarrow> rbind (extract_fingerprint env line) (\<lambda>f. Inr (Some f)))"

definition install_initial :: "string \<Rightarrow> string option \<Rightarrow> string option" where
  "install_initial line text =
     (if line \<in> set (trust_lines text) then text else rewrite_lines (trust_lines text @ [line]))"

definition replace_for_host :: "string \<Rightarrow> string \<Rightarrow> int option \<Rightarrow> string option \<Rightarrow> string option" where
  "replace_for_host new_line host port text =
     rewrite_lines (filter (\<lambda>l. \<not> prefix (host_entry_prefix host port) l) (trust_lines text) @ [new_line])"

definition remove_host :: "string \<Rightarrow> int option \<Rightarrow> string option \<Rightarrow> string option" where
  "remove_host host port text =
     rewrite_lines (filter (\<lambda>l. \<not> prefix (host_entry_prefix host port) l) (trust_lines text))"

section \<open>How ssh reads its command line\<close>

text \<open>
  The part of OpenSSH's option reader the command lines use: flags, options with an argument,
  the first other word as the destination and everything after it as the command. A word that
  begins with a dash and is none of these is refused. Of a repeated \<open>-o\<close> option the first value
  counts.
\<close>

fun ssh_read :: "string list \<Rightarrow> ((string \<times> string) list \<times> string \<times> string list) option" where
  "ssh_read [] = None"
| "ssh_read (w # ws) =
     (if w \<in> {''-G'', ''-N'', ''-T''} then map_option (\<lambda>(opts, rest). ((w, []) # opts, rest)) (ssh_read ws)
      else if w \<in> {''-o'', ''-p'', ''-i'', ''-W''} then
        (case ws of [] \<Rightarrow> None | x # ws' \<Rightarrow> map_option (\<lambda>(opts, rest). ((w, x) # opts, rest)) (ssh_read ws'))
      else if prefix ''-'' w then None
      else Some ([], w, ws))"

definition key_value :: "string \<Rightarrow> string \<times> string" where
  "key_value x = (case py_partition (CHR ''='') x of Some p \<Rightarrow> p | None \<Rightarrow> (x, []))"

definition ssh_value :: "(string \<times> string) list \<Rightarrow> string \<Rightarrow> string option" where
  "ssh_value opts = map_of (map (key_value \<circ> snd) (filter (\<lambda>(w, x). w = ''-o'') opts))"

lemma ssh_read_destination:
  "w \<noteq> [] \<Longrightarrow> hd w \<noteq> dash \<Longrightarrow> ssh_read (w # ws) = Some ([], w, ws)"
  by (cases w) auto

lemma ssh_read_words:
  "ssh_read (''-o'' # x # ws) = map_option (\<lambda>(opts, rest). ((''-o'', x) # opts, rest)) (ssh_read ws)"
  "ssh_read (''-p'' # x # ws) = map_option (\<lambda>(opts, rest). ((''-p'', x) # opts, rest)) (ssh_read ws)"
  "ssh_read (''-i'' # x # ws) = map_option (\<lambda>(opts, rest). ((''-i'', x) # opts, rest)) (ssh_read ws)"
  "ssh_read (''-N'' # ws) = map_option (\<lambda>(opts, rest). ((''-N'', []) # opts, rest)) (ssh_read ws)"
  "ssh_read (''-T'' # ws) = map_option (\<lambda>(opts, rest). ((''-T'', []) # opts, rest)) (ssh_read ws)"
  by simp_all

declare ssh_read.simps [simp del]

lemma from_config_explicit:
  assumes "from_config env ssh kh = Inr d" and "dict_get ssh ''kind'' \<noteq> PStr ''alias''"
  shows "\<exists>s u host. validate_ssh_user ''ssh.user'' s = Inr u \<and> sd_destination d = u @ ''@'' @ host \<and> sd_known_hosts d = kh"
  using assms unfolding from_config_def
  by (simp only: if_False split: if_split_asm) (elim rbindE, rule exI, rule exI, rule exI, rule conjI, assumption, auto split: pyval.split_asm)

lemma from_config_destination:
  assumes "from_config env ssh kh = Inr d"
  shows "sd_destination d \<noteq> [] \<and> hd (sd_destination d) \<noteq> dash \<and> sd_known_hosts d = kh"
proof (cases "dict_get ssh ''kind'' = PStr ''alias''")
  case True
  then obtain s where v: "validate_ssh_alias ''ssh.alias'' s = Inr (sd_destination d)" "sd_known_hosts d = kh"
    using assms by (auto simp: from_config_def)
  then have "sd_destination d = s \<and> len_in 1 255 s \<and> \<not> prefix ''-'' s"
    by (auto simp: validate_ssh_alias_def field_class_Inr first_char_not_dash_Inr split: if_splits)
  then show ?thesis using v(2) by (cases s) (auto simp: len_in_def)
next
  case False
  then obtain s u host where v: "validate_ssh_user ''ssh.user'' s = Inr u" "sd_destination d = u @ ''@'' @ host" "sd_known_hosts d = kh"
    using from_config_explicit [OF assms] by blast
  then have "ssh_user_re u" by (simp add: validate_ssh_user_def field_class_Inr)
  then show ?thesis using v(2,3) by (cases u) (auto simp: ssh_user_re_def lower_alpha_def)
qed

lemma ssh_read_user_args:
  "ssh_read (user_args d @ ws) = map_option (\<lambda>(opts, rest).
     ((case sd_port d of None \<Rightarrow> [] | Some p \<Rightarrow> [(''-p'', int_str p)])
      @ (case sd_key_path d of None \<Rightarrow> [] | Some k \<Rightarrow> [(''-i'', k)]) @ opts, rest)) (ssh_read ws)"
  by (cases "sd_port d"; cases "sd_key_path d"; cases "ssh_read ws") (auto simp: user_args_def ssh_read_words)

lemma ssh_read_options:
  "ssh_read (concat (map (\<lambda>x. [''-o'', x]) xs) @ ws) = map_option (\<lambda>(opts, rest). (map (Pair ''-o'') xs @ opts, rest)) (ssh_read ws)"
proof (induction xs)
  case (Cons x xs)
  then show ?case by (cases "ssh_read ws") (auto simp: ssh_read_words)
qed (simp add: option.map_id0 [unfolded id_def])

lemma mandatory_as_options:
  "mandatory_ssh_options kh = concat (map (\<lambda>x. [''-o'', x])
     (take 2 mandatory_options @ [''UserKnownHostsFile='' @ kh] @ drop 2 mandatory_options))"
  by (simp add: mandatory_ssh_options_def mandatory_options_def)

lemma ssh_value_options:
  "ssh_value (map (Pair ''-o'') xs @ opts) k = (case map_of (map key_value xs) k of Some v \<Rightarrow> Some v | None \<Rightarrow> ssh_value opts k)"
  by (induction xs) (auto simp: ssh_value_def split: option.splits)

lemma exec_argv_unfold:
  "exec_argv d remote t = [''ssh''] @ mandatory_ssh_options (sd_known_hosts d) @ user_args d
     @ [''-o'', ''ConnectTimeout='' @ int_str t] @ [sd_destination d, remote]"
proof -
  let ?pre = "[''ssh''] @ mandatory_ssh_options (sd_known_hosts d) @ user_args d"
  have argv: "command_argv d remote = ?pre @ [sd_destination d, remote]"
    by (simp add: command_argv_def destination_args_def)
  have "take (length (command_argv d remote) - 2) (command_argv d remote) = ?pre"
    "command_argv d remote ! (length (command_argv d remote) - 2) = sd_destination d"
    unfolding argv by (simp_all add: nth_append)
  then show ?thesis unfolding exec_argv_def Let_def by simp
qed

definition mandatory_value :: "string \<Rightarrow> string \<Rightarrow> string option" where
  "mandatory_value kh = map_of (map key_value (take 2 mandatory_options @ [''UserKnownHostsFile='' @ kh] @ drop 2 mandatory_options))"


text \<open>A host given by an alias.\<close>

definition demo_ssh_env :: ssh_env where
  "demo_ssh_env = \<lparr>sx_ip = (\<lambda>_. None), sx_str = (\<lambda>_. []), sx_decode = Inr, sx_replace = id, sx_dumps = (\<lambda>_. []),
     sx_sha = id, sx_keygen = (\<lambda>_. SpawnError [])\<rparr>"


section \<open>The trusted file\<close>

lemma splitlines_no_break: "l \<in> set (py_splitlines s) \<Longrightarrow> \<not> list_ex line_break l"
  by (induction s arbitrary: l rule: py_splitlines.induct) (auto split: if_splits list.splits)

lemma splitlines_line:
  "\<not> list_ex line_break l \<Longrightarrow> py_splitlines (l @ CHR 0x0A # rest) = l # py_splitlines rest"
proof (induction l)
  case (Cons c l)
  then have "c \<noteq> CHR 0x0D" by (auto simp: line_break_def)
  then show ?case using Cons by simp
qed (simp add: line_break_def)

lemma trust_lines_rewrite:
  "\<forall>l \<in> set ls. \<not> list_ex line_break l \<Longrightarrow> trust_lines (rewrite_lines ls) = ls"
  unfolding trust_lines_def rewrite_lines_def
  by (induction ls) (simp_all add: splitlines_line)

lemma trust_lines_clean: "l \<in> set (trust_lines text) \<Longrightarrow> \<not> list_ex line_break l"
  by (auto simp: trust_lines_def splitlines_no_break split: option.splits)

lemma markers_first: "\<exists>ms. host_entry_markers host port = host_entry_prefix host port # ms"
  by (simp add: host_entry_markers_def host_entry_prefix_def split: option.split)

text \<open>
  After a replacement the new line is the only line left for the host and port, it is the one
  whose fingerprint the store reports, and every line that does not begin with the host's entry
  is kept.
\<close>

theorem replacement_is_sole:
  assumes "\<not> list_ex line_break line" and "prefix (host_entry_prefix host port) line"
  shows "filter (prefix (host_entry_prefix host port)) (trust_lines (replace_for_host line host port text)) = [line]
     \<and> known_fingerprint env (replace_for_host line host port text) host port = rbind (extract_fingerprint env line) (\<lambda>f. Inr (Some f))
     \<and> filter (\<lambda>l. \<not> prefix (host_entry_prefix host port) l) (trust_lines (replace_for_host line host port text))
       = filter (\<lambda>l. \<not> prefix (host_entry_prefix host port) l) (trust_lines text)"
proof -
  let ?ls = "filter (\<lambda>l. \<not> prefix (host_entry_prefix host port) l) (trust_lines text) @ [line]"
  have lines: "trust_lines (replace_for_host line host port text) = ?ls"
    unfolding replace_for_host_def using assms(1) trust_lines_clean by (intro trust_lines_rewrite) auto
  have sole: "filter (prefix (host_entry_prefix host port)) ?ls = [line]"
    using assms(2) by (simp add: filter_empty_conv)
  obtain ms where "host_entry_markers host port = host_entry_prefix host port # ms" using markers_first by blast
  then have "known_fingerprint env (replace_for_host line host port text) host port = rbind (extract_fingerprint env line) (\<lambda>f. Inr (Some f))"
    unfolding known_fingerprint_def lines using sole by simp
  then show ?thesis using lines sole assms(2) by simp
qed

theorem replacement_is_sole_witness:
  "trust_lines (replace_for_host ''web k2 SHA256:b'' ''web'' None (Some ''web k1 SHA256:a'')) = [''web k2 SHA256:b'']
   \<and> known_fingerprint demo_ssh_env (replace_for_host ''web k2 SHA256:b'' ''web'' None (Some ''web k1 SHA256:a'')) ''web'' None
     = Inr (Some ''SHA256:b'')"
proof -
  have "\<not> list_ex line_break ''web k2 SHA256:b''" "prefix (host_entry_prefix ''web'' None) ''web k2 SHA256:b''"
    "extract_fingerprint demo_ssh_env ''web k2 SHA256:b'' = Inr ''SHA256:b''"
    "trust_lines (replace_for_host ''web k2 SHA256:b'' ''web'' None (Some ''web k1 SHA256:a'')) = [''web k2 SHA256:b'']"
    by code_simp+
  then show ?thesis
    using replacement_is_sole [of "''web k2 SHA256:b''" "''web''" None "Some ''web k1 SHA256:a''" demo_ssh_env] by simp
qed


section \<open>What the probe observes\<close>

lemma probe_loop_result:
  "ks_running s \<Longrightarrow> ks_temp s \<Longrightarrow> wp (probe_loop fuel w d)
     (\<lambda>line s'. ks_running s' \<and> ks_temp s' \<and> (\<forall>l. line = Some l \<longrightarrow> (\<exists>n k. written_lines (kp_text w n) = [k] \<and> l = py_strip k)))
     (\<lambda>e s'. ks_running s' \<and> ks_temp s' \<and> ((\<exists>n. 1 < length (written_lines (kp_text w n))) \<or> e = RuntimeError ''out of fuel'')) s"
proof (induction fuel arbitrary: s)
  case (Suc fuel)
  let ?s = "s\<lparr>ks_ticks := Suc (ks_ticks s)\<rparr>" and ?ls = "written_lines (kp_text w (Suc (ks_ticks s)))"
  have one: "\<exists>n k. written_lines (kp_text w n) = [k] \<and> py_strip (hd ?ls) = py_strip k" if "?ls \<noteq> []" "\<not> 1 < length ?ls"
    using that by (intro exI [of _ "Suc (ks_ticks s)"] exI [of _ "hd ?ls"]) (cases ?ls, auto)
  show ?case
    unfolding probe_loop.simps probe_clock_def Let_def wp_rules using Suc.IH [of ?s] Suc.prems one by auto
qed (simp add: wp_rules)

text \<open>
  A key probe that returns has stopped its process, removed its temporary file, and returns
  the one line ssh wrote there with its fingerprint. When it raises with the process still
  running, ssh had written more than one line, or the model's loop was cut short.
\<close>

theorem probe_result:
  "wp (probe_host_key fuel env w)
     (\<lambda>r s'. \<not> ks_running s' \<and> \<not> ks_temp s' \<and> fingerprint_of_line env (kr_line r) = Inr (kr_fingerprint r)
        \<and> (\<exists>n k. written_lines (kp_text w n) = [k] \<and> kr_line r = py_strip k))
     (\<lambda>e s'. \<not> ks_temp s' \<and> (ks_running s' \<longrightarrow> (\<exists>n. 1 < length (written_lines (kp_text w n))) \<or> e = RuntimeError ''out of fuel''))
     \<lparr>ks_ticks = t, ks_running = False, ks_terminated = False, ks_temp = False\<rparr>"
proof -
  let ?s = "\<lparr>ks_ticks = Suc t, ks_running = True, ks_terminated = False, ks_temp = True\<rparr>"
  let ?loop = "probe_loop fuel w (kp_clock w t + probe_timeout_seconds)"
  let ?P = "\<lambda>line s'. ks_running s' \<and> ks_temp s' \<and> (\<forall>l. line = Some l \<longrightarrow> (\<exists>n k. written_lines (kp_text w n) = [k] \<and> l = py_strip k))"
  let ?E = "\<lambda>e s'. ks_running s' \<and> ks_temp s' \<and> ((\<exists>n. 1 < length (written_lines (kp_text w n))) \<or> e = RuntimeError ''out of fuel'')"
  have loop: "wp ?loop ?P ?E ?s" by (rule probe_loop_result) simp_all
  show ?thesis
    unfolding probe_host_key_def probe_clock_def probe_terminate_def wp_rules
    by (cases "kp_spawn w") (auto simp: wp_rules split: option.split sum.split intro!: wp_mono [OF loop])
qed

definition two_line_probe :: probe_world where
  "two_line_probe = \<lparr>kp_spawn = None, kp_clock = (\<lambda>_. 0), kp_text = (\<lambda>_. [CHR ''a'', CHR 0x0A, CHR ''b'']), kp_exited = (\<lambda>_. False)\<rparr>"

text \<open>
  When ssh writes two lines, the probe raises and leaves the ssh process running.
\<close>

theorem probe_leaks_process:
  "\<exists>s'. probe_host_key (Suc fuel) env two_line_probe \<lparr>ks_ticks = 0, ks_running = False, ks_terminated = False, ks_temp = False\<rparr>
     = (Inl (KeyProbeError ''expected exactly one known-hosts line, got 2''), s') \<and> ks_running s' \<and> \<not> ks_terminated s'"
proof -
  have "written_lines [CHR ''a'', CHR 0x0A, CHR ''b''] = [''a'', ''b'']" "nat_str (Suc (Suc 0)) = ''2''" by code_simp+
  then show ?thesis
    by (simp add: probe_host_key_def two_line_probe_def afinally_def probe_clock_def probe_timeout_seconds_def Let_def)
qed

end
