(* ===== verification/Seat_Poll.thy ===== *)
theory Seat_Poll
  imports Seat_Ssh
begin

text \<open>
  Observations of a seat: the endpoint poller of \<open>src/testudo/seats/transport.py\<close>, the address
  classes of \<open>src/testudo/seats/address_classes.py\<close> and the lifetime probe of
  \<open>src/testudo/seats/lifetime.py\<close>.

  What the network answered one poll is a \<open>poll_reply\<close>: the result of the HTTPS request, of the
  direct HTTP request with the peer it reached, and of the tunnel process. The JSON parser and
  the class of an IP address are parameters.
\<close>

section \<open>Addresses\<close>

text \<open>Version, numeric value and \<open>is_loopback\<close> of \<open>ipaddress.ip_address(s)\<close>, which raises on other text.\<close>

type_synonym ip_info = "string \<Rightarrow> (nat \<times> nat \<times> bool) option"

definition in_network :: "nat \<Rightarrow> nat \<Rightarrow> nat \<Rightarrow> bool" where
  "in_network base bits a \<longleftrightarrow> a div 2 ^ (32 - bits) = base div 2 ^ (32 - bits)"

definition quad :: "nat \<Rightarrow> nat \<Rightarrow> nat \<Rightarrow> nat \<Rightarrow> nat" where
  "quad a b c d = ((a * 256 + b) * 256 + c) * 256 + d"

definition rfc1918 :: "nat \<Rightarrow> bool" where
  "rfc1918 a \<longleftrightarrow> in_network (quad 10 0 0 0) 8 a \<or> in_network (quad 172 16 0 0) 12 a \<or> in_network (quad 192 168 0 0) 16 a"

definition cgnat :: "nat \<Rightarrow> bool" where
  "cgnat a \<longleftrightarrow> in_network (quad 100 64 0 0) 10 a"

definition is_discovery_eligible :: "ip_info \<Rightarrow> string \<Rightarrow> exn + bool" where
  "is_discovery_eligible info address = (case info address of
     None \<Rightarrow> Inl (ValueError (py_repr address @ '' does not appear to be an IPv4 or IPv6 address''))
   | Some (version, a, loopback) \<Rightarrow>
       Inr (loopback \<or> version = 4 \<and> rfc1918 a \<or> version = 4 \<and> cgnat a))"

section \<open>Reading a response\<close>

text \<open>Bytes: only ASCII blanks are stripped, also by \<open>int\<close>.\<close>

definition byte_space :: "char \<Rightarrow> bool" where
  "byte_space c \<longleftrightarrow> (let n = (of_char c :: nat) in 9 \<le> n \<and> n \<le> 13 \<or> n = 32)"

definition bytes_strip :: "string \<Rightarrow> string" where
  "bytes_strip s = rev (dropWhile byte_space (rev (dropWhile byte_space s)))"

definition bytes_int :: "string \<Rightarrow> int option" where
  "bytes_int s = (if list_ex (\<lambda>c. py_isspace c \<and> \<not> byte_space c) s then None else py_int s)"

abbreviation crlf :: string where "crlf \<equiv> [CHR 0x0D, CHR 0x0A]"

fun crlf_lines :: "string \<Rightarrow> string list" where
  "crlf_lines [] = [[]]"
| "crlf_lines [c] = [[c]]"
| "crlf_lines (c # d # cs) = (if c = CHR 0x0D \<and> d = CHR 0x0A then [] # crlf_lines cs
     else (case crlf_lines (d # cs) of l # ls \<Rightarrow> (c # l) # ls | [] \<Rightarrow> [[c]]))"

text \<open>The text before the first empty line, and the text after it.\<close>

fun blank_line :: "string \<Rightarrow> (string \<times> string) option" where
  "blank_line [] = None"
| "blank_line (c # cs) = (if prefix (crlf @ crlf) (c # cs) then Some ([], drop 3 cs)
     else map_option (\<lambda>(a, b). (c # a, b)) (blank_line cs))"

definition http_status_line :: "string \<Rightarrow> int option" where
  "http_status_line raw = (case split_on (CHR '' '') (hd (crlf_lines raw)) of
     _ # p # _ \<Rightarrow> bytes_int p | _ \<Rightarrow> None)"

definition http_header :: "string \<Rightarrow> string \<Rightarrow> string" where
  "http_header raw name =
     (let head = (case blank_line raw of Some (a, _) \<Rightarrow> a | None \<Rightarrow> raw) in
      case find (\<lambda>line. prefix (name @ '':'') (py_lower line)) (crlf_lines head) of
        Some line \<Rightarrow> bytes_strip (tl (dropWhile (\<lambda>c. c \<noteq> CHR '':'') line)) | None \<Rightarrow> [])"

definition extract_http_body :: "string \<Rightarrow> string option" where
  "extract_http_body raw = map_option snd (blank_line raw)"

definition json_content_type :: "string \<Rightarrow> bool" where
  "json_content_type v \<longleftrightarrow> prefix ''application/json'' (py_lower (py_strip v))"

definition model_entry :: "pyval \<Rightarrow> string option" where
  "model_entry e = (case e of PDict d \<Rightarrow> (case dict_get d ''id'' of PStr s \<Rightarrow> Some s | _ \<Rightarrow> None) | _ \<Rightarrow> None)"

fun model_entries :: "pyval list \<Rightarrow> string list option" where
  "model_entries [] = Some []"
| "model_entries (e # es) = (case model_entry e of None \<Rightarrow> None
     | Some m \<Rightarrow> map_option ((#) m) (model_entries es))"

record poll_env =
  pe_ssh :: ssh_env
  pe_info :: ip_info
  pe_loads :: "string \<Rightarrow> pyval option"

definition parse_models :: "poll_env \<Rightarrow> string \<Rightarrow> string list option" where
  "parse_models env body = (case pe_loads env body of
     Some (PDict d) \<Rightarrow> (case map_of d ''data'' of
         Some (PList xs) \<Rightarrow> if 1000 < length xs then None else model_entries xs
       | _ \<Rightarrow> None)
   | _ \<Rightarrow> None)"

section \<open>Polling\<close>

record observation =
  ob_sequence :: nat
  ob_timestamp :: rat
  ob_host_state :: string
  ob_endpoint_state :: string
  ob_models :: "string list"
  ob_detail :: string

definition mk_obs :: "string \<Rightarrow> string \<Rightarrow> string list \<Rightarrow> string \<Rightarrow> observation" where
  "mk_obs host endpoint models detail = \<lparr>ob_sequence = 0, ob_timestamp = 0, ob_host_state = host,
     ob_endpoint_state = endpoint, ob_models = models, ob_detail = detail\<rparr>"

datatype http_reply = HttpTls string | HttpFailed | HttpReply int string string

record poll_reply =
  pr_https :: http_reply
  pr_lan_peer :: "string option"
  pr_lan :: http_reply
  pr_tunnel :: "string list \<Rightarrow> string \<Rightarrow> proc_result"
  pr_time :: rat

definition max_response_bytes :: nat where "max_response_bytes = 1024 * 1024"

definition http_observation :: "poll_env \<Rightarrow> int \<Rightarrow> string \<Rightarrow> string \<Rightarrow> observation" where
  "http_observation env status ctype body =
     (if max_response_bytes < length body then mk_obs ''reachable'' ''indeterminate'' [] ''overflow''
      else if status \<in> {401, 403} then mk_obs ''reachable'' ''unauthorized'' [] []
      else if status \<noteq> 200 then mk_obs ''reachable'' ''invalid'' [] (''status '' @ int_str status)
      else if \<not> json_content_type ctype then mk_obs ''reachable'' ''invalid'' [] ''wrong-content-type''
      else case parse_models env body of
        None \<Rightarrow> mk_obs ''reachable'' ''invalid'' [] ''malformed''
      | Some models \<Rightarrow> mk_obs ''reachable'' ''closed'' models [])"

definition poll_https :: "poll_env \<Rightarrow> poll_reply \<Rightarrow> observation" where
  "poll_https env r = (case pr_https r of
     HttpTls e \<Rightarrow> mk_obs ''reachable'' ''tls-error'' [] e
   | HttpFailed \<Rightarrow> mk_obs ''unreachable'' ''closed'' [] ''connect-failed''
   | HttpReply status ctype body \<Rightarrow> http_observation env status ctype body)"

text \<open>\<open>pr_lan_peer\<close> is the peer of the connected socket, \<open>None\<close> when the connection failed.\<close>

definition poll_trusted_lan :: "poll_env \<Rightarrow> poll_reply \<Rightarrow> string \<Rightarrow> exn + observation" where
  "poll_trusted_lan env r connected_peer =
     rbind (is_discovery_eligible (pe_info env) connected_peer) (\<lambda>ok.
     if \<not> ok then Inr (mk_obs ''unreachable'' ''indeterminate'' [] ''ineligible-peer'')
     else case pr_lan_peer r of
       None \<Rightarrow> Inr (mk_obs ''unreachable'' ''closed'' [] ''connect-failed'')
     | Some peer \<Rightarrow> rbind (is_discovery_eligible (pe_info env) peer) (\<lambda>ok.
         if \<not> ok then Inr (mk_obs ''unreachable'' ''indeterminate'' [] ''peer-substituted'')
         else case pr_lan r of
           HttpReply status ctype body \<Rightarrow> Inr (http_observation env status ctype body)
         | _ \<Rightarrow> Inr (mk_obs ''unreachable'' ''closed'' [] ''connect-failed'')))"

definition tunnel_argv :: "ssh_descriptor \<Rightarrow> string \<Rightarrow> int \<Rightarrow> string list" where
  "tunnel_argv d host port = [''ssh''] @ mandatory_ssh_options (sd_known_hosts d) @ butlast (destination_args d)
     @ [''-T'', ''-o'', ''ExitOnForwardFailure=yes'', ''-W'', host @ '':'' @ int_str port] @ [last (destination_args d)]"

definition classify_tunnel_failure :: "ssh_env \<Rightarrow> string \<Rightarrow> observation" where
  "classify_tunnel_failure env stderr =
     (if py_contains ''open failed: connect failed'' (sx_replace env stderr)
      then mk_obs ''reachable'' ''closed'' [] ''endpoint-refused''
      else mk_obs ''unreachable'' ''indeterminate'' [] ''ssh-failed'')"

definition tunnel_request :: "string \<Rightarrow> string" where
  "tunnel_request host = ''GET /v1/models HTTP/1.0'' @ crlf @ ''Host: '' @ host @ crlf @ crlf"

definition poll_tunnel :: "poll_env \<Rightarrow> poll_reply \<Rightarrow> ssh_descriptor \<Rightarrow> string \<Rightarrow> int \<Rightarrow> observation" where
  "poll_tunnel env r d host port = (case pr_tunnel r (tunnel_argv d host port) (tunnel_request host) of
     TimedOut _ \<Rightarrow> mk_obs ''reachable'' ''indeterminate'' [] ''timeout''
   | SpawnError _ \<Rightarrow> mk_obs ''unreachable'' ''indeterminate'' [] ''ssh-failed''
   | Exited _ out err \<Rightarrow>
       if max_ssh_output < length out then mk_obs ''reachable'' ''indeterminate'' [] ''overflow''
       else case http_status_line out of
         None \<Rightarrow> classify_tunnel_failure (pe_ssh env) err
       | Some status \<Rightarrow>
           if status \<in> {401, 403} then mk_obs ''reachable'' ''unauthorized'' [] []
           else if status \<noteq> 200 then mk_obs ''reachable'' ''invalid'' [] (''status '' @ int_str status)
           else if \<not> json_content_type (http_header out ''content-type'') then
             mk_obs ''reachable'' ''invalid'' [] ''wrong-content-type''
           else case extract_http_body out of
             None \<Rightarrow> mk_obs ''unreachable'' ''indeterminate'' [] ''no-response''
           | Some body \<Rightarrow>
               if max_response_bytes < length body then mk_obs ''reachable'' ''indeterminate'' [] ''overflow''
               else case parse_models env body of
                 None \<Rightarrow> mk_obs ''reachable'' ''invalid'' [] ''malformed''
               | Some models \<Rightarrow> mk_obs ''reachable'' ''closed'' models [])"

definition occupancy :: "string \<Rightarrow> observation \<Rightarrow> observation" where
  "occupancy seat_model_id ob =
     (if ob_endpoint_state ob = ''closed'' \<and> ob_models ob \<noteq> [] then
        ob\<lparr>ob_endpoint_state := (if ob_models ob = [seat_model_id] then ''occupied-known'' else ''occupied-unknown'')\<rparr>
      else ob)"

definition poll_once :: "poll_env \<Rightarrow> poll_reply \<Rightarrow> pydict \<Rightarrow> string \<Rightarrow> int \<Rightarrow> ssh_descriptor option \<Rightarrow> string option
    \<Rightarrow> exn + observation" where
  "poll_once env r transport host port descriptor connected_peer =
     (if dict_get transport ''kind'' = PStr ''https'' then Inr (poll_https env r)
      else if dict_get transport ''kind'' = PStr ''ssh-tunnel'' then
        (case descriptor of None \<Rightarrow> Inl (AssertionError ''ssh-tunnel requires a descriptor'')
         | Some d \<Rightarrow> Inr (poll_tunnel env r d host port))
      else (case connected_peer of None \<Rightarrow> Inl (AssertionError ''trusted-lan requires a connected peer'')
         | Some peer \<Rightarrow> poll_trusted_lan env r peer))"

record poller =
  po_sequence :: nat
  po_observations :: "observation list"

definition poll :: "poll_env \<Rightarrow> poll_reply \<Rightarrow> pydict \<Rightarrow> string \<Rightarrow> int \<Rightarrow> string \<Rightarrow> ssh_descriptor option \<Rightarrow> string option
    \<Rightarrow> (poller, observation) act" where
  "poll env r transport host port seat_model_id descriptor connected_peer =
     abind (aset (\<lambda>p. p\<lparr>po_sequence := Suc (po_sequence p)\<rparr>)) (\<lambda>_.
     awith (\<lambda>p. abind (alift (poll_once env r transport host port descriptor connected_peer)) (\<lambda>ob.
       let final = (occupancy seat_model_id ob)\<lparr>ob_sequence := po_sequence p, ob_timestamp := pr_time r\<rparr> in
       abind (aset (\<lambda>p. p\<lparr>po_observations := po_observations p @ [final]\<rparr>)) (\<lambda>_. aret final))))"

definition latest :: "poller \<Rightarrow> observation option" where
  "latest p = (if po_observations p = [] then None else Some (last (po_observations p)))"

section \<open>Lifetime of a session\<close>

definition linger_probe_argv :: "string list" where
  "linger_probe_argv = [''loginctl'', ''show-user'', ''{user}'', ''--property=Linger'', ''--value'']"

definition linger_probe_remote_command :: "string \<Rightarrow> string \<Rightarrow> string" where
  "linger_probe_remote_command exec_v1 user =
     remote_command exec_v1 (map (py_replace ''{user}'' user) linger_probe_argv)"

definition parse_linger_output :: "string \<Rightarrow> string \<Rightarrow> int option \<Rightarrow> string" where
  "parse_linger_output stdout stderr exit_code =
     (if exit_code \<noteq> Some 0 then ''unknown''
      else case filter (\<lambda>l. l \<noteq> []) (map py_strip (py_splitlines stdout)) of
        [v] \<Rightarrow> if v \<in> {''yes'', ''no''} then v else ''unknown''
      | _ \<Rightarrow> ''unknown'')"

definition linger_warning :: string where "linger_warning = ''service may stop when this session ends''"

definition start_gate :: "string \<Rightarrow> bool \<times> string option" where
  "start_gate linger = (if linger = ''yes'' then (True, None) else (False, Some linger_warning))"

definition parse_missing_tools :: "string \<Rightarrow> int option \<Rightarrow> string list" where
  "parse_missing_tools stdout exit_code = (if exit_code \<noteq> Some 0 then [''probe-failed'']
     else filter (\<lambda>l. l \<noteq> []) (map py_strip (py_splitlines stdout)))"

section \<open>What an observation says\<close>

lemma mk_obs_simps [simp]:
  "ob_host_state (mk_obs h e ms d) = h" "ob_endpoint_state (mk_obs h e ms d) = e" "ob_models (mk_obs h e ms d) = ms"
  by (simp_all add: mk_obs_def)

text \<open>
  What the transports themselves report: no occupied endpoint, and models only from a reachable
  host and an endpoint that answered.
\<close>

definition raw_observation :: "observation \<Rightarrow> bool" where
  "raw_observation ob \<longleftrightarrow> \<not> prefix ''occupied'' (ob_endpoint_state ob)
     \<and> (ob_models ob \<noteq> [] \<longrightarrow> ob_host_state ob = ''reachable'' \<and> ob_endpoint_state ob = ''closed'')"

lemma raw_mk_obs [simp]:
  "raw_observation (mk_obs h e ms d) \<longleftrightarrow> \<not> prefix ''occupied'' e \<and> (ms \<noteq> [] \<longrightarrow> h = ''reachable'' \<and> e = ''closed'')"
  by (simp add: raw_observation_def)

lemma raw_http [simp]: "raw_observation (http_observation env st ct body)"
  by (simp add: http_observation_def split: option.split)

lemma raw_https [simp]: "raw_observation (poll_https env r)"
  by (simp add: poll_https_def split: http_reply.split)

lemma raw_classify [simp]: "raw_observation (classify_tunnel_failure env err)"
  by (simp add: classify_tunnel_failure_def)

lemma raw_tunnel [simp]: "raw_observation (poll_tunnel env r d host port)"
  by (simp add: poll_tunnel_def split: proc_result.split option.split)

lemma raw_trusted_lan: "poll_trusted_lan env r p = Inr ob \<Longrightarrow> raw_observation ob"
  by (auto simp: poll_trusted_lan_def split: if_split_asm option.split_asm http_reply.split_asm)

lemma raw_poll_once: "poll_once env r transport host port d peer = Inr ob \<Longrightarrow> raw_observation ob"
  using raw_trusted_lan by (auto simp: poll_once_def split: if_split_asm option.split_asm)

lemma observation_latest: "poll env r transport host port model d peer p = (Inr ob, p') \<Longrightarrow> latest p' = Some ob"
  unfolding poll_def by (cases "poll_once env r transport host port d peer") (auto simp: Let_def latest_def)

text \<open>
  An observation reports models only from a reachable host, and its endpoint state then says
  whether they are exactly the seat's own model or anything else; without models it never
  reports an occupied endpoint. It carries the next sequence number and becomes the latest.
\<close>

theorem observation_states:
  assumes "poll env r transport host port model d peer p = (Inr ob, p')"
  shows "ob_sequence ob = Suc (po_sequence p) \<and> po_sequence p' = Suc (po_sequence p) \<and> latest p' = Some ob
     \<and> (ob_models ob \<noteq> [] \<longrightarrow> ob_host_state ob = ''reachable'')
     \<and> (ob_endpoint_state ob = ''occupied-known'' \<longrightarrow> ob_models ob = [model])
     \<and> (ob_models ob = [model] \<longrightarrow> ob_endpoint_state ob = ''occupied-known'')
     \<and> (ob_endpoint_state ob = ''occupied-unknown'' \<longleftrightarrow> ob_models ob \<noteq> [] \<and> ob_models ob \<noteq> [model])"
proof -
  obtain o1 where o1: "poll_once env r transport host port d peer = Inr o1"
    and ob: "ob = (occupancy model o1)\<lparr>ob_sequence := Suc (po_sequence p), ob_timestamp := pr_time r\<rparr>"
    and p': "p' = p\<lparr>po_sequence := Suc (po_sequence p), po_observations := po_observations p @ [ob]\<rparr>"
    using assms unfolding poll_def by (cases "poll_once env r transport host port d peer") (auto simp: Let_def)
  have never: "ob_endpoint_state o1 \<noteq> ''occupied-known'' \<and> ob_endpoint_state o1 \<noteq> ''occupied-unknown''"
    and models: "ob_models o1 \<noteq> [] \<longrightarrow> ob_host_state o1 = ''reachable'' \<and> ob_endpoint_state o1 = ''closed''"
    using raw_poll_once [OF o1] by (auto simp: raw_observation_def)
  show ?thesis
    using never models unfolding ob p' occupancy_def latest_def by (cases "ob_models o1 = []") simp_all
qed

definition demo_poll_env :: poll_env where
  "demo_poll_env = \<lparr>pe_ssh = demo_ssh_env, pe_info = (\<lambda>_. None),
     pe_loads = (\<lambda>_. Some (PDict [(''data'', PList [PDict [(''id'', PStr ''m'')]])]))\<rparr>"

definition demo_reply :: poll_reply where
  "demo_reply = \<lparr>pr_https = HttpReply 200 ''application/json'' [], pr_lan_peer = None, pr_lan = HttpFailed,
     pr_tunnel = (\<lambda>_ _. SpawnError []), pr_time = 0\<rparr>"

lemma demo_https: "poll_https demo_poll_env demo_reply = mk_obs ''reachable'' ''closed'' [''m''] []"
  by (simp add: poll_https_def demo_reply_def demo_poll_env_def http_observation_def json_content_type_def parse_models_def
        model_entry_def dict_get_def max_response_bytes_def py_strip_def py_isspace_def py_lower_def char_lower_def)

theorem observation_states_witness:
  "\<exists>ob p'. poll demo_poll_env demo_reply [(''kind'', PStr ''https'')] ''h'' 443 ''m'' None None \<lparr>po_sequence = 0, po_observations = []\<rparr>
       = (Inr ob, p') \<and> ob_models ob = [''m''] \<and> ob_endpoint_state ob = ''occupied-known'' \<and> ob_sequence ob = 1"
proof -
  define p where "p = \<lparr>po_sequence = 0, po_observations = []\<rparr>"
  have "\<exists>ob p'. poll demo_poll_env demo_reply [(''kind'', PStr ''https'')] ''h'' 443 ''m'' None None p = (Inr ob, p') \<and> ob_models ob = [''m'']"
    by (simp add: poll_def poll_once_def dict_get_def Let_def occupancy_def demo_https)
  then obtain ob p' where ob: "poll demo_poll_env demo_reply [(''kind'', PStr ''https'')] ''h'' 443 ''m'' None None p = (Inr ob, p')"
    "ob_models ob = [''m'']" by blast
  then show ?thesis using observation_states [OF ob(1)] by (auto simp: p_def)
qed

text \<open>Without a connected peer a poll over the trusted network raises.\<close>

lemma trusted_lan_needs_peer:
  "dict_get transport ''kind'' = PStr ''trusted-lan'' \<Longrightarrow>
     poll_once env r transport host port d None = Inl (AssertionError ''trusted-lan requires a connected peer'')"
  by (simp add: poll_once_def)

end
