(* ===== verification/Seat_Config.thy ===== *)
theory Seat_Config
  imports Seat_Fields "HOL-Library.List_Lexorder" "HOL-Library.Char_ord"
begin

text \<open>
  The closed schemas of \<open>seats.v1.json\<close> and \<open>state.v1.json\<close>: the validators of
  \<open>src/testudo/seats/config.py\<close>. A JSON object is a list of keys and values; a validator returns
  the object it was given or the error of the first rule it breaks, in the order of the source.
\<close>

section \<open>Constants\<close>

definition schema_seats :: string where "schema_seats = ''testudo.seats.v1''"
definition schema_state :: string where "schema_state = ''testudo.state.v1''"
definition seat_policy_version :: int where "seat_policy_version = 5"
definition max_hosts :: nat where "max_hosts = 16"
definition max_seats_per_host :: nat where "max_seats_per_host = 32"
definition max_seats_total :: nat where "max_seats_total = 512"
definition max_revision :: int where "max_revision = 9007199254740991"
definition max_pid_records :: nat where "max_pid_records = 512"
definition pid_int_max :: int where "pid_int_max = 2147483647"

definition consent_keys :: "string list" where
  "consent_keys = [''digest'', ''accepted_at'', ''policy_version'', ''ssh_effective_sha256'', ''host_key_fingerprint'']"

definition host_keys :: "string list" where
  "host_keys = [''id'', ''label'', ''ssh'', ''transport'', ''consent'', ''seats'']"

definition seat_common_keys :: "string list" where
  "seat_common_keys = [''id'', ''label'', ''template'', ''model_id'', ''port'', ''endpoint_host'', ''ready_timeout'']"

definition template_keys :: "string \<Rightarrow> string list" where
  "template_keys t = (if t = ''systemd-user'' then [''unit'']
     else if t = ''control-script'' then [''script'', ''start_subcommand'', ''stop_subcommand'', ''status_subcommand'']
     else [''launch_argv'', ''cwd''])"

definition ssh_alias_keys :: "string list" where "ssh_alias_keys = [''kind'', ''alias'']"
definition ssh_explicit_required_keys :: "string list" where
  "ssh_explicit_required_keys = [''kind'', ''user'', ''host'', ''port'']"

definition pid_record_keys :: "string list" where
  "pid_record_keys = [''host_id'', ''seat_id'', ''ssh_hostname'', ''ssh_port'', ''endpoint_host'', ''endpoint_port'',
     ''pid'', ''pgid'', ''proc_start_ticks'', ''boot_id'', ''argv_sha256'']"

section \<open>Closed objects\<close>

definition names_repr :: "string list \<Rightarrow> string" where
  "names_repr ks = ''['' @ comma_join (map py_repr (sorted_list_of_set (set ks))) @ '']''"

definition closed_object :: "string \<Rightarrow> pyval \<Rightarrow> string list \<Rightarrow> exn + pydict" where
  "closed_object field v allowed = (case v of
     PDict d \<Rightarrow>
       let unknown = filter (\<lambda>k. k \<notin> set allowed) (map fst d);
           missing = filter (\<lambda>k. k \<notin> fst ` set d) allowed
       in if unknown \<noteq> [] then verr field ''unknown-field'' (names_repr unknown)
          else if missing \<noteq> [] then verr field ''missing-field'' (names_repr missing)
          else Inr d
   | _ \<Rightarrow> verr field ''type'' ''expected an object'')"

text \<open>The variants with the keys each requires and the keys each allows besides.\<close>

type_synonym variants = "(string \<times> string list \<times> string list) list"

definition closed_object_with_kind :: "string \<Rightarrow> pyval \<Rightarrow> variants \<Rightarrow> string \<Rightarrow> exn + pydict" where
  "closed_object_with_kind field v vars kind_field = (case v of
     PDict d \<Rightarrow>
       let all_keys = concat (map (\<lambda>(k, req, opt). req @ opt) vars);
           unknown = filter (\<lambda>k. k \<notin> set all_keys) (map fst d)
       in if unknown \<noteq> [] then verr field ''unknown-field'' (names_repr unknown)
          else (case dict_get d kind_field of
            PStr kind \<Rightarrow>
              (case map_of vars kind of
                 None \<Rightarrow> verr (field @ ''.'' @ kind_field) ''discriminator'' []
               | Some (req, opt) \<Rightarrow>
                   let missing = filter (\<lambda>k. k \<notin> fst ` set d) req in
                   if missing \<noteq> [] then verr field ''missing-field'' (names_repr missing)
                   else Inr d)
          | _ \<Rightarrow> verr (field @ ''.'' @ kind_field) ''discriminator'' [])
   | _ \<Rightarrow> verr field ''type'' ''expected an object'')"

text \<open>\<open>validate_x(f"{field}.{key}", _require_str(f"{field}.{key}", obj[key]))\<close>.\<close>

definition str_key :: "string \<Rightarrow> pydict \<Rightarrow> string \<Rightarrow> (string \<Rightarrow> string \<Rightarrow> exn + string) \<Rightarrow> exn + string" where
  "str_key field d key check =
     (let f = field @ ''.'' @ key in rbind (require_str f (dict_get d key)) (check f))"

definition port_key :: "string \<Rightarrow> pydict \<Rightarrow> string \<Rightarrow> exn + int" where
  "port_key field d key = validate_port (field @ ''.'' @ key) (dict_get d key)"

section \<open>Hosts and seats\<close>

definition ssh_variants :: variants where
  "ssh_variants = [(''alias'', ssh_alias_keys, []), (''explicit'', ssh_explicit_required_keys, [''key_path''])]"

definition validate_ssh_descriptor :: "ip_compressed \<Rightarrow> string \<Rightarrow> pyval \<Rightarrow> exn + pydict" where
  "validate_ssh_descriptor ip field v =
     rbind (closed_object_with_kind field v ssh_variants ''kind'') (\<lambda>d.
     rbind (str_key field d ''kind'' validate_ssh_kind) (\<lambda>kind.
     if kind = ''alias'' then rbind (str_key field d ''alias'' validate_ssh_alias) (\<lambda>_. Inr d)
     else
       rbind (str_key field d ''user'' validate_ssh_user) (\<lambda>_.
       rbind (str_key field d ''host'' (canonical_hostname ip)) (\<lambda>_.
       rbind (port_key field d ''port'') (\<lambda>_.
       if ''key_path'' \<in> fst ` set d
       then rbind (str_key field d ''key_path'' validate_absolute_path) (\<lambda>_. Inr d)
       else Inr d)))))"

definition validate_transport :: "string \<Rightarrow> pyval \<Rightarrow> exn + pydict" where
  "validate_transport field v =
     rbind (closed_object field v [''kind'']) (\<lambda>d.
     rbind (str_key field d ''kind'' validate_transport_kind) (\<lambda>_. Inr d))"

definition validate_consent :: "string \<Rightarrow> pyval \<Rightarrow> exn + pyval" where
  "validate_consent field v = (if v = PNone then Inr PNone else
     rbind (closed_object field v consent_keys) (\<lambda>d.
     rbind (str_key field d ''digest'' validate_hex64) (\<lambda>_.
     rbind (str_key field d ''accepted_at'' validate_rfc3339_utc) (\<lambda>_.
     if dict_get d ''policy_version'' \<notin> {PInt seat_policy_version, PFloat (of_int seat_policy_version)} then
       verr (field @ ''.policy_version'') ''policy-version'' []
     else
       rbind (str_key field d ''ssh_effective_sha256'' validate_hex64) (\<lambda>_.
       rbind (str_key field d ''host_key_fingerprint'' validate_fingerprint) (\<lambda>_. Inr v))))))"

definition validate_template_fields :: "string \<Rightarrow> string \<Rightarrow> pydict \<Rightarrow> exn + pydict" where
  "validate_template_fields field template d =
     (if template = ''systemd-user'' then rbind (str_key field d ''unit'' validate_unit) (\<lambda>_. Inr d)
      else if template = ''control-script'' then
        rbind (str_key field d ''script'' validate_absolute_path) (\<lambda>_.
        rbind (rmap (\<lambda>key. str_key field d key validate_subcommand)
                 [''start_subcommand'', ''stop_subcommand'', ''status_subcommand'']) (\<lambda>_. Inr d))
      else
        rbind (validate_launch_argv (field @ ''.launch_argv'') (dict_get d ''launch_argv'')) (\<lambda>_.
        rbind (str_key field d ''cwd'' validate_absolute_path) (\<lambda>_. Inr d)))"

definition validate_seat :: "ip_compressed \<Rightarrow> string \<Rightarrow> pyval \<Rightarrow> exn + pydict" where
  "validate_seat ip field v = (case v of
     PDict raw \<Rightarrow>
       (case dict_get raw ''template'' of
          PStr template \<Rightarrow>
            rbind (validate_seat_template (field @ ''.template'') template) (\<lambda>_.
            rbind (closed_object field v (seat_common_keys @ template_keys template)) (\<lambda>d.
            rbind (str_key field d ''id'' validate_uuid4) (\<lambda>_.
            rbind (str_key field d ''label'' validate_label) (\<lambda>_.
            rbind (str_key field d ''model_id'' validate_model_id) (\<lambda>_.
            rbind (port_key field d ''port'') (\<lambda>_.
            rbind (str_key field d ''endpoint_host'' (canonical_hostname ip)) (\<lambda>_.
            rbind (validate_timeout (field @ ''.ready_timeout'') (dict_get d ''ready_timeout'') 30 1800) (\<lambda>_.
              validate_template_fields field template d))))))))
        | _ \<Rightarrow> verr (field @ ''.template'') ''type'' [])
   | _ \<Rightarrow> verr field ''type'' ''expected an object'')"

fun validate_each :: "(string \<Rightarrow> pyval \<Rightarrow> exn + pydict) \<Rightarrow> string \<Rightarrow> nat \<Rightarrow> pyval list \<Rightarrow> exn + pydict list" where
  "validate_each check field i [] = Inr []"
| "validate_each check field i (v # vs) =
     rbind (check (indexed field i) v) (\<lambda>d.
     rbind (validate_each check field (Suc i) vs) (\<lambda>ds. Inr (d # ds)))"

definition validate_seat_host :: "ip_compressed \<Rightarrow> string \<Rightarrow> pyval \<Rightarrow> exn + pydict" where
  "validate_seat_host ip field v =
     rbind (closed_object field v host_keys) (\<lambda>d.
     rbind (str_key field d ''id'' validate_uuid4) (\<lambda>_.
     rbind (str_key field d ''label'' validate_label) (\<lambda>_.
     rbind (validate_ssh_descriptor ip (field @ ''.ssh'') (dict_get d ''ssh'')) (\<lambda>_.
     rbind (validate_transport (field @ ''.transport'') (dict_get d ''transport'')) (\<lambda>_.
     rbind (validate_consent (field @ ''.consent'') (dict_get d ''consent'')) (\<lambda>_.
     (case dict_get d ''seats'' of
        PList seats \<Rightarrow>
          if max_seats_per_host < length seats then verr (field @ ''.seats'') ''cardinality'' ''>32 seats per host''
          else rbind (validate_each (validate_seat ip) (field @ ''.seats'') 0 seats) (\<lambda>_. Inr d)
      | _ \<Rightarrow> verr (field @ ''.seats'') ''type'' ''expected an array'')))))))"

section \<open>The whole configuration\<close>

definition as_dict :: "pyval \<Rightarrow> pydict" where "as_dict v = (case v of PDict d \<Rightarrow> d | _ \<Rightarrow> [])"
definition as_list :: "pyval \<Rightarrow> pyval list" where "as_list v = (case v of PList xs \<Rightarrow> xs | _ \<Rightarrow> [])"

definition seats_of :: "pydict \<Rightarrow> pydict list" where "seats_of h = map as_dict (as_list (dict_get h ''seats''))"
definition hosts_of :: "pydict \<Rightarrow> pydict list" where "hosts_of d = map as_dict (as_list (dict_get d ''hosts''))"

definition endpoint_model :: "pydict \<Rightarrow> pyval \<times> pyval \<times> pyval" where
  "endpoint_model s = (dict_get s ''endpoint_host'', dict_get s ''port'', dict_get s ''model_id'')"

definition revision_ok :: "string \<Rightarrow> pyval \<Rightarrow> exn + int" where
  "revision_ok field v = (case v of
     PInt n \<Rightarrow> if 0 \<le> n \<and> n \<le> max_revision then Inr n else verr field ''revision'' []
   | _ \<Rightarrow> verr field ''revision'' [])"

record uniq =
  seen_ids :: "pyval list"
  endpoints :: "(pyval \<times> pyval \<times> pyval) list"
  total_seats :: nat

fun unique_seats :: "nat \<Rightarrow> pydict list \<Rightarrow> uniq \<Rightarrow> exn + uniq" where
  "unique_seats i [] u = Inr u"
| "unique_seats i (seat # seats) u =
     (if dict_get seat ''id'' \<in> set (seen_ids u) then
        verr (indexed ''config.hosts'' i @ ''.seats[].id'') ''duplicate-id'' []
      else if endpoint_model seat \<in> set (endpoints u) then
        verr (indexed ''config.hosts'' i @ ''.seats[].endpoint'') ''duplicate-endpoint-model'' []
      else unique_seats i seats \<lparr>seen_ids = seen_ids u @ [dict_get seat ''id''],
             endpoints = endpoints u @ [endpoint_model seat], total_seats = Suc (total_seats u)\<rparr>)"

fun check_hosts :: "ip_compressed \<Rightarrow> nat \<Rightarrow> pyval list \<Rightarrow> uniq \<Rightarrow> exn + uniq" where
  "check_hosts ip i [] u = Inr u"
| "check_hosts ip i (v # vs) u =
     rbind (validate_seat_host ip (indexed ''config.hosts'' i) v) (\<lambda>host.
     if dict_get host ''id'' \<in> set (seen_ids u) then
       verr (indexed ''config.hosts'' i @ ''.id'') ''duplicate-id'' []
     else rbind (unique_seats i (seats_of host) (u\<lparr>seen_ids := seen_ids u @ [dict_get host ''id'']\<rparr>))
            (check_hosts ip (Suc i) vs))"

definition validate_seats_config :: "ip_compressed \<Rightarrow> pyval \<Rightarrow> exn + pydict" where
  "validate_seats_config ip v =
     rbind (closed_object ''config'' v [''schema'', ''revision'', ''hosts'']) (\<lambda>d.
     if dict_get d ''schema'' \<noteq> PStr schema_seats then verr ''config.schema'' ''schema'' []
     else rbind (revision_ok ''config.revision'' (dict_get d ''revision'')) (\<lambda>_.
     (case dict_get d ''hosts'' of
        PList hosts \<Rightarrow>
          if max_hosts < length hosts then verr ''config.hosts'' ''cardinality'' ''>16 hosts''
          else rbind (check_hosts ip 0 hosts \<lparr>seen_ids = [], endpoints = [], total_seats = 0\<rparr>) (\<lambda>u.
            if max_seats_total < total_seats u then verr ''config.hosts'' ''cardinality'' ''>512 seats total''
            else Inr d)
      | _ \<Rightarrow> verr ''config.hosts'' ''type'' ''expected an array'')))"

definition empty_seats_config :: pydict where
  "empty_seats_config = [(''schema'', PStr schema_seats), (''revision'', PInt 0), (''hosts'', PList [])]"

definition shared_endpoint_pairs :: "pydict \<Rightarrow> (pyval \<times> pyval) set" where
  "shared_endpoint_pairs config =
     (let pairs = map (\<lambda>s. (dict_get s ''endpoint_host'', dict_get s ''port'')) (concat (map seats_of (hosts_of config)))
      in {p \<in> set pairs. 1 < count_list pairs p})"

section \<open>Runtime state\<close>

definition pid_number :: "string \<Rightarrow> pydict \<Rightarrow> string \<Rightarrow> exn + int" where
  "pid_number field d key = (case dict_get d key of
     PInt n \<Rightarrow> if 1 \<le> n \<and> n \<le> pid_int_max then Inr n else verr (field @ ''.'' @ key) ''integer-range'' []
   | _ \<Rightarrow> verr (field @ ''.'' @ key) ''integer-range'' [])"

definition validate_pid_record :: "ip_compressed \<Rightarrow> string \<Rightarrow> pyval \<Rightarrow> exn + pydict" where
  "validate_pid_record ip field v =
     rbind (closed_object field v pid_record_keys) (\<lambda>d.
     rbind (str_key field d ''host_id'' validate_uuid4) (\<lambda>_.
     rbind (str_key field d ''seat_id'' validate_uuid4) (\<lambda>_.
     rbind (str_key field d ''ssh_hostname'' (canonical_hostname ip)) (\<lambda>_.
     rbind (port_key field d ''ssh_port'') (\<lambda>_.
     rbind (str_key field d ''endpoint_host'' (canonical_hostname ip)) (\<lambda>_.
     rbind (port_key field d ''endpoint_port'') (\<lambda>_.
     rbind (rmap (pid_number field d) [''pid'', ''pgid'', ''proc_start_ticks'']) (\<lambda>_.
     rbind (str_key field d ''boot_id'' validate_boot_id) (\<lambda>_.
     rbind (str_key field d ''argv_sha256'' validate_hex64) (\<lambda>_. Inr d))))))))))"

definition record_key :: "pydict \<Rightarrow> pyval \<times> pyval" where
  "record_key d = (dict_get d ''host_id'', dict_get d ''seat_id'')"

fun check_records :: "ip_compressed \<Rightarrow> nat \<Rightarrow> pyval list \<Rightarrow> (pyval \<times> pyval) list \<Rightarrow> exn + (pyval \<times> pyval) list" where
  "check_records ip i [] seen = Inr seen"
| "check_records ip i (v # vs) seen =
     rbind (validate_pid_record ip (indexed ''state.pid_records'' i) v) (\<lambda>d.
     if record_key d \<in> set seen then verr (indexed ''state.pid_records'' i) ''duplicate-seat-record'' []
     else check_records ip (Suc i) vs (seen @ [record_key d]))"

definition validate_state :: "ip_compressed \<Rightarrow> pyval \<Rightarrow> exn + pydict" where
  "validate_state ip v =
     rbind (closed_object ''state'' v [''schema'', ''revision'', ''pid_records'']) (\<lambda>d.
     if dict_get d ''schema'' \<noteq> PStr schema_state then verr ''state.schema'' ''schema'' []
     else rbind (revision_ok ''state.revision'' (dict_get d ''revision'')) (\<lambda>_.
     (case dict_get d ''pid_records'' of
        PList recs \<Rightarrow>
          if max_pid_records < length recs then verr ''state.pid_records'' ''cardinality'' []
          else rbind (check_records ip 0 recs []) (\<lambda>_. Inr d)
      | _ \<Rightarrow> verr ''state.pid_records'' ''type'' [])))"

definition empty_state :: pydict where
  "empty_state = [(''schema'', PStr schema_state), (''revision'', PInt 0), (''pid_records'', PList [])]"

section \<open>Accepted configurations\<close>

definition seat_wf :: "ip_compressed \<Rightarrow> pydict \<Rightarrow> bool" where
  "seat_wf ip s \<longleftrightarrow> (\<exists>t i m p h c r.
     dict_get s ''template'' = PStr t \<and> t \<in> set seat_templates
     \<and> fst ` set s = set (seat_common_keys @ template_keys t)
     \<and> dict_get s ''id'' = PStr i \<and> uuid4_re i
     \<and> dict_get s ''model_id'' = PStr m \<and> len_in 1 512 m \<and> list_all model_char m \<and> \<not> prefix ''-'' m
     \<and> dict_get s ''port'' = PInt p \<and> 1 \<le> p \<and> p \<le> 65535
     \<and> dict_get s ''endpoint_host'' = PStr h \<and> (\<exists>f. canonical_hostname ip f h = Inr c)
     \<and> dict_get s ''ready_timeout'' = PInt r \<and> 30 \<le> r \<and> r \<le> 1800)"

definition host_wf :: "ip_compressed \<Rightarrow> pydict \<Rightarrow> bool" where
  "host_wf ip h \<longleftrightarrow> fst ` set h = set host_keys \<and> (\<exists>i. dict_get h ''id'' = PStr i \<and> uuid4_re i)
     \<and> length (seats_of h) \<le> 32 \<and> list_all (seat_wf ip) (seats_of h)"

definition host_ids :: "pydict \<Rightarrow> pyval list" where
  "host_ids h = dict_get h ''id'' # map (\<lambda>s. dict_get s ''id'') (seats_of h)"

definition config_wf :: "ip_compressed \<Rightarrow> pydict \<Rightarrow> bool" where
  "config_wf ip d \<longleftrightarrow> (let hosts = hosts_of d in
     length hosts \<le> 16 \<and> list_all (host_wf ip) hosts
     \<and> distinct (concat (map host_ids hosts))
     \<and> distinct (map endpoint_model (concat (map seats_of hosts)))
     \<and> length (concat (map seats_of hosts)) \<le> 512)"

lemma closed_object_Inr:
  "closed_object field v allowed = Inr d \<Longrightarrow> v = PDict d \<and> fst ` set d = set allowed"
  by (auto simp: closed_object_def Let_def filter_empty_conv split: pyval.splits if_splits)

lemma str_key_Inr: "str_key field d key check = Inr r \<Longrightarrow> \<exists>s. dict_get d key = PStr s \<and> check (field @ ''.'' @ key) s = Inr r"
  by (auto simp: str_key_def Let_def rbind_eq_Inr require_str_Inr)

lemma validate_template_fields_Inr: "validate_template_fields field t d = Inr d' \<Longrightarrow> d' = d"
  by (auto simp: validate_template_fields_def rbind_eq_Inr split: if_splits)

lemma validate_seat_Inr:
  assumes "validate_seat ip field v = Inr d"
  shows "v = PDict d \<and> seat_wf ip d"
proof -
  obtain raw t d0 i l m p c r where raw: "v = PDict raw" "dict_get raw ''template'' = PStr t"
    and t: "validate_seat_template (field @ ''.template'') t = Inr i"
    and c: "closed_object field v (seat_common_keys @ template_keys t) = Inr d0"
    and fs: "str_key field d0 ''id'' validate_uuid4 = Inr l" "str_key field d0 ''model_id'' validate_model_id = Inr m"
      "port_key field d0 ''port'' = Inr p" "str_key field d0 ''endpoint_host'' (canonical_hostname ip) = Inr c"
      "validate_timeout (field @ ''.ready_timeout'') (dict_get d0 ''ready_timeout'') 30 1800 = Inr r"
      "validate_template_fields field t d0 = Inr d"
    using assms by (auto simp: validate_seat_def rbind_eq_Inr split: pyval.splits)
  have d0: "d0 = raw" "fst ` set raw = set (seat_common_keys @ template_keys t)"
    using closed_object_Inr [OF c] raw by auto
  have d: "d = raw" using validate_template_fields_Inr [OF fs(6)] d0 by simp
  obtain s1 where s1: "dict_get raw ''id'' = PStr s1" "uuid4_re s1"
    using str_key_Inr [OF fs(1)] d0 by (auto simp: validate_uuid4_def field_class_Inr)
  obtain s2 where s2: "dict_get raw ''model_id'' = PStr s2" "len_in 1 512 s2" "list_all model_char s2" "\<not> prefix ''-'' s2"
    using str_key_Inr [OF fs(2)] d0
    by (auto simp: validate_model_id_def rbind_eq_Inr field_class_Inr first_char_not_dash_Inr)
  obtain s3 where s3: "dict_get raw ''endpoint_host'' = PStr s3" "canonical_hostname ip (field @ ''.endpoint_host'') s3 = Inr c"
    using str_key_Inr [OF fs(4)] d0 by auto
  have "dict_get raw ''port'' = PInt p \<and> 1 \<le> p \<and> p \<le> 65535"
    using fs(3) d0 by (simp add: port_key_def validate_port_def validate_range_Inr)
  moreover have "dict_get raw ''ready_timeout'' = PInt r \<and> 30 \<le> r \<and> r \<le> 1800"
    using fs(5) d0 by (simp add: validate_timeout_def validate_range_Inr)
  moreover have "t \<in> set seat_templates"
    using t by (auto simp: validate_seat_template_def one_of_def split: if_splits)
  ultimately show ?thesis
    unfolding seat_wf_def using raw d0(2) d s1 s2 s3 by blast
qed

lemma validate_each_Inr:
  assumes "validate_each check field i vs = Inr ds" and "\<And>f v d. check f v = Inr d \<Longrightarrow> v = PDict d \<and> P d"
  shows "vs = map PDict ds \<and> list_all P ds"
  using assms(1)
proof (induction vs arbitrary: i ds)
  case (Cons v vs)
  then show ?case using assms(2) by (fastforce simp: rbind_eq_Inr)
qed simp

lemma seats_of_map: "dict_get h ''seats'' = PList (map PDict ds) \<Longrightarrow> seats_of h = ds"
  by (simp add: seats_of_def as_list_def as_dict_def comp_def)

lemma validate_seat_host_Inr:
  assumes "validate_seat_host ip field v = Inr d"
  shows "v = PDict d \<and> host_wf ip d"
proof -
  obtain d0 i seats ds where c: "closed_object field v host_keys = Inr d0"
    and i: "str_key field d0 ''id'' validate_uuid4 = Inr i"
    and s: "dict_get d0 ''seats'' = PList seats" "length seats \<le> 32"
      "validate_each (validate_seat ip) (field @ ''.seats'') 0 seats = Inr ds" and d: "d = d0"
    using assms unfolding validate_seat_host_def
    by (elim rbindE) (auto simp: max_seats_per_host_def elim!: rbindE split: pyval.split_asm if_split_asm)
  obtain x where "dict_get d ''id'' = PStr x" "uuid4_re x"
    using str_key_Inr [OF i] d by (auto simp: validate_uuid4_def field_class_Inr)
  moreover have "seats = map PDict ds \<and> list_all (seat_wf ip) ds"
    using validate_each_Inr [OF s(3), of "seat_wf ip"] validate_seat_Inr by blast
  ultimately show ?thesis
    using closed_object_Inr [OF c] d s(1,2) seats_of_map [of d ds] by (auto simp: host_wf_def)
qed

lemma unique_seats_Inr:
  assumes "unique_seats i seats u = Inr u'" and "distinct (seen_ids u)" and "distinct (endpoints u)"
  shows "seen_ids u' = seen_ids u @ map (\<lambda>s. dict_get s ''id'') seats \<and> distinct (seen_ids u')
     \<and> endpoints u' = endpoints u @ map endpoint_model seats \<and> distinct (endpoints u')
     \<and> total_seats u' = total_seats u + length seats"
  using assms
proof (induction seats arbitrary: u)
  case (Cons s seats)
  let ?u = "\<lparr>seen_ids = seen_ids u @ [dict_get s ''id''], endpoints = endpoints u @ [endpoint_model s],
    total_seats = Suc (total_seats u)\<rparr>"
  have "unique_seats i seats ?u = Inr u'" "distinct (seen_ids ?u)" "distinct (endpoints ?u)"
    using Cons.prems by (auto split: if_splits)
  from Cons.IH [OF this] show ?case by (auto simp del: distinct_append)
qed simp

lemma check_hosts_Inr:
  assumes "check_hosts ip i vs u = Inr u'" and "distinct (seen_ids u)" and "distinct (endpoints u)"
  shows "\<exists>hs. vs = map PDict hs \<and> list_all (host_wf ip) hs
     \<and> seen_ids u' = seen_ids u @ concat (map host_ids hs) \<and> distinct (seen_ids u')
     \<and> endpoints u' = endpoints u @ map endpoint_model (concat (map seats_of hs)) \<and> distinct (endpoints u')
     \<and> total_seats u' = total_seats u + length (concat (map seats_of hs))"
  using assms
proof (induction vs arbitrary: i u)
  case (Cons v vs)
  then obtain h u1 where h: "validate_seat_host ip (indexed ''config.hosts'' i) v = Inr h"
    and new: "dict_get h ''id'' \<notin> set (seen_ids u)"
    and u1: "unique_seats i (seats_of h) (u\<lparr>seen_ids := seen_ids u @ [dict_get h ''id'']\<rparr>) = Inr u1"
    and rest: "check_hosts ip (Suc i) vs u1 = Inr u'"
    by (auto simp: rbind_eq_Inr split: if_splits)
  have u1': "seen_ids u1 = seen_ids u @ host_ids h" "distinct (seen_ids u1)"
    "endpoints u1 = endpoints u @ map endpoint_model (seats_of h)" "distinct (endpoints u1)"
    "total_seats u1 = total_seats u + length (seats_of h)"
  proof -
    have "distinct (seen_ids u @ [dict_get h ''id''])" "distinct (endpoints u)" using Cons.prems(2,3) new by simp_all
    then show "seen_ids u1 = seen_ids u @ host_ids h" "distinct (seen_ids u1)"
      "endpoints u1 = endpoints u @ map endpoint_model (seats_of h)" "distinct (endpoints u1)"
      "total_seats u1 = total_seats u + length (seats_of h)"
      using unique_seats_Inr [OF u1] by (auto simp add: host_ids_def simp del: distinct_append)
  qed
  obtain hs where "vs = map PDict hs" "list_all (host_wf ip) hs"
    "seen_ids u' = seen_ids u1 @ concat (map host_ids hs)" "distinct (seen_ids u')"
    "endpoints u' = endpoints u1 @ map endpoint_model (concat (map seats_of hs))" "distinct (endpoints u')"
    "total_seats u' = total_seats u1 + length (concat (map seats_of hs))"
    using Cons.IH [OF rest u1'(2,4)] by blast
  then show ?case using validate_seat_host_Inr [OF h] u1' by (intro exI [of _ "h # hs"]) simp
qed simp

lemma revision_ok_Inr: "revision_ok field v = Inr n \<longleftrightarrow> v = PInt n \<and> 0 \<le> n \<and> n \<le> max_revision"
  by (cases v) (auto simp: revision_ok_def)

lemma validate_seats_config_Inr:
  assumes "validate_seats_config ip v = Inr d"
  shows "v = PDict d \<and> config_wf ip d \<and> (\<exists>n. dict_get d ''revision'' = PInt n \<and> 0 \<le> n \<and> n \<le> max_revision)"
proof -
  obtain d0 n hosts u where c: "closed_object ''config'' v [''schema'', ''revision'', ''hosts''] = Inr d0"
    and n: "revision_ok ''config.revision'' (dict_get d0 ''revision'') = Inr n"
    and hs: "dict_get d0 ''hosts'' = PList hosts" "length hosts \<le> 16"
    and u: "check_hosts ip 0 hosts \<lparr>seen_ids = [], endpoints = [], total_seats = 0\<rparr> = Inr u" "total_seats u \<le> 512"
    and d: "d = d0"
    using assms unfolding validate_seats_config_def
    by (elim rbindE) (auto simp: max_hosts_def max_seats_total_def elim!: rbindE split: pyval.split_asm if_split_asm)
  obtain ds where ds: "hosts = map PDict ds" "list_all (host_wf ip) ds" "distinct (concat (map host_ids ds))"
    "distinct (map endpoint_model (concat (map seats_of ds)))" "total_seats u = length (concat (map seats_of ds))"
    using check_hosts_Inr [OF u(1)] by auto
  have "hosts_of d = ds" using hs(1) ds(1) d by (simp add: hosts_of_def as_list_def as_dict_def comp_def)
  then show ?thesis
    using closed_object_Inr [OF c] n d ds hs(2) u(2) by (auto simp: config_wf_def revision_ok_Inr)
qed

text \<open>
  C23: An accepted configuration is well formed: at most 16 hosts with at most 32 seats each, every
  id a version 4 UUID that occurs once among all hosts and seats, no two seats with the same
  endpoint and model, and every seat with exactly the keys of its template and with port,
  timeout, model id and endpoint in their ranges.
\<close>

theorem validated_config_wf:
  assumes "validate_seats_config ip v = Inr d"
  shows "v = PDict d \<and> config_wf ip d"
  using validate_seats_config_Inr [OF assms] by blast

section \<open>Two spellings of an endpoint\<close>

definition twin_seat :: "string \<Rightarrow> string \<Rightarrow> pydict" where
  "twin_seat i h = [(''id'', PStr i), (''label'', PStr ''seat''), (''template'', PStr ''systemd-user''),
     (''model_id'', PStr ''qwen''), (''port'', PInt 8000), (''endpoint_host'', PStr h),
     (''ready_timeout'', PInt 60), (''unit'', PStr ''llm.service'')]"

definition twin_config :: pydict where
  "twin_config = [(''schema'', PStr ''testudo.seats.v1''), (''revision'', PInt 1), (''hosts'', PList [PDict
     [(''id'', PStr ''00000000-0000-4000-8000-000000000000''), (''label'', PStr ''host''),
      (''ssh'', PDict [(''kind'', PStr ''alias''), (''alias'', PStr ''spark'')]),
      (''transport'', PDict [(''kind'', PStr ''ssh-tunnel'')]), (''consent'', PNone),
      (''seats'', PList [PDict (twin_seat ''00000000-0000-4000-8000-000000000001'' ''localhost''),
                        PDict (twin_seat ''00000000-0000-4000-8000-000000000002'' ''LocalHost.'')])]])]"

theorem validated_config_wf_witness:
  "config_wf (\<lambda>_. None) twin_config"
proof -
  have "validate_seats_config (\<lambda>_. None) (PDict twin_config) = Inr twin_config" by code_simp
  then show ?thesis using validated_config_wf by blast
qed

text \<open>
  Uniqueness of endpoints is decided on the spelling, not on the canonical name the validator
  computes: a configuration with two seats for the same model on \<open>localhost\<close> and \<open>LocalHost.\<close>,
  the same host and port, is accepted.
\<close>

theorem same_endpoint_twice:
  "validate_seats_config (\<lambda>_. None) (PDict twin_config) = Inr twin_config
   \<and> map (\<lambda>s. case endpoint_model s of (h, p, m) \<Rightarrow>
        (rbind (require_str ''h'' h) (canonical_hostname (\<lambda>_. None) ''h''), p, m)) (concat (map seats_of (hosts_of twin_config)))
     = [(Inr ''localhost'', PInt 8000, PStr ''qwen''), (Inr ''localhost'', PInt 8000, PStr ''qwen'')]"
  by code_simp

text \<open>A descriptor of kind \<open>alias\<close> may carry the keys of the other kind, with any values.\<close>

lemma alias_with_explicit_keys:
  "validate_ssh_descriptor ip field (PDict [(''kind'', PStr ''alias''), (''alias'', PStr ''spark''), (''port'', PNone)])
     = Inr [(''kind'', PStr ''alias''), (''alias'', PStr ''spark''), (''port'', PNone)]"
proof -
  have "validate_ssh_alias f ''spark'' = Inr ''spark''" for f
    by (simp add: validate_ssh_alias_def field_class_def check_common_def is_control_def len_in_def
        first_char_not_dash_def hostname_re_def dns_label_def lower_alpha_def py_defs suffix_def)
  then show ?thesis
    by (simp add: validate_ssh_descriptor_def closed_object_with_kind_def ssh_variants_def ssh_alias_keys_def
        ssh_explicit_required_keys_def str_key_def dict_get_def validate_ssh_kind_def one_of_def require_str_def)
qed

end
