(* ===== verification/Seat_Store.thy ===== *)
theory Seat_Store
  imports Seat_Config
begin

text \<open>
  The locked, atomic, self-healing stores of \<open>seats.v1.json\<close> and \<open>state.v1.json\<close>:
  \<open>SeatStore\<close> and \<open>StateStore\<close> of \<open>src/testudo/seats/config.py\<close>, which share one algorithm.

  The state is the file at the store's path, the copies set aside by quarantine and a counter
  of the calls to the operating system; the oracle \<open>sc_faults\<close> says which of these calls raise.
  The lock makes each operation one step. \<open>json.dumps\<close> and the composition of decoding with
  \<open>json.loads\<close> are parameters; the file holds the bytes of the text, which is ASCII.
\<close>

record store_cfg =
  sc_validate :: "pyval \<Rightarrow> exn + pydict"
  sc_empty :: pydict
  sc_limit :: int
  sc_path :: string
  sc_dumps :: "pydict \<Rightarrow> string"
  sc_loads :: "string \<Rightarrow> exn + pyval"
  sc_faults :: "nat \<Rightarrow> exn option"

record store_state =
  sf_file :: "string option"
  sf_quarantined :: "string list"
  sf_calls :: nat

definition os_call :: "store_cfg \<Rightarrow> (store_state, unit) act" where
  "os_call cfg = awith (\<lambda>s. abind (aset (\<lambda>s. s\<lparr>sf_calls := Suc (sf_calls s)\<rparr>)) (\<lambda>_.
     case sc_faults cfg (sf_calls s) of None \<Rightarrow> aret () | Some e \<Rightarrow> araise e))"

fun os_calls :: "store_cfg \<Rightarrow> nat \<Rightarrow> (store_state, unit) act" where
  "os_calls cfg 0 = aret ()"
| "os_calls cfg (Suc n) = abind (os_call cfg) (\<lambda>_. os_calls cfg n)"

text \<open>
  \<open>mkstemp\<close>; then, with the temporary file removed on any error, \<open>fchmod\<close>, write, flush and
  \<open>fsync\<close>, the rename, and opening and syncing the directory.
\<close>

definition atomic_write_locked :: "store_cfg \<Rightarrow> string \<Rightarrow> (store_state, unit) act" where
  "atomic_write_locked cfg text =
     abind (os_call cfg) (\<lambda>_.
     acatch (\<lambda>_. True)
       (abind (os_calls cfg 5) (\<lambda>_.
        abind (aset (\<lambda>s. s\<lparr>sf_file := Some text\<rparr>)) (\<lambda>_. os_calls cfg 2)))
       (\<lambda>e. abind (os_call cfg) (\<lambda>_. araise e)))"

definition quarantine_locked :: "store_cfg \<Rightarrow> string \<Rightarrow> (store_state, unit) act" where
  "quarantine_locked cfg raw =
     abind (os_call cfg) (\<lambda>_.
     abind (aset (\<lambda>s. s\<lparr>sf_file := None, sf_quarantined := sf_quarantined s @ [raw]\<rparr>)) (\<lambda>_.
     abind (os_calls cfg 3) (\<lambda>_. atomic_write_locked cfg (sc_dumps cfg (sc_empty cfg)))))"

definition set_aside :: "store_cfg \<Rightarrow> string \<Rightarrow> (store_state, pydict) act" where
  "set_aside cfg raw = abind (quarantine_locked cfg raw) (\<lambda>_. araise (StoreCorruptError (sc_path cfg)))"

definition corrupt_exn :: "exn \<Rightarrow> bool" where
  "corrupt_exn e = (case e of UnicodeDecodeError _ \<Rightarrow> True | JSONDecodeError _ \<Rightarrow> True | ValidationError _ \<Rightarrow> True
     | _ \<Rightarrow> False)"

definition load_locked :: "store_cfg \<Rightarrow> (store_state, pydict) act" where
  "load_locked cfg =
     abind (os_call cfg) (\<lambda>_. awith (\<lambda>s. case sf_file s of
       None \<Rightarrow> abind (atomic_write_locked cfg (sc_dumps cfg (sc_empty cfg))) (\<lambda>_. aret (sc_empty cfg))
     | Some raw \<Rightarrow>
         if sc_limit cfg < int (length raw) then set_aside cfg raw
         else (case rbind (sc_loads cfg raw) (sc_validate cfg) of
           Inr d \<Rightarrow> aret d
         | Inl e \<Rightarrow> if corrupt_exn e then set_aside cfg raw else araise e)))"

text \<open>The lock: checks of the lock file, opening it and \<open>flock\<close>.\<close>

definition enter_lock :: "store_cfg \<Rightarrow> (store_state, unit) act" where
  "enter_lock cfg = os_call cfg"

definition store_load :: "store_cfg \<Rightarrow> (store_state, pydict) act" where
  "store_load cfg =
     abind (enter_lock cfg) (\<lambda>_. abind (os_call cfg) (\<lambda>_. load_locked cfg))"

definition revision_of :: "pydict \<Rightarrow> int" where
  "revision_of d = (case dict_get d ''revision'' of PInt n \<Rightarrow> n | _ \<Rightarrow> 0)"

definition store_corrupt :: "exn \<Rightarrow> bool" where
  "store_corrupt e = (case e of StoreCorruptError _ \<Rightarrow> True | _ \<Rightarrow> False)"

definition store_mutate :: "store_cfg \<Rightarrow> int \<Rightarrow> (pydict \<Rightarrow> exn + pydict) \<Rightarrow> (store_state, pydict) act" where
  "store_mutate cfg expected_revision mutation =
     abind (enter_lock cfg) (\<lambda>_.
     abind (acatch store_corrupt (load_locked cfg) (\<lambda>_. load_locked cfg)) (\<lambda>current.
     if revision_of current \<noteq> expected_revision then
       araise (ConflictError (''expected revision '' @ int_str expected_revision @ '', found ''
         @ int_str (revision_of current)))
     else
       abind (alift (mutation current)) (\<lambda>updated.
       abind (alift (sc_validate cfg (PDict updated))) (\<lambda>_.
       let final = AList.update ''revision'' (PInt (revision_of current + 1)) updated in
       abind (atomic_write_locked cfg (sc_dumps cfg final)) (\<lambda>_. aret final)))))"

section \<open>The two stores\<close>

record store_env =
  se_ip :: ip_compressed
  se_dumps :: "pydict \<Rightarrow> string"
  se_loads :: "string \<Rightarrow> exn + pyval"
  se_faults :: "nat \<Rightarrow> exn option"

definition max_config_bytes :: int where "max_config_bytes = 1024 * 1024"
definition max_state_bytes :: int where "max_state_bytes = 1024 * 1024"

definition seat_store :: "store_env \<Rightarrow> store_cfg" where
  "seat_store env = \<lparr>sc_validate = validate_seats_config (se_ip env), sc_empty = empty_seats_config,
     sc_limit = max_config_bytes, sc_path = ''seats.v1.json'', sc_dumps = se_dumps env, sc_loads = se_loads env,
     sc_faults = se_faults env\<rparr>"

definition state_store :: "store_env \<Rightarrow> store_cfg" where
  "state_store env = \<lparr>sc_validate = validate_state (se_ip env), sc_empty = empty_state,
     sc_limit = max_state_bytes, sc_path = ''state.v1.json'', sc_dumps = se_dumps env, sc_loads = se_loads env,
     sc_faults = se_faults env\<rparr>"

section \<open>Sessions\<close>

datatype store_op = SLoad | SMutate int "pydict \<Rightarrow> exn + pydict"

fun store_step :: "store_cfg \<Rightarrow> store_op \<Rightarrow> store_state \<Rightarrow> (exn + pydict) \<times> store_state" where
  "store_step cfg SLoad = store_load cfg"
| "store_step cfg (SMutate r f) = store_mutate cfg r f"

definition store_init :: store_state where
  "store_init = \<lparr>sf_file = None, sf_quarantined = [], sf_calls = 0\<rparr>"

section \<open>What the calls change\<close>

definition same_files :: "store_state \<Rightarrow> store_state \<Rightarrow> bool" where
  "same_files s s' \<longleftrightarrow> sf_file s' = sf_file s \<and> sf_quarantined s' = sf_quarantined s"

lemma same_files_preorder: "reflp same_files" "transp same_files"
  by (auto simp: same_files_def intro!: reflpI transpI)

lemma keeps_os_call: "keeps same_files (os_call cfg)"
  by (auto simp: keeps_def os_call_def same_files_def split: option.splits)

lemma keeps_os_calls: "keeps same_files (os_calls cfg n)"
proof (induction n)
  case 0
  show ?case unfolding os_calls.simps by (intro keeps_aret same_files_preorder)
next
  case (Suc n)
  then show ?case unfolding os_calls.simps by (intro keeps_abind keeps_os_call same_files_preorder)
qed

lemma os_call_same: "os_call cfg s = (r, s') \<Longrightarrow> same_files s s'"
  using keepsD [OF keeps_os_call] by blast

lemma os_calls_same: "os_calls cfg n s = (r, s') \<Longrightarrow> same_files s s'"
  using keepsD [OF keeps_os_calls] by blast

text \<open>Writing leaves the old file or the new one, never anything else, and on success the new one.\<close>

lemma atomic_write_cases:
  assumes "atomic_write_locked cfg text s = (r, s')"
  shows "sf_quarantined s' = sf_quarantined s \<and> (sf_file s' = sf_file s \<or> sf_file s' = Some text)
     \<and> (r = Inr () \<longrightarrow> sf_file s' = Some text)"
proof -
  obtain r1 s1 where r1: "os_call cfg s = (r1, s1)" by fastforce
  obtain r2 s2 where r2: "os_calls cfg 5 s1 = (r2, s2)" by fastforce
  obtain r3 s3 where r3: "os_calls cfg 2 (s2\<lparr>sf_file := Some text\<rparr>) = (r3, s3)" by fastforce
  have same: "same_files s s1" "same_files s1 s2" "same_files (s2\<lparr>sf_file := Some text\<rparr>) s3"
    using os_call_same [OF r1] os_calls_same [OF r2] os_calls_same [OF r3] by simp_all
  have handler: "sf_file s5 = sf_file s4 \<and> sf_quarantined s5 = sf_quarantined s4 \<and> q \<noteq> Inr ()"
    if "abind (os_call cfg) (\<lambda>_. araise e) s4 = (q, s5)" for e q s4 s5
    using that os_call_same [of cfg s4] by (cases "os_call cfg s4"; cases "fst (os_call cfg s4)") (auto simp: same_files_def)
  show ?thesis
    using assms same r1 r2 r3
    by (cases r1; cases r2; cases r3) (auto simp: atomic_write_locked_def acatch_def same_files_def dest!: handler)
qed

lemma set_aside_cases:
  assumes "set_aside cfg raw s = (r, s')"
  shows "(\<exists>e. r = Inl e) \<and> (same_files s s'
     \<or> sf_quarantined s' = sf_quarantined s @ [raw] \<and> (sf_file s' = None \<or> sf_file s' = Some (sc_dumps cfg (sc_empty cfg))))"
proof -
  obtain r1 s1 where r1: "os_call cfg s = (r1, s1)" by fastforce
  let ?t = "s1\<lparr>sf_file := None, sf_quarantined := sf_quarantined s1 @ [raw]\<rparr>"
  obtain r2 s2 where r2: "os_calls cfg 3 ?t = (r2, s2)" by fastforce
  obtain r3 s3 where r3: "atomic_write_locked cfg (sc_dumps cfg (sc_empty cfg)) s2 = (r3, s3)" by fastforce
  show ?thesis
    using assms r1 r2 r3 os_call_same [OF r1] os_calls_same [OF r2] atomic_write_cases [OF r3]
    by (cases r1; cases r2; cases r3) (auto simp: set_aside_def quarantine_locked_def same_files_def)
qed

lemma load_locked_cases:
  assumes "load_locked cfg s = (r, s')"
  shows "sf_quarantined s' = sf_quarantined s \<and> sf_file s' = sf_file s
       \<and> (\<forall>d. r = Inr d \<longrightarrow> (\<exists>raw v. sf_file s = Some raw \<and> \<not> sc_limit cfg < int (length raw)
            \<and> sc_loads cfg raw = Inr v \<and> sc_validate cfg v = Inr d))
     \<or> sf_quarantined s' = sf_quarantined s \<and> sf_file s = None \<and> sf_file s' = Some (sc_dumps cfg (sc_empty cfg))
       \<and> (\<forall>d. r = Inr d \<longrightarrow> d = sc_empty cfg)
     \<or> (\<exists>raw. sf_file s = Some raw \<and> sf_quarantined s' = sf_quarantined s @ [raw] \<and> (\<exists>e. r = Inl e)
       \<and> (sf_file s' = None \<or> sf_file s' = Some (sc_dumps cfg (sc_empty cfg))))"
proof -
  obtain r1 s1 where r1: "os_call cfg s = (r1, s1)" by fastforce
  have same: "sf_file s1 = sf_file s" "sf_quarantined s1 = sf_quarantined s"
    using os_call_same [OF r1] by (simp_all add: same_files_def)
  show ?thesis
  proof (cases r1)
    case (Inl e)
    then show ?thesis using assms r1 same by (auto simp: load_locked_def)
  next
    case (Inr u)
    show ?thesis
    proof (cases "sf_file s")
      case None
      obtain r2 s2 where r2: "atomic_write_locked cfg (sc_dumps cfg (sc_empty cfg)) s1 = (r2, s2)" by fastforce
      show ?thesis
        using assms r1 Inr None same r2 atomic_write_cases [OF r2] by (cases r2) (auto simp: load_locked_def)
    next
      case (Some raw)
      show ?thesis
      proof (cases "set_aside cfg raw s1 = (r, s')")
        case True
        then show ?thesis using set_aside_cases [OF True] same Some by (auto simp: same_files_def)
      next
        case False
        then show ?thesis
          using assms r1 Inr Some same
          by (auto simp: load_locked_def split: if_splits sum.splits)
      qed
    qed
  qed
qed

section \<open>What the stores share\<close>

text \<open>
  The law of a schema: a validated object is the one given, carries a revision in range, and
  stays valid under any other revision in range; the empty object is valid at revision 0.
\<close>

definition with_revision :: "int \<Rightarrow> pydict \<Rightarrow> pydict" where
  "with_revision n d = AList.update ''revision'' (PInt n) d"

definition codec_ok :: "store_cfg \<Rightarrow> bool" where
  "codec_ok cfg \<longleftrightarrow> (\<forall>d. sc_loads cfg (sc_dumps cfg d) = Inr (PDict d))"

definition stored :: "store_cfg \<Rightarrow> pydict \<Rightarrow> bool" where
  "stored cfg d \<longleftrightarrow> (\<exists>d0 n. sc_validate cfg (PDict d0) = Inr d0 \<and> 0 \<le> n \<and> d = with_revision n d0)"

definition whole :: "store_cfg \<Rightarrow> store_state \<Rightarrow> bool" where
  "whole cfg s \<longleftrightarrow> (case sf_file s of None \<Rightarrow> True | Some raw \<Rightarrow> \<exists>d. stored cfg d \<and> raw = sc_dumps cfg d)"

definition file_revision :: "store_cfg \<Rightarrow> store_state \<Rightarrow> int" where
  "file_revision cfg s = (case sf_file s of None \<Rightarrow> 0
     | Some raw \<Rightarrow> (case sc_loads cfg raw of Inr (PDict d) \<Rightarrow> revision_of d | _ \<Rightarrow> 0))"

fun mutated :: "store_op \<Rightarrow> exn + pydict \<Rightarrow> int list" where
  "mutated (SMutate r f) (Inr d) = [revision_of d]"
| "mutated _ _ = []"

lemma update_same: "map_of d k = Some v \<Longrightarrow> AList.update k v d = d"
  by (induction d) (auto split: if_splits)

lemma revision_of_with [simp]: "revision_of (with_revision n d) = n"
  by (simp add: revision_of_def with_revision_def dict_get_def update_conv')

lemma with_revision_same: "dict_get d ''revision'' = PInt n \<Longrightarrow> with_revision n d = d"
  unfolding with_revision_def dict_get_def by (rule update_same) (simp split: option.splits)

locale file_store =
  fixes cfg :: store_cfg
  assumes validate_same: "sc_validate cfg v = Inr d \<Longrightarrow> v = PDict d \<and> (\<exists>n. dict_get d ''revision'' = PInt n \<and> 0 \<le> n \<and> n \<le> max_revision)"
    and revision_free: "\<lbrakk>sc_validate cfg (PDict d) = Inr d; 0 \<le> n; n \<le> max_revision\<rbrakk>
      \<Longrightarrow> sc_validate cfg (PDict (with_revision n d)) = Inr (with_revision n d)"
    and too_far: "max_revision < n \<Longrightarrow> \<exists>m. sc_validate cfg (PDict (with_revision n d)) = Inl (ValidationError m)"
    and empty_valid: "sc_validate cfg (PDict (sc_empty cfg)) = Inr (sc_empty cfg)"
    and empty_revision: "revision_of (sc_empty cfg) = 0"
begin

lemma valid_stored: "sc_validate cfg v = Inr d \<Longrightarrow> stored cfg d"
  using validate_same [of v d] with_revision_same [of d] unfolding stored_def by metis

lemma empty_stored: "stored cfg (sc_empty cfg)"
  by (rule valid_stored [OF empty_valid])

lemma valid_revision: "sc_validate cfg v = Inr d \<Longrightarrow> 0 \<le> revision_of d \<and> revision_of d \<le> max_revision"
  using validate_same [of v d] by (auto simp: revision_of_def)

lemma load_whole:
  assumes "load_locked cfg s = (r, s')" and "whole cfg s"
  shows "whole cfg s'"
  using load_locked_cases [OF assms(1)] assms(2) empty_stored by (auto simp: whole_def)

text \<open>What a load learns, when nothing is set aside.\<close>

lemma load_current:
  assumes "codec_ok cfg" and "load_locked cfg s = (r, s')" and "sf_quarantined s' = sf_quarantined s"
  shows "file_revision cfg s' = file_revision cfg s \<and> (\<forall>d. r = Inr d \<longrightarrow> revision_of d = file_revision cfg s \<and> stored cfg d)"
proof -
  have e: "file_revision cfg t = 0" if "sf_file t = Some (sc_dumps cfg (sc_empty cfg))" for t
    using that assms(1) empty_revision by (simp add: file_revision_def codec_ok_def)
  show ?thesis
    using load_locked_cases [OF assms(2)]
  proof (elim disjE exE conjE)
    assume "sf_file s' = sf_file s" and "\<forall>d. r = Inr d \<longrightarrow> (\<exists>raw v. sf_file s = Some raw \<and> \<not> sc_limit cfg < int (length raw)
            \<and> sc_loads cfg raw = Inr v \<and> sc_validate cfg v = Inr d)"
    then show ?thesis by (fastforce simp: file_revision_def dest: validate_same intro: valid_stored)
  next
    assume "sf_file s = None" and "sf_file s' = Some (sc_dumps cfg (sc_empty cfg))" and "\<forall>d. r = Inr d \<longrightarrow> d = sc_empty cfg"
    then show ?thesis using e empty_revision empty_stored by (auto simp: file_revision_def)
  qed (use assms(3) in simp_all)
qed

lemma load_grows: "load_locked cfg s = (r, s') \<Longrightarrow> prefix (sf_quarantined s) (sf_quarantined s')"
  using load_locked_cases by (metis prefix_order.refl prefixI)

text \<open>The load of a mutation, repeated once on a file that was set aside.\<close>

definition current :: "(store_state, pydict) act" where
  "current = acatch store_corrupt (load_locked cfg) (\<lambda>_. load_locked cfg)"

lemma current_cases:
  assumes "current s = (r, s')"
  shows "load_locked cfg s = (r, s') \<or> (\<exists>e s1. load_locked cfg s = (Inl e, s1) \<and> load_locked cfg s1 = (r, s'))"
proof -
  obtain r1 s1 where r1: "load_locked cfg s = (r1, s1)" by fastforce
  then show ?thesis using assms by (cases r1) (auto simp: current_def acatch_def split: if_splits)
qed

lemma current_whole: "\<lbrakk>current s = (r, s'); whole cfg s\<rbrakk> \<Longrightarrow> whole cfg s'"
  using current_cases load_whole by blast

lemma current_grows: "current s = (r, s') \<Longrightarrow> prefix (sf_quarantined s) (sf_quarantined s')"
  using current_cases load_grows prefix_order.trans by blast

lemma current_current:
  assumes "codec_ok cfg" and "current s = (r, s')" and "sf_quarantined s' = sf_quarantined s"
  shows "file_revision cfg s' = file_revision cfg s \<and> (\<forall>d. r = Inr d \<longrightarrow> revision_of d = file_revision cfg s)"
  using current_cases [OF assms(2)]
proof (elim disjE exE conjE)
  assume "load_locked cfg s = (r, s')"
  then show ?thesis using load_current [OF assms(1) _ assms(3)] by blast
next
  fix e s1
  assume l: "load_locked cfg s = (Inl e, s1)" "load_locked cfg s1 = (r, s')"
  then have "sf_quarantined s1 = sf_quarantined s"
    using load_grows [OF l(1)] load_grows [OF l(2)] assms(3) by (simp add: prefix_order.antisym)
  then show ?thesis using load_current [OF assms(1) l(1)] load_current [OF assms(1) l(2)] assms(3) by simp
qed

lemma current_valid:
  assumes "current s = (Inr d, s')"
  shows "sc_validate cfg (PDict d) = Inr d"
proof -
  have "sc_validate cfg (PDict d) = Inr d" if "load_locked cfg t = (Inr d, t')" for t t'
    using load_locked_cases [OF that] empty_valid validate_same by blast
  then show ?thesis using current_cases [OF assms] by blast
qed

text \<open>A mutation: nothing happened, or the checked update of the current object was written.\<close>

lemma mutate_cases:
  assumes "store_mutate cfg e f s = (r, s')"
  obtains (unchanged) e' s1 q where "r = Inl e'" "same_files s s1" "s' = s1 \<or> current s1 = (q, s')"
  | (written) s1 s2 d u where "same_files s s1" "current s1 = (Inr d, s2)" "revision_of d = e" "f d = Inr u"
      "sc_validate cfg (PDict u) = Inr u"
      "sf_quarantined s' = sf_quarantined s2"
      "sf_file s' = sf_file s2 \<or> sf_file s' = Some (sc_dumps cfg (with_revision (e + 1) u))"
      "\<forall>x. r = Inr x \<longrightarrow> x = with_revision (e + 1) u \<and> sf_file s' = Some (sc_dumps cfg x)"
proof -
  obtain r1 s1 where r1: "os_call cfg s = (r1, s1)" by fastforce
  obtain r2 s2 where r2: "current s1 = (r2, s2)" by fastforce
  have same: "same_files s s1" using os_call_same [OF r1] .
  show ?thesis
  proof (cases "\<exists>x1 d u y. r1 = Inr x1 \<and> r2 = Inr d \<and> revision_of d = e \<and> f d = Inr u \<and> sc_validate cfg (PDict u) = Inr y")
    case True
    then obtain d u y where ok: "r1 = Inr ()" "r2 = Inr d" "revision_of d = e" "f d = Inr u" "sc_validate cfg (PDict u) = Inr y"
      by auto
    obtain r3 s3 where r3: "atomic_write_locked cfg (sc_dumps cfg (with_revision (e + 1) u)) s2 = (r3, s3)" by fastforce
    have "s' = s3" "r = (case r3 of Inl x \<Rightarrow> Inl x | Inr _ \<Rightarrow> Inr (with_revision (e + 1) u))"
      using assms r1 r2 r3 ok
      by (cases r3; auto simp: store_mutate_def enter_lock_def current_def with_revision_def Let_def)+
    then show ?thesis
      using written [OF same] r2 ok atomic_write_cases [OF r3] validate_same [OF ok(5)]
      by (cases r3) (auto split: sum.splits)
  next
    case False
    then have "(\<exists>e'. r = Inl e') \<and> (s' = s1 \<or> s' = s2)"
      using assms r1 r2
      by (cases r1; cases r2; cases "f (projr r2)"; cases "sc_validate cfg (PDict (projr (f (projr r2))))")
        (auto simp: store_mutate_def enter_lock_def current_def split: if_splits, metis+)
    then show ?thesis using unchanged same r2 by blast
  qed
qed

lemma mutate_whole:
  assumes "store_mutate cfg e f s = (r, s')" and "whole cfg s"
  shows "whole cfg s'"
  using assms(1)
proof (cases rule: mutate_cases)
  case (unchanged e' s1 q)
  have "whole cfg s1" using assms(2) unchanged(2) by (simp add: whole_def same_files_def)
  then show ?thesis using unchanged(3) current_whole by blast
next
  case (written s1 s2 d u)
  have "whole cfg s1" using assms(2) written(1) by (simp add: whole_def same_files_def)
  then have "whole cfg s2" using written(2) current_whole by blast
  moreover have "stored cfg (with_revision (e + 1) u)"
    using written(3,5) valid_revision [OF current_valid [OF written(2)]] unfolding stored_def by (intro exI [of _ u] exI [of _ "e + 1"]) simp
  ultimately show ?thesis using written(7) by (auto simp: whole_def)
qed

lemma step_whole: "whole cfg s \<Longrightarrow> whole cfg (snd (store_step cfg c s))"
proof (cases c)
  case SLoad
  assume w: "whole cfg s"
  obtain r1 s1 where r1: "os_call cfg s = (r1, s1)" by fastforce
  obtain r2 s2 where r2: "os_call cfg s1 = (r2, s2)" by fastforce
  obtain r3 s3 where r3: "load_locked cfg s2 = (r3, s3)" by fastforce
  have "whole cfg s1" "whole cfg s2" using w os_call_same [OF r1] os_call_same [OF r2] by (simp_all add: whole_def same_files_def)
  then show ?thesis
    using SLoad r1 r2 r3 load_whole [OF r3] by (cases r1; cases r2) (auto simp: store_load_def enter_lock_def)
next
  case (SMutate e f)
  assume "whole cfg s"
  then show ?thesis using SMutate mutate_whole [of e f s] by (metis prod.collapse store_step.simps(2))
qed

lemma step_grows: "prefix (sf_quarantined s) (sf_quarantined (snd (store_step cfg c s)))"
proof -
  obtain r s' where c: "store_step cfg c s = (r, s')" by fastforce
  show ?thesis
  proof (cases c)
    case SLoad
    obtain r1 s1 where r1: "os_call cfg s = (r1, s1)" by fastforce
    obtain r2 s2 where r2: "os_call cfg s1 = (r2, s2)" by fastforce
    obtain r3 s3 where r3: "load_locked cfg s2 = (r3, s3)" by fastforce
    show ?thesis
      using SLoad r1 r2 r3 load_grows [OF r3] os_call_same [OF r1] os_call_same [OF r2]
      by (cases r1; cases r2) (auto simp: store_load_def enter_lock_def same_files_def)
  next
    case (SMutate e f)
    then have "store_mutate cfg e f s = (r, s')" using c by simp
    then have "prefix (sf_quarantined s) (sf_quarantined s')"
    proof (cases rule: mutate_cases)
      case (unchanged e' s1 q)
      then show ?thesis using current_grows [of s1 q s'] by (auto simp: same_files_def)
    next
      case (written s1 s2 d u)
      then show ?thesis using current_grows [OF written(2)] by (simp add: same_files_def)
    qed
    then show ?thesis using c by simp
  qed
qed

lemma step_revision:
  assumes "codec_ok cfg" and "store_step cfg c s = (r, s')" and "sf_quarantined s' = sf_quarantined s"
  shows "file_revision cfg s \<le> file_revision cfg s'
     \<and> (\<forall>n \<in> set (mutated c r). n = file_revision cfg s + 1 \<and> n = file_revision cfg s')"
proof (cases c)
  case SLoad
  obtain r1 s1 where r1: "os_call cfg s = (r1, s1)" by fastforce
  obtain r2 s2 where r2: "os_call cfg s1 = (r2, s2)" by fastforce
  obtain r3 s3 where r3: "load_locked cfg s2 = (r3, s3)" by fastforce
  have same: "same_files s s1" "same_files s1 s2" using os_call_same [OF r1] os_call_same [OF r2] by simp_all
  then have rev: "file_revision cfg s1 = file_revision cfg s" "file_revision cfg s2 = file_revision cfg s"
    by (simp_all add: same_files_def file_revision_def)
  have "s' \<in> {s1, s2, s3}"
    using assms(2) SLoad r1 r2 r3 by (cases r1; cases r2) (auto simp: store_load_def enter_lock_def)
  then have "file_revision cfg s' = file_revision cfg s"
    using load_current [OF assms(1) r3] rev assms(3) same by (auto simp: same_files_def)
  then show ?thesis using SLoad by simp
next
  case (SMutate e f)
  then have "store_mutate cfg e f s = (r, s')" using assms(2) by simp
  then show ?thesis
  proof (cases rule: mutate_cases)
    case (unchanged e' s1 q)
    have "sf_quarantined s1 = sf_quarantined s" "file_revision cfg s1 = file_revision cfg s"
      using unchanged(2) by (simp_all add: same_files_def file_revision_def)
    then show ?thesis using unchanged(1,3) SMutate current_current [OF assms(1), of s1 q s'] assms(3) by auto
  next
    case (written s1 s2 d u)
    have s1: "sf_quarantined s1 = sf_quarantined s" "file_revision cfg s1 = file_revision cfg s"
      using written(1) by (simp_all add: same_files_def file_revision_def)
    then have s2: "file_revision cfg s2 = file_revision cfg s" "e = file_revision cfg s"
      using current_current [OF assms(1) written(2)] written(3,6) assms(3) by simp_all
    have new: "file_revision cfg t = e + 1" if "sf_file t = Some (sc_dumps cfg (with_revision (e + 1) u))" for t
      using that assms(1) by (simp add: file_revision_def codec_ok_def)
    show ?thesis
      using written(7,8) s2 new [of s'] SMutate by (cases r) (auto simp: file_revision_def)
  qed
qed

lemma run_grows: "prefix (sf_quarantined s) (sf_quarantined (snd (run_ops (store_step cfg) calls s)))"
proof (induction calls arbitrary: s)
  case (Cons c calls)
  then show ?case using step_grows [of s c] prefix_order.trans by fastforce
qed simp

text \<open>
  Over a session in which nothing is set aside, the revisions the mutations return increase
  strictly, from the revision of the file.
\<close>

lemma session_revisions:
  assumes "codec_ok cfg" and "sf_quarantined (snd (run_ops (store_step cfg) calls s)) = sf_quarantined s"
  shows "sorted_wrt (<) (concat (map2 mutated calls (fst (run_ops (store_step cfg) calls s))))
     \<and> (\<forall>n \<in> set (concat (map2 mutated calls (fst (run_ops (store_step cfg) calls s)))). file_revision cfg s < n)"
  using assms(2)
proof (induction calls arbitrary: s)
  case (Cons c calls)
  obtain r s1 where c: "store_step cfg c s = (r, s1)" by fastforce
  have "prefix (sf_quarantined s) (sf_quarantined s1)" using step_grows [of s c] c by simp
  then have q: "sf_quarantined s1 = sf_quarantined s"
    and q': "sf_quarantined (snd (run_ops (store_step cfg) calls s1)) = sf_quarantined s1"
    using Cons.prems c run_grows [of s1 calls] by (auto intro: prefix_order.antisym)
  note step = step_revision [OF assms(1) c q]
  have "length (mutated c r) \<le> 1" by (cases c; cases r) simp_all
  then have "sorted_wrt (<) (mutated c r)" by (cases "mutated c r") auto
  then show ?case using step Cons.IH [OF q'] c by (auto simp: sorted_wrt_append) fastforce+
qed simp

text \<open>Without failing calls.\<close>

lemma os_call_ok: "sc_faults cfg = (\<lambda>_. None) \<Longrightarrow> os_call cfg s = (Inr (), s\<lparr>sf_calls := Suc (sf_calls s)\<rparr>)"
  by (simp add: os_call_def)

lemma os_calls_ok: "sc_faults cfg = (\<lambda>_. None) \<Longrightarrow> os_calls cfg n s = (Inr (), s\<lparr>sf_calls := sf_calls s + n\<rparr>)"
  by (induction n arbitrary: s) (simp_all add: os_call_ok)

lemma atomic_write_ok:
  "sc_faults cfg = (\<lambda>_. None) \<Longrightarrow>
     atomic_write_locked cfg text s = (Inr (), s\<lparr>sf_file := Some text, sf_calls := 8 + sf_calls s\<rparr>)"
  by (simp add: atomic_write_locked_def acatch_def os_call_ok os_calls_ok)

lemma load_ok:
  assumes "sc_faults cfg = (\<lambda>_. None)" and "codec_ok cfg" and "sf_file s = Some (sc_dumps cfg d)"
  shows "(if int (length (sc_dumps cfg d)) \<le> sc_limit cfg \<and> sc_validate cfg (PDict d) = Inr d
          then \<exists>n. load_locked cfg s = (Inr d, s\<lparr>sf_calls := n\<rparr>)
          else (sc_limit cfg < int (length (sc_dumps cfg d)) \<or> (\<exists>e. sc_validate cfg (PDict d) = Inl (ValidationError e))) \<longrightarrow>
            (\<exists>n. load_locked cfg s = (Inl (StoreCorruptError (sc_path cfg)),
               s\<lparr>sf_file := Some (sc_dumps cfg (sc_empty cfg)), sf_quarantined := sf_quarantined s @ [sc_dumps cfg d], sf_calls := n\<rparr>)))"
proof -
  let ?n = "13 + sf_calls s"
  have "set_aside cfg (sc_dumps cfg d) (s\<lparr>sf_calls := Suc (sf_calls s)\<rparr>) = (Inl (StoreCorruptError (sc_path cfg)),
      s\<lparr>sf_file := Some (sc_dumps cfg (sc_empty cfg)), sf_quarantined := sf_quarantined s @ [sc_dumps cfg d], sf_calls := ?n\<rparr>)"
    by (simp add: set_aside_def quarantine_locked_def os_call_ok [OF assms(1)] os_calls_ok [OF assms(1)] atomic_write_ok [OF assms(1)])
  then show ?thesis
    using assms(2,3) by (auto simp: load_locked_def os_call_ok [OF assms(1)] codec_ok_def corrupt_exn_def)
qed

lemma mutate_then_load:
  assumes "sc_faults cfg = (\<lambda>_. None)" and "codec_ok cfg"
    and "sf_file s = Some (sc_dumps cfg d)" and "int (length (sc_dumps cfg d)) \<le> sc_limit cfg"
    and "sc_validate cfg (PDict d) = Inr d" and "f d = Inr u" and "sc_validate cfg (PDict u) = Inr u"
  defines "new \<equiv> with_revision (revision_of d + 1) u"
  shows "\<exists>s' s''. store_mutate cfg (revision_of d) f s = (Inr new, s') \<and> sf_file s' = Some (sc_dumps cfg new)
     \<and> sf_quarantined s' = sf_quarantined s
     \<and> (if int (length (sc_dumps cfg new)) \<le> sc_limit cfg \<and> revision_of d < max_revision
        then store_load cfg s' = (Inr new, s'') \<and> same_files s' s''
        else store_load cfg s' = (Inl (StoreCorruptError (sc_path cfg)), s'')
          \<and> sf_file s'' = Some (sc_dumps cfg (sc_empty cfg)) \<and> sf_quarantined s'' = sf_quarantined s @ [sc_dumps cfg new])"
proof -
  let ?s = "s\<lparr>sf_calls := Suc (sf_calls s)\<rparr>"
  obtain n where n: "load_locked cfg ?s = (Inr d, ?s\<lparr>sf_calls := n\<rparr>)"
    using load_ok [OF assms(1,2), of ?s d] assms(3-5) by auto
  define m where "m = 8 + n"
  let ?s' = "?s\<lparr>sf_file := Some (sc_dumps cfg new), sf_calls := m\<rparr>"
  have mut: "store_mutate cfg (revision_of d) f s = (Inr new, ?s')"
    using n assms(6,7) by (simp add: store_mutate_def enter_lock_def os_call_ok [OF assms(1)] acatch_def Let_def
        new_def with_revision_def m_def atomic_write_ok [OF assms(1)])
  have valid: "sc_validate cfg (PDict new) = Inr new \<longleftrightarrow> revision_of d < max_revision"
    using revision_free [OF assms(7), of "revision_of d + 1"] too_far [of "revision_of d + 1" u]
      valid_revision [OF assms(5)] by (cases "revision_of d < max_revision") (auto simp: new_def)
  have bad: "\<exists>e. sc_validate cfg (PDict new) = Inl (ValidationError e)" if "\<not> revision_of d < max_revision"
    using too_far [of "revision_of d + 1" u] that by (simp add: new_def)
  have load: "store_load cfg ?s' = load_locked cfg (?s'\<lparr>sf_calls := Suc (Suc m)\<rparr>)"
    by (simp add: store_load_def enter_lock_def os_call_ok [OF assms(1)])
  show ?thesis
  proof (cases "int (length (sc_dumps cfg new)) \<le> sc_limit cfg \<and> revision_of d < max_revision")
    case True
    then obtain k where "load_locked cfg (?s'\<lparr>sf_calls := Suc (Suc m)\<rparr>) = (Inr new, ?s'\<lparr>sf_calls := k\<rparr>)"
      using load_ok [OF assms(1,2), of "?s'\<lparr>sf_calls := Suc (Suc m)\<rparr>" new] valid by auto
    then show ?thesis
      using True load mut by - (rule exI [of _ ?s'], rule exI [of _ "?s'\<lparr>sf_calls := k\<rparr>"], simp add: same_files_def)
  next
    case False
    let ?t = "\<lambda>k. ?s'\<lparr>sf_file := Some (sc_dumps cfg (sc_empty cfg)), sf_quarantined := sf_quarantined s @ [sc_dumps cfg new], sf_calls := k\<rparr>"
    have "\<exists>k. load_locked cfg (?s'\<lparr>sf_calls := Suc (Suc m)\<rparr>) = (Inl (StoreCorruptError (sc_path cfg)), ?t k)"
      using load_ok [OF assms(1,2), of "?s'\<lparr>sf_calls := Suc (Suc m)\<rparr>" new] valid bad False by (auto split: if_splits)
    then obtain k where "load_locked cfg (?s'\<lparr>sf_calls := Suc (Suc m)\<rparr>) = (Inl (StoreCorruptError (sc_path cfg)), ?t k)" ..
    then show ?thesis
      using False load mut by - (rule exI [of _ ?s'], rule exI [of _ "?t k"], simp del: not_less)
  qed
qed

end

sublocale file_store \<subseteq> machine: guarded_machine "store_step cfg" "whole cfg"
  by unfold_locales (rule step_whole)

section \<open>The laws of the two schemas\<close>

lemma with_revision_keys: "''revision'' \<in> fst ` set d \<Longrightarrow> fst ` set (with_revision n d) = fst ` set d"
  unfolding with_revision_def by (induction d) auto

lemma with_revision_get: "dict_get (with_revision n d) k = (if k = ''revision'' then PInt n else dict_get d k)"
  by (simp add: with_revision_def dict_get_def update_conv')

lemma closed_object_keys:
  "fst ` set d = set allowed \<Longrightarrow> closed_object field (PDict d) allowed = Inr d"
  by (auto simp: closed_object_def Let_def filter_empty_conv image_iff)

lemma closed_with_revision:
  assumes "closed_object field (PDict d) allowed = Inr d" and "''revision'' \<in> set allowed"
  shows "closed_object field (PDict (with_revision n d)) allowed = Inr (with_revision n d)"
  using closed_object_Inr [OF assms(1)] assms(2) with_revision_keys [of d n] by (intro closed_object_keys) simp

lemma closed_object_cases:
  "(\<exists>m. closed_object field (PDict d) allowed = Inl (ValidationError m)) \<or> closed_object field (PDict d) allowed = Inr d"
  by (auto simp: closed_object_def verr_def Let_def)

lemma validate_state_Inr:
  assumes "validate_state ip v = Inr d"
  shows "v = PDict d \<and> (\<exists>n. dict_get d ''revision'' = PInt n \<and> 0 \<le> n \<and> n \<le> max_revision)"
  using assms unfolding validate_state_def
  by (elim rbindE) (auto simp: revision_ok_Inr elim!: rbindE dest: closed_object_Inr split: pyval.split_asm if_split_asm)

interpretation seats: file_store "seat_store env" for env
proof unfold_locales
  fix v d
  assume "sc_validate (seat_store env) v = Inr d"
  then show "v = PDict d \<and> (\<exists>n. dict_get d ''revision'' = PInt n \<and> 0 \<le> n \<and> n \<le> max_revision)"
    using validate_seats_config_Inr by (simp add: seat_store_def)
next
  fix d n
  assume "sc_validate (seat_store env) (PDict d) = Inr d" and n: "0 \<le> n" "n \<le> max_revision"
  then have v: "validate_seats_config (se_ip env) (PDict d) = Inr d" by (simp add: seat_store_def)
  then have c: "closed_object ''config'' (PDict d) [''schema'', ''revision'', ''hosts''] = Inr d"
    unfolding validate_seats_config_def using closed_object_Inr by (elim rbindE) fastforce
  then have "closed_object ''config'' (PDict (with_revision n d)) [''schema'', ''revision'', ''hosts''] = Inr (with_revision n d)"
    by (rule closed_with_revision) simp
  then show "sc_validate (seat_store env) (PDict (with_revision n d)) = Inr (with_revision n d)"
    using v n c by (cases "dict_get d ''hosts''")
      (auto simp: seat_store_def validate_seats_config_def with_revision_get revision_ok_Inr split: if_splits)
next
  fix n d
  assume "max_revision < (n::int)"
  then show "\<exists>m. sc_validate (seat_store env) (PDict (with_revision n d)) = Inl (ValidationError m)"
    using closed_object_cases [of "''config''" "with_revision n d" "[''schema'', ''revision'', ''hosts'']"]
    by (auto simp: seat_store_def validate_seats_config_def with_revision_get revision_ok_def verr_def)
next
  show "sc_validate (seat_store env) (PDict (sc_empty (seat_store env))) = Inr (sc_empty (seat_store env))"
    by (simp add: seat_store_def validate_seats_config_def empty_seats_config_def closed_object_def dict_get_def
        revision_ok_def max_revision_def max_hosts_def max_seats_total_def schema_seats_def)
  show "revision_of (sc_empty (seat_store env)) = 0"
    by (simp add: seat_store_def empty_seats_config_def revision_of_def dict_get_def)
qed

interpretation state: file_store "state_store env" for env
proof unfold_locales
  fix v d
  assume "sc_validate (state_store env) v = Inr d"
  then show "v = PDict d \<and> (\<exists>n. dict_get d ''revision'' = PInt n \<and> 0 \<le> n \<and> n \<le> max_revision)"
    using validate_state_Inr by (simp add: state_store_def)
next
  fix d n
  assume "sc_validate (state_store env) (PDict d) = Inr d" and n: "0 \<le> n" "n \<le> max_revision"
  then have v: "validate_state (se_ip env) (PDict d) = Inr d" by (simp add: state_store_def)
  then have c: "closed_object ''state'' (PDict d) [''schema'', ''revision'', ''pid_records''] = Inr d"
    unfolding validate_state_def using closed_object_Inr by (elim rbindE) fastforce
  then have "closed_object ''state'' (PDict (with_revision n d)) [''schema'', ''revision'', ''pid_records''] = Inr (with_revision n d)"
    by (rule closed_with_revision) simp
  then show "sc_validate (state_store env) (PDict (with_revision n d)) = Inr (with_revision n d)"
    using v n c by (cases "dict_get d ''pid_records''")
      (auto simp: state_store_def validate_state_def with_revision_get revision_ok_Inr split: if_splits)
next
  fix n d
  assume "max_revision < (n::int)"
  then show "\<exists>m. sc_validate (state_store env) (PDict (with_revision n d)) = Inl (ValidationError m)"
    using closed_object_cases [of "''state''" "with_revision n d" "[''schema'', ''revision'', ''pid_records'']"]
    by (auto simp: state_store_def validate_state_def with_revision_get revision_ok_def verr_def)
next
  show "sc_validate (state_store env) (PDict (sc_empty (state_store env))) = Inr (sc_empty (state_store env))"
    by (simp add: state_store_def validate_state_def empty_state_def closed_object_def dict_get_def
        revision_ok_def max_revision_def max_pid_records_def schema_state_def)
  show "revision_of (sc_empty (state_store env)) = 0"
    by (simp add: state_store_def empty_state_def revision_of_def dict_get_def)
qed

section \<open>Theorems\<close>


text \<open>
  C21: No update is lost: in a session in which no file is set aside, the revisions that successful
  mutations return increase strictly, so of several writers with the same expected revision at
  most one succeeds, whichever calls fail.
\<close>

theorem revisions_increase:
  assumes "cfg = seat_store env \<or> cfg = state_store env" and "codec_ok cfg"
    and "sf_quarantined (snd (run_ops (store_step cfg) calls s)) = sf_quarantined s"
  shows "sorted_wrt (<) (concat (map2 mutated calls (fst (run_ops (store_step cfg) calls s))))"
  using assms seats.session_revisions [of env calls s] state.session_revisions [of env calls s] by blast

text \<open>
  C22: When no call fails, a mutation writes exactly its checked result at the next revision, and
  the next load returns it, provided its text is within the size limit and the revision in
  range. Otherwise, since neither is checked before writing, the next load sets the whole file
  aside and starts again from the empty object.
\<close>

theorem mutation_roundtrip:
  assumes "cfg = seat_store env \<or> cfg = state_store env" and "sc_faults cfg = (\<lambda>_. None)" and "codec_ok cfg"
    and "sf_file s = Some (sc_dumps cfg d)" and "int (length (sc_dumps cfg d)) \<le> sc_limit cfg"
    and "sc_validate cfg (PDict d) = Inr d" and "f d = Inr u" and "sc_validate cfg (PDict u) = Inr u"
    and "new = with_revision (revision_of d + 1) u"
  shows "\<exists>s' s''. store_mutate cfg (revision_of d) f s = (Inr new, s') \<and> sf_file s' = Some (sc_dumps cfg new)
     \<and> sf_quarantined s' = sf_quarantined s
     \<and> (if int (length (sc_dumps cfg new)) \<le> sc_limit cfg \<and> revision_of d < max_revision
        then store_load cfg s' = (Inr new, s'') \<and> same_files s' s''
        else store_load cfg s' = (Inl (StoreCorruptError (sc_path cfg)), s'')
          \<and> sf_file s'' = Some (sc_dumps cfg (sc_empty cfg)) \<and> sf_quarantined s'' = sf_quarantined s @ [sc_dumps cfg new])"
proof (cases "cfg = seat_store env")
  case True
  show ?thesis unfolding assms(9) using assms(2-8) unfolding True by (rule seats.mutate_then_load)
next
  case False
  then have state: "cfg = state_store env" using assms(1) by blast
  show ?thesis unfolding assms(9) using assms(2-8) unfolding state by (rule state.mutate_then_load)
qed

section \<open>A codec\<close>

text \<open>A printer of objects that keeps two of them short, and its reader.\<close>

definition demo_new :: pydict where "demo_new = with_revision 1 empty_seats_config"

definition demo_dumps :: "pydict \<Rightarrow> string" where
  "demo_dumps d = (if d = empty_seats_config then [] else if d = demo_new then ''x''
     else ''xx'' @ replicate (to_nat d) (CHR ''x''))"

definition demo_loads :: "string \<Rightarrow> exn + pyval" where
  "demo_loads raw = Inr (PDict (if raw = [] then empty_seats_config else if raw = ''x'' then demo_new
     else from_nat (length raw - 2)))"

definition demo_store_env :: store_env where
  "demo_store_env = \<lparr>se_ip = (\<lambda>_. None), se_dumps = demo_dumps, se_loads = demo_loads, se_faults = (\<lambda>_. None)\<rparr>"

lemma demo_codec_ok: "codec_ok (seat_store demo_store_env)"
  by (simp add: codec_ok_def seat_store_def demo_store_env_def demo_loads_def demo_dumps_def)

lemma demo_session:
  "\<exists>s' s''. store_mutate (seat_store demo_store_env) 0 Inr (store_init\<lparr>sf_file := Some []\<rparr>) = (Inr demo_new, s')
     \<and> sf_quarantined s' = [] \<and> store_load (seat_store demo_store_env) s' = (Inr demo_new, s'') \<and> same_files s' s''"
proof -
  have "sc_dumps (seat_store demo_store_env) empty_seats_config = []" "sc_dumps (seat_store demo_store_env) demo_new = ''x''"
    by (simp_all add: seat_store_def demo_store_env_def demo_dumps_def demo_new_def empty_seats_config_def with_revision_def)
  moreover have "revision_of empty_seats_config = 0"
    using seats.empty_revision by (simp add: seat_store_def)
  moreover have "sc_validate (seat_store demo_store_env) (PDict empty_seats_config) = Inr empty_seats_config"
    using seats.empty_valid [of demo_store_env] by (simp add: seat_store_def)
  ultimately show ?thesis
    using seats.mutate_then_load [of demo_store_env "store_init\<lparr>sf_file := Some []\<rparr>" empty_seats_config Inr empty_seats_config]
      demo_codec_ok
    by (simp add: max_revision_def demo_new_def store_init_def)
      (simp add: seat_store_def demo_store_env_def max_config_bytes_def, blast)
qed

theorem revisions_increase_witness:
  "sorted_wrt (<) (concat (map2 mutated [SMutate 0 Inr, SLoad]
     (fst (run_ops (store_step (seat_store demo_store_env)) [SMutate 0 Inr, SLoad] (store_init\<lparr>sf_file := Some []\<rparr>)))))"
proof (rule revisions_increase [where env = demo_store_env, OF _ demo_codec_ok])
  show "sf_quarantined (snd (run_ops (store_step (seat_store demo_store_env)) [SMutate 0 Inr, SLoad] (store_init\<lparr>sf_file := Some []\<rparr>)))
      = sf_quarantined (store_init\<lparr>sf_file := Some []\<rparr>)"
    using demo_session by (auto simp: same_files_def store_init_def)
qed simp

theorem mutation_roundtrip_witness:
  "\<exists>s' s''. store_mutate (seat_store demo_store_env) 0 Inr (store_init\<lparr>sf_file := Some []\<rparr>) = (Inr demo_new, s')
     \<and> store_load (seat_store demo_store_env) s' = (Inr demo_new, s'')"
proof -
  have d: "sc_dumps (seat_store demo_store_env) empty_seats_config = []" "sc_dumps (seat_store demo_store_env) demo_new = ''x''"
    "sc_faults (seat_store demo_store_env) = (\<lambda>_. None)" "sc_limit (seat_store demo_store_env) = 1024 * 1024"
    by (simp_all add: seat_store_def demo_store_env_def demo_dumps_def demo_new_def empty_seats_config_def with_revision_def
        max_config_bytes_def)
  have r: "revision_of empty_seats_config = 0" "demo_new = with_revision (revision_of empty_seats_config + 1) empty_seats_config"
    using seats.empty_revision by (simp_all add: seat_store_def demo_new_def)
  have v: "sc_validate (seat_store demo_store_env) (PDict empty_seats_config) = Inr empty_seats_config"
    using seats.empty_valid [of demo_store_env] by (simp add: seat_store_def)
  have "(0::int) < max_revision" by (simp add: max_revision_def)
  then show ?thesis
    using mutation_roundtrip [OF _ d(3) demo_codec_ok _ _ v _ v r(2), of demo_store_env "store_init\<lparr>sf_file := Some []\<rparr>" Inr] d r(1)
    by auto
qed

end
