(* ===== verification/Seat_Control.thy ===== *)
theory Seat_Control
  imports Seat_Guard Seat_Poll Seat_Store
begin

text \<open>
  The controllers of the three seat templates: \<open>src/testudo/seats/controller.py\<close>.

  A controller runs on the state of the guard extended with its own fields, the endpoint poller
  and the store of process records. The world gives the answers of the network and of remote
  commands by the number of the call. A seat comes from a validated configuration, so its fields
  have the types of the schema. The normative shell scripts, \<open>sanitize_for_display\<close> and the
  digests are parameters. \<open>time.sleep\<close> has no effect but on the clock, whose readings are given.
\<close>

section \<open>Data\<close>

datatype seat_op = StartLocked | StopLocked | ForceStopLocked

record operation_outcome =
  op_state :: string
  op_error :: "string option"
  op_detail :: string
  op_models :: "string list"
  op_log_tail :: "string option"

record reconciliation =
  rc_state :: string
  rc_error :: "string option"
  rc_detail :: string
  rc_models :: "string list"
  rc_log_tail :: "string option"

definition outcome :: "string \<Rightarrow> string option \<Rightarrow> string \<Rightarrow> operation_outcome" where
  "outcome state err detail = \<lparr>op_state = state, op_error = err, op_detail = detail, op_models = [], op_log_tail = None\<rparr>"

definition reconciled :: "string \<Rightarrow> string option \<Rightarrow> string \<Rightarrow> reconciliation" where
  "reconciled state err detail = \<lparr>rc_state = state, rc_error = err, rc_detail = detail, rc_models = [], rc_log_tail = None\<rparr>"

record seat_context =
  cx_host_id :: string
  cx_seat_id :: string
  cx_seat :: pydict
  cx_descriptor :: ssh_descriptor
  cx_endpoint_host :: string
  cx_endpoint_port :: int
  cx_ssh_hostname :: string
  cx_ssh_port :: int
  cx_linger :: string
  cx_state_store :: bool
  cx_transport :: "pydict option"
  cx_executor :: bool

record scripts =
  sc_exec_v1 :: string
  sc_guard_v1 :: string
  sc_launch_v1 :: string
  sc_c_pid_v1 :: string
  sc_log_tail_v1 :: string

record seat_world =
  sw_guard :: guard_world
  sw_poll :: poll_env
  sw_reply :: "nat \<Rightarrow> poll_reply"
  sw_exec :: "nat \<Rightarrow> string list \<Rightarrow> proc_result"
  sw_store :: store_env
  sw_scripts :: scripts
  sw_nonce :: string
  sw_digest :: "pydict \<Rightarrow> string"
  sw_sha :: "string \<Rightarrow> string"
  sw_sanitize :: "string \<Rightarrow> string"
  sw_state_dir :: string

record seat_ctl =
  ct_operation :: "seat_op option"
  ct_gate_noop :: bool
  ct_baseline :: "int option"
  ct_last :: "int option"
  ct_reconciliation :: "reconciliation option"
  ct_deadline :: rat
  ct_poller :: poller
  ct_execs :: nat
  ct_store :: store_state

type_synonym seat_state = "seat_ctl guard_state_scheme"

abbreviation ctl :: "seat_state \<Rightarrow> seat_ctl" where "ctl \<equiv> guard_state.more"

definition set_ctl :: "(seat_ctl \<Rightarrow> seat_ctl) \<Rightarrow> (seat_state, unit) act" where
  "set_ctl f = aset (guard_state.more_update f)"

definition seat_str :: "seat_context \<Rightarrow> string \<Rightarrow> string" where
  "seat_str cx k = (case dict_get (cx_seat cx) k of PStr s \<Rightarrow> s | _ \<Rightarrow> [])"

abbreviation model_id :: "seat_context \<Rightarrow> string" where "model_id cx \<equiv> seat_str cx ''model_id''"

section \<open>Parsers\<close>

definition show_properties :: "string list" where
  "show_properties = [''ActiveState'', ''SubState'', ''Result'', ''NRestarts'', ''Restart'']"

type_synonym shown = "(string \<times> string) list"

fun show_lines :: "string list \<Rightarrow> shown \<Rightarrow> exn + shown" where
  "show_lines [] props = Inr props"
| "show_lines (line # lines) props = (case py_partition (CHR ''='') line of
     None \<Rightarrow> Inl (InvalidSystemdState (''malformed show line: '' @ py_repr line))
   | Some (k, v) \<Rightarrow>
       if k \<notin> set show_properties then Inl (InvalidSystemdState (''malformed show line: '' @ py_repr line))
       else if map_of props k \<noteq> None then Inl (InvalidSystemdState (''duplicate key '' @ k))
       else show_lines lines (props @ [(k, v)]))"

definition show_get :: "shown \<Rightarrow> string \<Rightarrow> string" where
  "show_get show k = (case map_of show k of Some v \<Rightarrow> v | None \<Rightarrow> [])"

definition systemd_show_cap_bytes :: int where "systemd_show_cap_bytes = 64 * 1024"

definition parse_systemctl_show :: "string \<Rightarrow> int option \<Rightarrow> exn + shown" where
  "parse_systemctl_show stdout exit_code =
     (if exit_code \<noteq> Some 0 then Inl (InvalidSystemdState ''systemctl show exited nonzero'')
      else if systemd_show_cap_bytes < utf8_len stdout then
        Inl (InvalidSystemdState ''systemctl show output exceeds 64 KiB'')
      else rbind (show_lines (py_splitlines stdout) []) (\<lambda>props.
        case find (\<lambda>k. map_of props k = None) show_properties of
          Some k \<Rightarrow> Inl (InvalidSystemdState (''missing key '' @ k))
        | None \<Rightarrow>
            if show_get props ''NRestarts'' = [] \<or> \<not> list_all ascii_digit (show_get props ''NRestarts'') then
              Inl (InvalidSystemdState ''NRestarts is not a decimal integer'')
            else Inr props))"

definition systemd_state :: "shown \<Rightarrow> exn + string" where
  "systemd_state show =
     (let active = show_get show ''ActiveState'' in
      if active = ''failed'' then Inr ''error''
      else if show_get show ''Result'' \<notin> {[], ''success''} then Inr ''error''
      else if active = ''inactive'' then Inr ''dormant''
      else if active = ''deactivating'' then Inr ''stopping''
      else if active \<in> {''activating'', ''reloading''} then Inr ''starting''
      else if active = ''active'' then
        (if show_get show ''SubState'' \<in> {''activating'', ''reloading'', ''auto-restart''} then Inr ''starting''
         else Inr ''serving-candidate'')
      else Inl (InvalidSystemdState (''unknown ActiveState '' @ active)))"

definition parse_status_exit :: "int option \<Rightarrow> string" where
  "parse_status_exit exit_code = (case exit_code of None \<Rightarrow> ''indeterminate''
     | Some c \<Rightarrow> if c = 0 then ''serving'' else if c = 1 then ''dormant'' else ''error'')"

definition text_lines :: "string \<Rightarrow> string list" where
  "text_lines stdout = filter (\<lambda>l. py_strip l \<noteq> []) (py_splitlines stdout)"

definition parse_pid_inspect :: "string \<Rightarrow> int option \<Rightarrow> bool" where
  "parse_pid_inspect stdout exit_code \<longleftrightarrow> exit_code = Some 0 \<and> text_lines stdout = [''TESTUDO_PID_MATCH'']"

definition decimal_10 :: "string \<Rightarrow> bool" where
  "decimal_10 s \<longleftrightarrow> 1 \<le> length s \<and> length s \<le> 10 \<and> list_all ascii_digit s"

record pid_fields =
  pf_pid :: string
  pf_pgid :: string
  pf_ticks :: string
  pf_boot_id :: string
  pf_argv_sha256 :: string

definition parse_testudo_pid :: "string \<Rightarrow> pid_fields option" where
  "parse_testudo_pid stdout = (case text_lines stdout of
     [line] \<Rightarrow> (case split_on (CHR '' '') line of
         [tag, pid, pgid, ticks, boot, digest] \<Rightarrow>
           if tag = ''TESTUDO_PID'' \<and> decimal_10 pid \<and> decimal_10 pgid \<and> decimal_10 ticks \<and> hex_groups boot \<and> hex_string 64 digest
           then (if prefix ''0'' pid \<or> pgid \<noteq> pid \<or> prefix ''0'' ticks then None
                 else Some \<lparr>pf_pid = pid, pf_pgid = pgid, pf_ticks = ticks, pf_boot_id = boot, pf_argv_sha256 = digest\<rparr>)
           else None
       | _ \<Rightarrow> None)
   | _ \<Rightarrow> None)"

section \<open>Observations\<close>

definition poll_now :: "seat_world \<Rightarrow> seat_context \<Rightarrow> (seat_state, observation option) act" where
  "poll_now w cx = awith (\<lambda>s.
     let p = ct_poller (ctl s);
         transport = (case cx_transport cx of Some t \<Rightarrow> if t = [] then [(''kind'', PStr ''ssh-tunnel'')] else t
                      | None \<Rightarrow> [(''kind'', PStr ''ssh-tunnel'')]);
         (r, p') = poll (sw_poll w) (sw_reply w (po_sequence p)) transport (cx_endpoint_host cx) (cx_endpoint_port cx)
           (model_id cx) (Some (cx_descriptor cx)) None p
     in abind (set_ctl (\<lambda>c. c\<lparr>ct_poller := p'\<rparr>)) (\<lambda>_.
        aret (case r of Inl _ \<Rightarrow> None | Inr ob \<Rightarrow> Some ob)))"

definition sole :: "string \<Rightarrow> observation \<Rightarrow> bool" where
  "sole m ob \<longleftrightarrow> ob_models ob \<noteq> [] \<and> list_all (\<lambda>x. x = m) (ob_models ob)"

definition sole_model_observation :: "seat_world \<Rightarrow> seat_context \<Rightarrow> (seat_state, bool \<times> string list) act" where
  "sole_model_observation w cx = abind (poll_now w cx) (\<lambda>r. case r of
     None \<Rightarrow> aret (False, [])
   | Some ob \<Rightarrow> if ob_host_state ob \<noteq> ''reachable'' then aret (False, []) else aret (sole (model_id cx) ob, ob_models ob))"

definition recent_models :: "seat_world \<Rightarrow> seat_context \<Rightarrow> (seat_state, string list) act" where
  "recent_models w cx = abind (poll_now w cx) (\<lambda>r. aret (case r of None \<Rightarrow> [] | Some ob \<Rightarrow> ob_models ob))"

definition run_remote :: "seat_world \<Rightarrow> seat_context \<Rightarrow> string \<Rightarrow> (seat_state, exec_result option) act" where
  "run_remote w cx remote = (if \<not> cx_executor cx then aret None
     else awith (\<lambda>s. abind (set_ctl (\<lambda>c. c\<lparr>ct_execs := Suc (ct_execs c)\<rparr>)) (\<lambda>_.
       aret (Some (exec_remote (pe_ssh (sw_poll w)) (sw_exec w (ct_execs (ctl s)) (exec_argv (cx_descriptor cx) remote 10)))))))"

definition on_store :: "(store_state, 'a) act \<Rightarrow> (seat_state, 'a) act" where
  "on_store m = awith (\<lambda>s. case m (ct_store (ctl s)) of (r, st) \<Rightarrow>
     abind (set_ctl (\<lambda>c. c\<lparr>ct_store := st\<rparr>)) (\<lambda>_. alift r))"

section \<open>The ownership gate\<close>

definition post_lock_poll :: "seat_world \<Rightarrow> seat_context \<Rightarrow> (seat_state, bool) act" where
  "post_lock_poll w cx = abind (poll_now w cx) (\<lambda>r. case r of
     None \<Rightarrow> aret False
   | Some ob \<Rightarrow>
       if ob_host_state ob \<noteq> ''reachable'' then aret False
       else if ob_endpoint_state ob \<in> {''invalid'', ''unauthorized'', ''tls-error'', ''indeterminate''} then aret False
       else awith (\<lambda>s.
         if ct_operation (ctl s) = Some StartLocked then
           (if sole (model_id cx) ob then abind (set_ctl (\<lambda>c. c\<lparr>ct_gate_noop := True\<rparr>)) (\<lambda>_. aret False)
            else aret (ob_models ob = []))
         else if ct_operation (ctl s) \<in> {Some StopLocked, Some ForceStopLocked} \<and> seat_str cx ''template'' = ''control-script'' then
           aret (sole (model_id cx) ob)
         else aret (ob_models ob = [] \<or> sole (model_id cx) ob)))"

section \<open>Reconciliation\<close>

definition set_reconciliation :: "reconciliation \<Rightarrow> (seat_state, unit) act" where
  "set_reconciliation r = set_ctl (\<lambda>c. c\<lparr>ct_reconciliation := Some r\<rparr>)"

fun await_sole_model :: "nat \<Rightarrow> seat_world \<Rightarrow> seat_context \<Rightarrow> rat \<Rightarrow> (seat_state, reconciliation) act" where
  "await_sole_model 0 w cx deadline = araise (RuntimeError ''out of fuel'')"
| "await_sole_model (Suc fuel) w cx deadline =
     abind (monotonic (sw_guard w)) (\<lambda>now.
     if \<not> now < deadline then aret (reconciled ''error'' (Some ''readiness-timeout'')
        ''the process may still be running; stop remains available; actual survival remains subject to U1 and host policy'')
     else abind (sole_model_observation w cx) (\<lambda>(is_sole, models).
       if is_sole then aret ((reconciled ''serving'' None [])\<lparr>rc_models := models\<rparr>)
       else await_sole_model fuel w cx deadline))"

definition await_and_set :: "nat \<Rightarrow> seat_world \<Rightarrow> seat_context \<Rightarrow> (seat_state, unit) act" where
  "await_and_set fuel w cx = awith (\<lambda>s.
     abind (await_sole_model fuel w cx (ct_deadline (ctl s))) set_reconciliation)"

fun stop_loop :: "nat \<Rightarrow> seat_world \<Rightarrow> seat_context \<Rightarrow> (seat_state, unit) act" where
  "stop_loop 0 w cx = araise (RuntimeError ''out of fuel'')"
| "stop_loop (Suc fuel) w cx =
     abind (monotonic (sw_guard w)) (\<lambda>now. awith (\<lambda>s.
     if \<not> now < ct_deadline (ctl s) then set_reconciliation (reconciled ''indeterminate'' None ''stop window elapsed'')
     else abind (sole_model_observation w cx) (\<lambda>(_, models).
       if model_id cx \<notin> set models then set_reconciliation (reconciled ''dormant'' None [])
       else stop_loop fuel w cx)))"

subsection \<open>Template A: a systemd user unit\<close>

definition show_argv :: "seat_context \<Rightarrow> string list" where
  "show_argv cx = [''systemctl'', ''--user'', ''show'', ''--no-pager''] @ map (\<lambda>p. ''--property='' @ p) show_properties
     @ [''--'', seat_str cx ''unit'']"

definition show_now :: "seat_world \<Rightarrow> seat_context \<Rightarrow> (seat_state, shown option) act" where
  "show_now w cx = abind (run_remote w cx (remote_command (sc_exec_v1 (sw_scripts w)) (show_argv cx))) (\<lambda>r.
     aret (case r of None \<Rightarrow> None
       | Some x \<Rightarrow> (case parse_systemctl_show (er_stdout x) (er_exit x) of Inl _ \<Rightarrow> None | Inr show \<Rightarrow> Some show)))"

text \<open>\<open>int(show["NRestarts"])\<close>: more than 4300 digits raise.\<close>

definition restarts_of :: "shown \<Rightarrow> exn + int" where
  "restarts_of show = (let t = show_get show ''NRestarts'' in case py_int t of
     Some n \<Rightarrow> Inr n
   | None \<Rightarrow> Inl (ValueError (''Exceeds the limit (4300 digits) for integer string conversion: value has ''
       @ nat_str (length t) @ '' digits; use sys.set_int_max_str_digits() to increase the limit'')))"

definition read_baseline_restarts :: "seat_world \<Rightarrow> seat_context \<Rightarrow> (seat_state, int option) act" where
  "read_baseline_restarts w cx =
     (if seat_str cx ''template'' = ''systemd-user'' then abind (show_now w cx) (\<lambda>r. case r of
        None \<Rightarrow> aret None | Some show \<Rightarrow> abind (alift (restarts_of show)) (\<lambda>n. aret (Some n)))
      else aret None)"

definition check_restart_counter :: "shown \<Rightarrow> (seat_state, reconciliation option) act" where
  "check_restart_counter show = abind (alift (restarts_of show)) (\<lambda>restarts. awith (\<lambda>s.
     let c = ctl s in
     if (\<exists>b \<in> set_option (ct_baseline c). b < restarts) then aret (Some (reconciled ''error'' (Some ''restart-loop'') []))
     else case ct_last c of
       None \<Rightarrow> abind (set_ctl (\<lambda>c. c\<lparr>ct_last := Some restarts\<rparr>)) (\<lambda>_. aret None)
     | Some l \<Rightarrow>
         if l < restarts then aret (Some (reconciled ''error'' (Some ''restart-loop'') []))
         else if restarts < l then
           abind (set_ctl (\<lambda>c. c\<lparr>ct_baseline := Some restarts\<rparr>)) (\<lambda>_.
           aret (Some (reconciled ''indeterminate'' None ''NRestarts decreased; unit manager likely restarted'')))
         else abind (set_ctl (\<lambda>c. c\<lparr>ct_last := Some restarts\<rparr>)) (\<lambda>_. aret None)))"

text \<open>What the loop does with the state of the unit: \<open>again\<close> is its next round.\<close>

definition settle_unit :: "(seat_state, unit) act \<Rightarrow> nat \<Rightarrow> seat_world \<Rightarrow> seat_context \<Rightarrow> shown \<Rightarrow> (seat_state, unit) act" where
  "settle_unit again fuel w cx show = abind (alift (systemd_state show)) (\<lambda>state.
     if state = ''starting'' then again
     else if state = ''stopping'' then set_reconciliation (reconciled ''dormant'' None ''deactivating'')
     else if state = ''dormant'' then set_reconciliation (reconciled ''dormant'' None [])
     else if state = ''error'' then
       set_reconciliation (reconciled ''error'' (Some ''unit failed'') (''Result='' @ show_get show ''Result''))
     else await_and_set fuel w cx)"

definition check_unit :: "(seat_state, unit) act \<Rightarrow> nat \<Rightarrow> seat_world \<Rightarrow> seat_context \<Rightarrow> shown option \<Rightarrow> (seat_state, unit) act" where
  "check_unit again fuel w cx r = (case r of
     None \<Rightarrow> set_reconciliation (reconciled ''indeterminate'' None ''invalid-systemd-state'')
   | Some show \<Rightarrow> abind (check_restart_counter show) (\<lambda>counter. case counter of
       Some rec \<Rightarrow> set_reconciliation rec
     | None \<Rightarrow> settle_unit again fuel w cx show))"

fun systemd_start_loop :: "nat \<Rightarrow> seat_world \<Rightarrow> seat_context \<Rightarrow> (seat_state, unit) act" where
  "systemd_start_loop 0 w cx = araise (RuntimeError ''out of fuel'')"
| "systemd_start_loop (Suc fuel) w cx =
     abind (monotonic (sw_guard w)) (\<lambda>now. awith (\<lambda>s.
     if \<not> now < ct_deadline (ctl s) then set_reconciliation (reconciled ''error'' (Some ''readiness-timeout'') [])
     else abind (show_now w cx) (check_unit (systemd_start_loop fuel w cx) fuel w cx)))"

fun systemd_stop_loop :: "nat \<Rightarrow> seat_world \<Rightarrow> seat_context \<Rightarrow> (seat_state, unit) act" where
  "systemd_stop_loop 0 w cx = araise (RuntimeError ''out of fuel'')"
| "systemd_stop_loop (Suc fuel) w cx =
     abind (monotonic (sw_guard w)) (\<lambda>now. awith (\<lambda>s.
     if \<not> now < ct_deadline (ctl s) then
       set_reconciliation (reconciled ''indeterminate'' None ''stop window elapsed before inactive and model gone'')
     else abind (show_now w cx) (\<lambda>r. case r of
       None \<Rightarrow> set_reconciliation (reconciled ''indeterminate'' None ''invalid-systemd-state'')
     | Some show \<Rightarrow>
         if show_get show ''ActiveState'' \<in> {''inactive'', ''failed''} then
           abind (recent_models w cx) (\<lambda>models.
           if model_id cx \<notin> set models then set_reconciliation (reconciled ''dormant'' None [])
           else systemd_stop_loop fuel w cx)
         else systemd_stop_loop fuel w cx)))"

subsection \<open>Template B: a control script\<close>

definition seat_subcommand :: "seat_context \<Rightarrow> string \<Rightarrow> string \<Rightarrow> string" where
  "seat_subcommand cx k fallback = (case dict_get (cx_seat cx) k of PStr s \<Rightarrow> s | _ \<Rightarrow> fallback)"

definition status_argv :: "seat_context \<Rightarrow> string list" where
  "status_argv cx = [seat_str cx ''script'', seat_subcommand cx ''status_subcommand'' ''status'']"

definition status_now :: "seat_world \<Rightarrow> seat_context \<Rightarrow> (seat_state, string option) act" where
  "status_now w cx = abind (run_remote w cx (remote_command (sc_exec_v1 (sw_scripts w)) (status_argv cx))) (\<lambda>r.
     aret (map_option (\<lambda>x. parse_status_exit (er_exit x)) r))"

fun script_start_loop :: "nat \<Rightarrow> seat_world \<Rightarrow> seat_context \<Rightarrow> (seat_state, unit) act" where
  "script_start_loop 0 w cx = araise (RuntimeError ''out of fuel'')"
| "script_start_loop (Suc fuel) w cx =
     abind (monotonic (sw_guard w)) (\<lambda>now. awith (\<lambda>s.
     if \<not> now < ct_deadline (ctl s) then set_reconciliation (reconciled ''error'' (Some ''readiness-timeout'') [])
     else abind (status_now w cx) (\<lambda>status.
       if status = Some ''error'' then
         set_reconciliation (reconciled ''error'' (Some ''status exit error'') ''control script reported an error'')
       else if status = Some ''indeterminate'' then
         set_reconciliation (reconciled ''indeterminate'' None ''status poll lost the local SSH process'')
       else if status = Some ''serving'' then await_and_set fuel w cx
       else script_start_loop fuel w cx)))"

subsection \<open>Template C: a bare command\<close>

definition pid_record :: "seat_world \<Rightarrow> seat_context \<Rightarrow> (seat_state, pydict option) act" where
  "pid_record w cx = (if \<not> cx_state_store cx then aret None
     else abind (on_store (store_load (state_store (sw_store w)))) (\<lambda>state.
       aret (find (\<lambda>r. dict_get r ''seat_id'' = PStr (cx_seat_id cx) \<and> dict_get r ''host_id'' = PStr (cx_host_id cx))
         (map as_dict (as_list (dict_get state ''pid_records''))))))"

definition new_pid_record :: "seat_context \<Rightarrow> pid_fields \<Rightarrow> pydict" where
  "new_pid_record cx f = [(''host_id'', PStr (cx_host_id cx)), (''seat_id'', PStr (cx_seat_id cx)),
     (''ssh_hostname'', PStr (cx_ssh_hostname cx)), (''ssh_port'', PInt (cx_ssh_port cx)),
     (''endpoint_host'', PStr (cx_endpoint_host cx)), (''endpoint_port'', PInt (cx_endpoint_port cx)),
     (''pid'', PInt (int_of_str (pf_pid f))), (''pgid'', PInt (int_of_str (pf_pgid f))),
     (''proc_start_ticks'', PInt (int_of_str (pf_ticks f))), (''boot_id'', PStr (pf_boot_id f)),
     (''argv_sha256'', PStr (pf_argv_sha256 f))]"

definition keep_record :: "seat_context \<Rightarrow> pydict \<Rightarrow> bool" where
  "keep_record cx r \<longleftrightarrow> \<not> (dict_get r ''seat_id'' = PStr (cx_seat_id cx) \<and> dict_get r ''host_id'' = PStr (cx_host_id cx))"

definition pid_mutation :: "seat_context \<Rightarrow> pydict \<Rightarrow> pydict \<Rightarrow> exn + pydict" where
  "pid_mutation cx r state = Inr (AList.update ''pid_records''
     (PList (filter (keep_record cx \<circ> as_dict) (as_list (dict_get state ''pid_records'')) @ [PDict r])) state)"

definition is_conflict :: "exn \<Rightarrow> bool" where
  "is_conflict e = (case e of ConflictError _ \<Rightarrow> True | _ \<Rightarrow> False)"

fun persist_attempts :: "nat \<Rightarrow> seat_world \<Rightarrow> seat_context \<Rightarrow> pydict \<Rightarrow> (seat_state, bool) act" where
  "persist_attempts 0 w cx r = aret False"
| "persist_attempts (Suc n) w cx r =
     abind (on_store (store_load (state_store (sw_store w)))) (\<lambda>current.
     abind (acatch is_conflict
       (abind (on_store (store_mutate (state_store (sw_store w)) (revision_of current) (pid_mutation cx r))) (\<lambda>_. aret True))
       (\<lambda>_. aret False)) (\<lambda>ok. if ok then aret True else persist_attempts n w cx r))"

definition persist_pid_record :: "seat_world \<Rightarrow> seat_context \<Rightarrow> pid_fields \<Rightarrow> (seat_state, bool) act" where
  "persist_pid_record w cx f =
     (if \<not> cx_state_store cx then aret False
      else let r = new_pid_record cx f in
        abind (alift (validate_pid_record (se_ip (sw_store w)) ''pid-record'' (PDict r))) (\<lambda>_. persist_attempts 3 w cx r))"

definition bare_reconcile_start :: "nat \<Rightarrow> seat_world \<Rightarrow> seat_context \<Rightarrow> string \<Rightarrow> (seat_state, unit) act" where
  "bare_reconcile_start fuel w cx output = (case parse_testudo_pid output of
     None \<Rightarrow> set_reconciliation (reconciled ''indeterminate'' None ''no validated TESTUDO_PID line in launch output'')
   | Some f \<Rightarrow> abind (persist_pid_record w cx f) (\<lambda>persisted.
       if \<not> persisted then set_reconciliation (reconciled ''indeterminate'' None ''PID record could not be persisted'')
       else await_and_set fuel w cx))"

definition reconcile_operation :: "nat \<Rightarrow> seat_world \<Rightarrow> seat_context \<Rightarrow> string \<Rightarrow> (seat_state, unit) act" where
  "reconcile_operation fuel w cx output = awith (\<lambda>s. let t = seat_str cx ''template'' in
     if ct_operation (ctl s) = Some StartLocked then
       (if t = ''systemd-user'' then systemd_start_loop fuel w cx
        else if t = ''control-script'' then script_start_loop fuel w cx
        else bare_reconcile_start fuel w cx output)
     else if t = ''systemd-user'' then systemd_stop_loop fuel w cx else stop_loop fuel w cx)"

section \<open>The guarded pipeline\<close>

definition launch_argv :: "seat_context \<Rightarrow> string list" where
  "launch_argv cx = map (\<lambda>v. case v of PStr s \<Rightarrow> s | _ \<Rightarrow> []) (as_list (dict_get (cx_seat cx) ''launch_argv''))"

definition pid_args :: "pydict \<Rightarrow> string list" where
  "pid_args r = map (\<lambda>k. case dict_get r k of PInt n \<Rightarrow> int_str n | PStr s \<Rightarrow> s | _ \<Rightarrow> [])
     [''pid'', ''pgid'', ''proc_start_ticks'', ''boot_id'', ''argv_sha256'']"

definition operation_argv :: "seat_world \<Rightarrow> seat_context \<Rightarrow> seat_op \<Rightarrow> (seat_state, string list) act" where
  "operation_argv w cx name = (let t = seat_str cx ''template'' in
     if t = ''systemd-user'' then aret (case name of
         StartLocked \<Rightarrow> [''systemctl'', ''--user'', ''start'', ''--'', seat_str cx ''unit'']
       | StopLocked \<Rightarrow> [''systemctl'', ''--user'', ''stop'', ''--'', seat_str cx ''unit'']
       | ForceStopLocked \<Rightarrow> [''systemctl'', ''--user'', ''kill'', ''--signal=SIGKILL'', ''--'', seat_str cx ''unit''])
     else if t = ''control-script'' then (case name of
         StartLocked \<Rightarrow> aret [seat_str cx ''script'', seat_subcommand cx ''start_subcommand'' ''start'']
       | StopLocked \<Rightarrow> aret [seat_str cx ''script'', seat_subcommand cx ''stop_subcommand'' ''stop'']
       | ForceStopLocked \<Rightarrow> araise (SeatError ''unsupported: host-side intervention required''))
     else (case name of
         StartLocked \<Rightarrow> aret ([''sh'', ''-c'', sc_launch_v1 (sw_scripts w), ''testudo'', seat_str cx ''cwd'', cx_seat_id cx,
             argv_sha256 (sw_sha w) (launch_argv cx)] @ launch_argv cx)
       | _ \<Rightarrow> abind (pid_record w cx) (\<lambda>r. case r of
             None \<Rightarrow> araise (SeatError ''pid mismatch or reuse'')
           | Some rec \<Rightarrow> aret ([''sh'', ''-c'', sc_c_pid_v1 (sw_scripts w), ''testudo'', ''stop''] @ pid_args rec))))"

definition context_lock_key :: "seat_world \<Rightarrow> seat_context \<Rightarrow> string" where
  "context_lock_key w cx = lock_key (sw_digest w) (cx_ssh_hostname cx) (cx_ssh_port cx) (cx_endpoint_host cx) (cx_endpoint_port cx)"

definition local_lock_path :: "seat_world \<Rightarrow> string \<Rightarrow> string" where
  "local_lock_path w key = sw_state_dir w @ ''/locks/endpoint-'' @ key @ ''.lock''"

definition make_guard :: "nat \<Rightarrow> seat_world \<Rightarrow> seat_context \<Rightarrow> string \<Rightarrow> seat_state guard_controller" where
  "make_guard fuel w cx basename = \<lparr>gc_command_argv = command_argv (cx_descriptor cx), gc_lock_basename = basename,
     gc_nonce = sw_nonce w, gc_connect_timeout = 10, gc_permits = post_lock_poll w cx, gc_reconcile = reconcile_operation fuel w cx\<rparr>"

definition log_tail :: "seat_world \<Rightarrow> seat_context \<Rightarrow> (seat_state, string option) act" where
  "log_tail w cx = abind (run_remote w cx (remote_command (sc_log_tail_v1 (sw_scripts w)) [cx_seat_id cx])) (\<lambda>r.
     aret (map_option (\<lambda>x. sw_sanitize w (er_stdout x)) r))"

definition remote_error :: "seat_world \<Rightarrow> seat_context \<Rightarrow> seat_op \<Rightarrow> int \<Rightarrow> (seat_state, operation_outcome) act" where
  "remote_error w cx name rc =
     (if seat_str cx ''template'' = ''bare-command'' \<and> name \<noteq> StartLocked \<and> rc = 79 then
        aret (outcome ''error'' (Some ''pid mismatch or reuse'') [])
      else if seat_str cx ''template'' = ''bare-command'' \<and> name = StartLocked \<and> rc = 78 then
        abind (log_tail w cx) (\<lambda>tail. aret ((outcome ''error'' (Some ''early-exit'') [])\<lparr>op_log_tail := tail\<rparr>))
      else aret (outcome ''error'' (Some (''remote exit '' @ int_str rc)) []))"

definition final_state :: "seat_world \<Rightarrow> seat_context \<Rightarrow> seat_op \<Rightarrow> (seat_state, operation_outcome) act" where
  "final_state w cx name = awith (\<lambda>s.
     let r = (case ct_reconciliation (ctl s) of Some r \<Rightarrow> r | None \<Rightarrow> reconciled ''indeterminate'' None []) in
     if name = StartLocked \<and> rc_state r = ''serving'' then
       abind (sole_model_observation w cx) (\<lambda>(is_sole, models).
       if \<not> is_sole then aret (outcome ''indeterminate'' None ''post-session endpoint poll does not confirm serving'')
       else aret ((outcome ''serving'' None [])\<lparr>op_models := models\<rparr>))
     else aret \<lparr>op_state = rc_state r, op_error = rc_error r, op_detail = rc_detail r, op_models = rc_models r,
       op_log_tail = rc_log_tail r\<rparr>)"

definition gate_refusal_error :: "seat_context \<Rightarrow> string" where
  "gate_refusal_error cx = (if seat_str cx ''template'' = ''control-script'' then ''host-side intervention required''
     else ''ownership gate refused'')"

definition finalize :: "seat_world \<Rightarrow> seat_context \<Rightarrow> seat_op \<Rightarrow> guard_outcome \<Rightarrow> (seat_state, operation_outcome) act" where
  "finalize w cx name g =
     (if go_exit_code g = None then
        aret (outcome ''indeterminate'' None ''local SSH terminated; the remote command may still be running'')
      else if go_refused g = Some ''BUSY'' then aret (outcome ''refused'' (Some ''operation in progress'') [])
      else if go_refused g \<in> {Some ''GATE_REFUSED'', Some ''GATE_TIMEOUT''} then
        awith (\<lambda>s. if ct_gate_noop (ctl s) then aret ((outcome ''serving'' None [])\<lparr>op_models := [model_id cx]\<rparr>)
          else aret (outcome ''refused'' (Some (gate_refusal_error cx)) []))
      else if go_refused g \<in> {Some ''UNAVAILABLE'', Some ''UNSAFE''} then
        aret (outcome ''refused'' (Some ''guard unavailable'') [])
      else case go_rc_trailer g of
        None \<Rightarrow> aret (outcome ''indeterminate'' None ''malformed guard protocol'')
      | Some rc \<Rightarrow> if rc \<noteq> 0 then remote_error w cx name rc else final_state w cx name)"

definition is_guard_error :: "exn \<Rightarrow> bool" where
  "is_guard_error e = (case e of LocalGuardError _ \<Rightarrow> True | _ \<Rightarrow> False)"

definition release_grace_seconds :: rat where "release_grace_seconds = 30"
definition stop_window_seconds :: rat where "stop_window_seconds = 30"

text \<open>The operation under both locks.\<close>

definition guarded_body :: "nat \<Rightarrow> seat_world \<Rightarrow> seat_context \<Rightarrow> seat_op \<Rightarrow> rat \<Rightarrow> (seat_state, operation_outcome) act" where
  "guarded_body fuel w cx name window =
     abind (alift (lock_basename (context_lock_key w cx))) (\<lambda>basename.
     abind (operation_argv w cx name) (\<lambda>argv.
     abind (operate fuel (sw_guard w) (sc_guard_v1 (sw_scripts w)) (make_guard fuel w cx basename) argv (window + release_grace_seconds))
       (finalize w cx name)))"

definition run_guarded :: "nat \<Rightarrow> seat_world \<Rightarrow> seat_context \<Rightarrow> seat_op \<Rightarrow> rat \<Rightarrow> (seat_state, operation_outcome) act" where
  "run_guarded fuel w cx name window =
     abind (set_ctl (\<lambda>c. c\<lparr>ct_operation := Some name, ct_gate_noop := False, ct_reconciliation := None\<rparr>)) (\<lambda>_.
     abind (if name = StartLocked then read_baseline_restarts w cx else aret None) (\<lambda>baseline.
     abind (set_ctl (\<lambda>c. c\<lparr>ct_baseline := baseline, ct_last := baseline\<rparr>)) (\<lambda>_.
     abind (monotonic (sw_guard w)) (\<lambda>now.
     abind (set_ctl (\<lambda>c. c\<lparr>ct_deadline := now + window\<rparr>)) (\<lambda>_.
     abind (acatch is_guard_error
       (abind (acquire fuel (sw_guard w) (local_lock_path w (context_lock_key w cx))) (\<lambda>_. aret None))
       (\<lambda>e. aret (Some (outcome ''refused'' (Some (if py_contains ''contention timeout'' (exn_str e)
          then ''operation in progress'' else ''local guard unavailable'')) [])))) (\<lambda>r.
     case r of Some out \<Rightarrow> aret out
     | None \<Rightarrow> afinally (guarded_body fuel w cx name window) release))))))"

definition ready_timeout :: "seat_context \<Rightarrow> rat" where
  "ready_timeout cx = (case dict_get (cx_seat cx) ''ready_timeout'' of PInt n \<Rightarrow> of_int n | _ \<Rightarrow> 0)"

definition seat_start :: "nat \<Rightarrow> seat_world \<Rightarrow> seat_context \<Rightarrow> (seat_state, operation_outcome) act" where
  "seat_start fuel w cx = (case start_gate (cx_linger cx) of
     (True, _) \<Rightarrow> run_guarded fuel w cx StartLocked (ready_timeout cx)
   | (False, warning) \<Rightarrow> aret (outcome ''refused'' (Some ''host lifetime prerequisite'')
       (case warning of Some t \<Rightarrow> t | None \<Rightarrow> [])))"

definition seat_stop :: "nat \<Rightarrow> seat_world \<Rightarrow> seat_context \<Rightarrow> (seat_state, operation_outcome) act" where
  "seat_stop fuel w cx = run_guarded fuel w cx StopLocked stop_window_seconds"

definition seat_force_stop :: "nat \<Rightarrow> seat_world \<Rightarrow> seat_context \<Rightarrow> (seat_state, operation_outcome) act" where
  "seat_force_stop fuel w cx = (if seat_str cx ''template'' = ''control-script''
     then aret (outcome ''refused'' (Some ''unsupported: host-side intervention required'') [])
     else run_guarded fuel w cx ForceStopLocked stop_window_seconds)"

definition controller_for :: "seat_context \<Rightarrow> exn + seat_context" where
  "controller_for cx = (if seat_str cx ''template'' \<in> set seat_templates then Inr cx
     else Inl (SeatError (''unknown template '' @ seat_str cx ''template'')))"

section \<open>Read-only operations\<close>

definition pstrs :: "string list \<Rightarrow> pyval" where "pstrs ws = PList (map PStr ws)"

definition opt_exit :: "int option \<Rightarrow> pyval" where "opt_exit c = (case c of None \<Rightarrow> PNone | Some n \<Rightarrow> PInt n)"

definition systemd_inspect :: "seat_world \<Rightarrow> seat_context \<Rightarrow> (seat_state, pydict) act" where
  "systemd_inspect w cx = (let argv = show_argv cx; remote = remote_command (sc_exec_v1 (sw_scripts w)) argv;
       result = [(''argv'', pstrs argv), (''remote'', PStr remote)] in
     abind (run_remote w cx remote) (\<lambda>r. case r of
       None \<Rightarrow> aret result
     | Some x \<Rightarrow> (case parse_systemctl_show (er_stdout x) (er_exit x) of
         Inl e \<Rightarrow> aret (result @ [(''state'', PDict [(''error'', PStr ''invalid-systemd-state''), (''detail'', PStr (exn_str e))])])
       | Inr show \<Rightarrow> abind (alift (restarts_of show)) (\<lambda>n. aret (result @ [(''state'', PDict
           [(''active_state'', PStr (show_get show ''ActiveState'')), (''sub_state'', PStr (show_get show ''SubState'')),
            (''result'', PStr (show_get show ''Result'')), (''n_restarts'', PInt n), (''restart'', PStr (show_get show ''Restart''))])])))))"

definition script_inspect :: "seat_world \<Rightarrow> seat_context \<Rightarrow> (seat_state, pydict) act" where
  "script_inspect w cx = (let remote = remote_command (sc_exec_v1 (sw_scripts w)) (status_argv cx);
       result = [(''argv'', pstrs (status_argv cx)), (''remote'', PStr remote)] in
     abind (run_remote w cx remote) (\<lambda>r. aret (case r of
       None \<Rightarrow> result
     | Some x \<Rightarrow> result @ [(''state'', PDict [(''status'', PStr (parse_status_exit (er_exit x))), (''exit_code'', opt_exit (er_exit x))])])))"

definition bare_inspect :: "seat_world \<Rightarrow> seat_context \<Rightarrow> (seat_state, pydict) act" where
  "bare_inspect w cx = abind (pid_record w cx) (\<lambda>r. case r of
     None \<Rightarrow> aret [(''pid_record'', PNone)]
   | Some rec \<Rightarrow> (let remote = remote_command (sc_c_pid_v1 (sw_scripts w)) (''inspect'' # pid_args rec);
         result = [(''pid_record'', PDict rec), (''remote'', PStr remote)] in
       abind (run_remote w cx remote) (\<lambda>x. aret (case x of
         None \<Rightarrow> result
       | Some e \<Rightarrow> result @ [(''state'', PDict [(''matched'', PBool (parse_pid_inspect (er_stdout e) (er_exit e)))])]))))"

definition seat_inspection :: "seat_world \<Rightarrow> seat_context \<Rightarrow> (seat_state, pydict) act" where
  "seat_inspection w cx = (let t = seat_str cx ''template'' in
     if t = ''systemd-user'' then systemd_inspect w cx
     else if t = ''control-script'' then script_inspect w cx else bare_inspect w cx)"

definition systemd_diagnostics :: "seat_world \<Rightarrow> seat_context \<Rightarrow> string" where
  "systemd_diagnostics w cx = remote_command (sc_exec_v1 (sw_scripts w))
     [''systemctl'', ''--user'', ''status'', ''--no-pager'', ''--lines=10'', ''--'', seat_str cx ''unit'']"

section \<open>What the callbacks leave alone\<close>

text \<open>Everything but the gate keeps the guard's state, the operation and the mark of the gate.\<close>

definition ctl_kept :: "seat_state \<Rightarrow> seat_state \<Rightarrow> bool" where
  "ctl_kept s s' \<longleftrightarrow> guard_same s s' \<and> ct_gate_noop (ctl s') = ct_gate_noop (ctl s)
     \<and> ct_operation (ctl s') = ct_operation (ctl s)"

lemma ctl_kept_preorder: "reflp ctl_kept" "transp ctl_kept"
  by (auto simp: ctl_kept_def guard_same_def intro!: reflpI transpI)

named_theorems ctl_keeps \<open>operations of a controller that keep the guard and the gate\<close>

lemma keeps_set_ctl:
  "(\<And>c. ct_gate_noop (f c) = ct_gate_noop c \<and> ct_operation (f c) = ct_operation c) \<Longrightarrow> keeps ctl_kept (set_ctl f)"
  unfolding set_ctl_def by (rule keeps_aset) (simp add: ctl_kept_def guard_same_def)

lemma keeps_monotonic [ctl_keeps]: "keeps ctl_kept (monotonic w)"
  by (rule keeps_mono [OF keeps_guard_reads(1)]) (simp add: guard_read_def ctl_kept_def)

lemma keeps_set_reconciliation [ctl_keeps]: "keeps ctl_kept (set_reconciliation r)"
  unfolding set_reconciliation_def by (rule keeps_set_ctl) simp

lemma keeps_poll_now [ctl_keeps]: "keeps ctl_kept (poll_now w cx)"
  unfolding poll_now_def Let_def by (intro keeps_rules ctl_kept_preorder keeps_set_ctl) simp

lemma keeps_run_remote [ctl_keeps]: "keeps ctl_kept (run_remote w cx remote)"
  unfolding run_remote_def by (intro keeps_rules ctl_kept_preorder keeps_set_ctl) simp

lemma keeps_on_store [ctl_keeps]: "keeps ctl_kept (on_store m)"
  unfolding on_store_def by (intro keeps_rules ctl_kept_preorder keeps_set_ctl) simp

lemma keeps_observations [ctl_keeps]:
  "keeps ctl_kept (sole_model_observation w cx)" "keeps ctl_kept (recent_models w cx)"
  "keeps ctl_kept (show_now w cx)" "keeps ctl_kept (status_now w cx)" "keeps ctl_kept (pid_record w cx)"
  "keeps ctl_kept (log_tail w cx)"
  unfolding sole_model_observation_def recent_models_def show_now_def status_now_def pid_record_def log_tail_def
  by (intro keeps_rules ctl_kept_preorder ctl_keeps)+

lemma keeps_read_baseline [ctl_keeps]: "keeps ctl_kept (read_baseline_restarts w cx)"
  unfolding read_baseline_restarts_def by (intro keeps_rules ctl_kept_preorder ctl_keeps)

lemma keeps_check_restart [ctl_keeps]: "keeps ctl_kept (check_restart_counter show)"
  unfolding check_restart_counter_def Let_def by (intro keeps_rules ctl_kept_preorder keeps_set_ctl) simp_all

lemma keeps_await [ctl_keeps]: "keeps ctl_kept (await_sole_model fuel w cx d)"
proof (induction fuel)
  case 0
  show ?case unfolding await_sole_model.simps by (intro keeps_rules ctl_kept_preorder)
next
  case (Suc fuel)
  then show ?case unfolding await_sole_model.simps by (intro keeps_rules ctl_kept_preorder ctl_keeps)
qed

lemma keeps_await_and_set [ctl_keeps]: "keeps ctl_kept (await_and_set fuel w cx)"
  unfolding await_and_set_def by (intro keeps_rules ctl_kept_preorder ctl_keeps)

lemma keeps_loops [ctl_keeps]:
  "keeps ctl_kept (stop_loop fuel w cx)" "keeps ctl_kept (systemd_start_loop fuel w cx)"
  "keeps ctl_kept (systemd_stop_loop fuel w cx)" "keeps ctl_kept (script_start_loop fuel w cx)"
proof (induction fuel)
  case (Suc fuel)
  case 1
  show ?case unfolding stop_loop.simps using Suc.IH by (intro keeps_rules ctl_kept_preorder ctl_keeps)
  case 2
  show ?case unfolding systemd_start_loop.simps check_unit_def settle_unit_def using Suc.IH by (intro keeps_rules ctl_kept_preorder ctl_keeps)
  case 3
  show ?case unfolding systemd_stop_loop.simps using Suc.IH by (intro keeps_rules ctl_kept_preorder ctl_keeps)
  case 4
  show ?case unfolding script_start_loop.simps using Suc.IH by (intro keeps_rules ctl_kept_preorder ctl_keeps)
qed (simp_all add: keeps_araise ctl_kept_preorder)

lemma keeps_persist_attempts [ctl_keeps]: "keeps ctl_kept (persist_attempts n w cx r)" "keeps ctl_kept (persist_pid_record w cx f)"
proof -
  show attempts: "keeps ctl_kept (persist_attempts n w cx r)" for n r
  proof (induction n)
    case 0
    show ?case unfolding persist_attempts.simps by (intro keeps_rules ctl_kept_preorder)
  next
    case (Suc n)
    then show ?case unfolding persist_attempts.simps by (intro keeps_rules ctl_kept_preorder ctl_keeps)
  qed
  show "keeps ctl_kept (persist_pid_record w cx f)"
    unfolding persist_pid_record_def by (intro keeps_rules ctl_kept_preorder attempts)
qed

lemma keeps_reconcile [ctl_keeps]: "keeps ctl_kept (reconcile_operation fuel w cx out)"
  unfolding reconcile_operation_def bare_reconcile_start_def Let_def by (intro keeps_rules ctl_kept_preorder ctl_keeps)

lemma keeps_case_seat_op:
  "\<lbrakk>keeps R a; keeps R b; keeps R c\<rbrakk> \<Longrightarrow> keeps R (case name of StartLocked \<Rightarrow> a | StopLocked \<Rightarrow> b | ForceStopLocked \<Rightarrow> c)"
  by (cases name) simp_all

lemma keeps_operation_argv [ctl_keeps]: "keeps ctl_kept (operation_argv w cx name)"
  unfolding operation_argv_def Let_def by (intro keeps_rules keeps_case_seat_op ctl_kept_preorder ctl_keeps)

lemma keeps_finalize [ctl_keeps]: "keeps ctl_kept (finalize w cx name g)"
  unfolding finalize_def remote_error_def final_state_def Let_def by (intro keeps_rules ctl_kept_preorder ctl_keeps)

lemma keeps_inspection [ctl_keeps]: "keeps ctl_kept (seat_inspection w cx)"
  unfolding seat_inspection_def systemd_inspect_def script_inspect_def bare_inspect_def Let_def
  by (intro keeps_rules ctl_kept_preorder ctl_keeps)

section \<open>Evidence\<close>

text \<open>The last observation of the endpoint: the host reachable, and the seat's model the only one.\<close>

definition seat_evidence :: "seat_context \<Rightarrow> seat_ctl \<Rightarrow> bool" where
  "seat_evidence cx c \<longleftrightarrow> (\<exists>ob. latest (ct_poller c) = Some ob \<and> ob_host_state ob = ''reachable'' \<and> set (ob_models ob) = {model_id cx})"

lemma sole_set: "sole m ob \<longleftrightarrow> set (ob_models ob) = {m}"
  by (cases "ob_models ob") (auto simp: sole_def list_all_iff)

lemma poll_latest: "poll env r tr h p m d peer q = (Inr ob, q') \<Longrightarrow> latest q' = Some ob"
  using observation_latest by blast

lemma poll_now_latest: "wp (poll_now w cx) (\<lambda>r s'. ctl_kept s s' \<and> (\<forall>ob. r = Some ob \<longrightarrow> latest (ct_poller (ctl s')) = Some ob)) E s"
proof -
  obtain r s' where r: "poll_now w cx s = (r, s')" by fastforce
  have "ctl_kept s s'" using keepsD [OF keeps_poll_now r] .
  moreover have "\<exists>x. r = Inr x \<and> (\<forall>ob. x = Some ob \<longrightarrow> latest (ct_poller (ctl s')) = Some ob)"
    using r by (auto simp: poll_now_def set_ctl_def Let_def split: prod.splits sum.splits dest: poll_latest)
  ultimately show ?thesis using r by (auto simp: wp_def)
qed

lemma sole_observation_evidence:
  "wp (sole_model_observation w cx) (\<lambda>(is_sole, models) s'. ctl_kept s s' \<and> (is_sole \<longrightarrow> seat_evidence cx (ctl s'))) (\<lambda>_ s'. ctl_kept s s') s"
  unfolding sole_model_observation_def
  by (rule wp_bindI [OF poll_now_latest]) (auto simp: wp_rules seat_evidence_def sole_set split: option.splits)

lemma post_lock_poll_evidence:
  "wp (post_lock_poll w cx) (\<lambda>ok s'. guard_same s s' \<and> (\<not> ct_gate_noop (ctl s) \<longrightarrow>
     (if ok then \<not> ct_gate_noop (ctl s') else ct_gate_noop (ctl s') \<longrightarrow> seat_evidence cx (ctl s')))) (\<lambda>_ s'. guard_same s s') s"
  unfolding post_lock_poll_def
  by (rule wp_bindI [OF poll_now_latest])
    (auto simp: wp_rules set_ctl_def ctl_kept_def guard_same_def seat_evidence_def sole_set split: option.splits)

text \<open>The controllers are clients of the guard: they leave the lock and the protocol to it.\<close>

interpretation seat: guard_client "make_guard fuel w cx basename" "\<lambda>c. \<not> ct_gate_noop c" "\<lambda>c. \<not> ct_gate_noop c"
    "\<lambda>c. ct_gate_noop c \<longrightarrow> seat_evidence cx c" for fuel w cx basename
proof unfold_locales
  fix s :: seat_state
  assume "\<not> ct_gate_noop (ctl s)"
  then show "wp (gc_permits (make_guard fuel w cx basename))
      (\<lambda>ok s'. guard_same s s' \<and> (if ok then \<not> ct_gate_noop (ctl s') else ct_gate_noop (ctl s') \<longrightarrow> seat_evidence cx (ctl s')))
      (\<lambda>_ s'. guard_same s s') s"
    unfolding make_guard_def by (simp, intro wp_mono [OF post_lock_poll_evidence]) simp_all
next
  fix s :: seat_state and out
  show "wp (gc_reconcile (make_guard fuel w cx basename) out)
      (\<lambda>_ s'. guard_same s s' \<and> (\<not> ct_gate_noop (ctl s) \<longrightarrow> \<not> ct_gate_noop (ctl s'))) (\<lambda>_ s'. guard_same s s') s"
    unfolding make_guard_def by (simp, intro wp_mono [OF wp_keeps [OF keeps_reconcile]]) (simp_all add: ctl_kept_def)
qed

section \<open>The pipeline\<close>

definition ctl_same :: "seat_state \<Rightarrow> seat_state \<Rightarrow> bool" where
  "ctl_same s s' \<longleftrightarrow> ctl s' = ctl s"

lemma ctl_same_preorder: "reflp ctl_same" "transp ctl_same"
  by (auto simp: ctl_same_def intro!: reflpI transpI)

lemma keeps_flock_loop: "keeps ctl_same (flock_loop fuel w d)"
proof (induction fuel)
  case 0
  show ?case unfolding flock_loop.simps by (intro keeps_rules ctl_same_preorder)
next
  case (Suc fuel)
  then show ?case
    unfolding flock_loop.simps try_flock_def monotonic_def close_fd_def guard_event_def
    by (intro keeps_rules ctl_same_preorder) (simp_all add: ctl_same_def)
qed

lemma keeps_release: "keeps ctl_same release"
  unfolding release_def close_fd_def guard_event_def by (intro keeps_rules ctl_same_preorder) (simp_all add: ctl_same_def)

lemma keeps_acquire: "keeps ctl_same (acquire fuel w path)"
  unfolding acquire_def may_raise_def stat_check_def monotonic_def
  by (intro keeps_rules ctl_same_preorder keeps_flock_loop keeps_release) (simp_all add: ctl_same_def)

definition proven :: "seat_context \<Rightarrow> seat_op \<Rightarrow> operation_outcome \<Rightarrow> seat_state \<Rightarrow> bool" where
  "proven cx name out s \<longleftrightarrow> (name = StartLocked \<and> op_state out = ''serving'' \<longrightarrow> seat_evidence cx (ctl s))"

lemma final_state_proven: "wp (final_state w cx name) (proven cx name) (\<lambda>_ _. True) s"
proof -
  have "wp (abind (sole_model_observation w cx) (\<lambda>(is_sole, models).
       if \<not> is_sole then aret (outcome ''indeterminate'' None ''post-session endpoint poll does not confirm serving'')
       else aret ((outcome ''serving'' None [])\<lparr>op_models := models\<rparr>))) (proven cx name) (\<lambda>_ _. True) s"
    unfolding wp_abind by (rule wp_mono [OF sole_observation_evidence]) (auto simp: wp_rules proven_def outcome_def)
  then show ?thesis
    unfolding final_state_def Let_def wp_awith wp_if wp_aret
    by (cases "name = StartLocked") (auto simp: proven_def reconciled_def split: option.split)
qed

lemma remote_error_proven: "wp (remote_error w cx name rc) (proven cx name) (\<lambda>_ _. True) s"
proof -
  have "wp (abind (log_tail w cx) (\<lambda>tail. aret ((outcome ''error'' (Some ''early-exit'') [])\<lparr>op_log_tail := tail\<rparr>)))
      (proven cx name) (\<lambda>_ _. True) s"
    unfolding wp_abind by (rule wp_mono [OF wp_True]) (simp_all add: wp_rules proven_def outcome_def)
  then show ?thesis unfolding remote_error_def wp_if wp_aret by (cases name) (simp_all add: proven_def outcome_def)
qed

lemma finalize_proven:
  assumes "ct_gate_noop (ctl s) \<longrightarrow> seat_evidence cx (ctl s)"
  shows "wp (finalize w cx name g) (proven cx name) (\<lambda>_ _. True) s"
proof (cases "go_rc_trailer g")
  case None
  then show ?thesis using assms by (simp add: finalize_def wp_rules proven_def outcome_def)
next
  case (Some rc)
  then show ?thesis
    using assms remote_error_proven [of w cx name rc s] final_state_proven [of w cx name s]
    by (simp add: finalize_def wp_rules proven_def outcome_def)
qed

lemma guarded_body_post:
  assumes "held s" and "\<not> ct_gate_noop (ctl s)"
  shows "wp (guarded_body fuel w cx name window) (\<lambda>out s'. live s' \<and> proven cx name out s') (\<lambda>_. live) s"
proof -
  have argv: "wp (operation_argv w cx name) (\<lambda>_ s'. held s' \<and> \<not> ct_gate_noop (ctl s')) (\<lambda>_. live) s"
    by (rule wp_mono [OF wp_keeps [OF keeps_operation_argv]])
      (use assms in \<open>auto simp: ctl_kept_def held_def guard_same_def in_phase_def live_def\<close>)
  have final: "wp (finalize w cx name g) (\<lambda>out s'. live s' \<and> proven cx name out s') (\<lambda>_. live) s1"
    if "seat.settled cx s1" for g s1
  proof -
    have live: "live s1" and noop: "ct_gate_noop (ctl s1) \<longrightarrow> seat_evidence cx (ctl s1)"
      using that by (auto simp: seat.settled_def)
    have "wp (finalize w cx name g) (\<lambda>_. live) (\<lambda>_. live) s1"
      by (rule wp_mono [OF wp_keeps [OF keeps_finalize]]) (use live guard_same_live in \<open>auto simp: ctl_kept_def\<close>)
    then show ?thesis
      using finalize_proven [OF noop, of w name g] wp_conj [of "finalize w cx name g" "\<lambda>_. live" "proven cx name" "\<lambda>_. live" "\<lambda>_ _. True" s1]
      by simp
  qed
  have body: "wp (abind (operation_argv w cx name) (\<lambda>argv.
      abind (operate fuel (sw_guard w) (sc_guard_v1 (sw_scripts w)) (make_guard fuel w cx b) argv (window + release_grace_seconds))
        (finalize w cx name))) (\<lambda>out s'. live s' \<and> proven cx name out s') (\<lambda>_. live) s" for b
    by (rule wp_bindI [OF argv], rule wp_bindI [OF seat.operate_settled]) (auto intro: final)
  show ?thesis
    unfolding guarded_body_def using body held_live [OF assms(1)] by (simp add: wp_abind wp_alift split: sum.split)
qed

lemma run_guarded_post:
  assumes "idle s"
  shows "wp (run_guarded fuel w cx name window) (\<lambda>out s'. idle s' \<and> proven cx name out s') (\<lambda>_. idle) s"
proof -
  let ?idle = "\<lambda>s. idle s \<and> \<not> ct_gate_noop (ctl s)"
  have kept: "wp m (\<lambda>_. ?idle) (\<lambda>_. idle) s" if "keeps ctl_kept m" "?idle s" for m :: "(seat_state, 'b) act" and s
    by (rule wp_mono [OF wp_keeps [OF that(1)]]) (use that(2) in \<open>auto simp: ctl_kept_def guard_same_def idle_def in_phase_def\<close>)
  have first: "wp (set_ctl (\<lambda>c. c\<lparr>ct_operation := Some name, ct_gate_noop := False, ct_reconciliation := None\<rparr>)) (\<lambda>_. ?idle) (\<lambda>_. idle) s"
    using assms by (simp add: set_ctl_def wp_rules idle_def in_phase_def)
  have baseline: "keeps ctl_kept (if name = StartLocked then read_baseline_restarts w cx else aret None)"
    by (intro keeps_rules ctl_keeps ctl_kept_preorder)
  have body: "wp (afinally (guarded_body fuel w cx name window) release) (\<lambda>out s'. idle s' \<and> proven cx name out s') (\<lambda>_. idle) s1"
    if "held s1" "\<not> ct_gate_noop (ctl s1)" for s1
  proof -
    have free: "wp release (\<lambda>_ s'. idle s' \<and> ctl s' = ctl s2) (\<lambda>_ _. False) s2" if "live s2" for s2
      using wp_conj [of release "\<lambda>_. idle" "\<lambda>_ s'. ctl_same s2 s'" "\<lambda>_ _. False" "\<lambda>_ s'. ctl_same s2 s'" s2]
        release_idle [OF that] wp_keeps [OF keeps_release, of s2] by (simp add: ctl_same_def)
    show ?thesis
      unfolding wp_afinally by (rule wp_mono [OF guarded_body_post [OF that]])
        (auto simp: proven_def intro!: wp_mono [OF free])
  qed
  have lock: "wp (acatch is_guard_error (abind (acquire fuel (sw_guard w) path) (\<lambda>_. aret None)) (\<lambda>e. aret (Some (refused e))))
      (\<lambda>r s'. case r of None \<Rightarrow> held s' \<and> \<not> ct_gate_noop (ctl s') | Some out \<Rightarrow> idle s' \<and> (\<exists>e. out = refused e)) (\<lambda>_. idle) s1"
    if "?idle s1" for s1 path and refused :: "exn \<Rightarrow> operation_outcome"
  proof -
    have "wp (acquire fuel (sw_guard w) path) (\<lambda>_ s'. (gs_fd s' \<and> gs_flocked s' \<and> in_phase PHeld s') \<and> ctl_same s1 s')
        (\<lambda>_ s'. idle s' \<and> ctl_same s1 s') s1"
      unfolding wp_conj using acquire_post wp_keeps [OF keeps_acquire] that by blast
    then have "wp (acquire fuel (sw_guard w) path) (\<lambda>_ s'. held s' \<and> ctl s' = ctl s1) (\<lambda>_. idle) s1"
      by (rule wp_mono) (auto simp: held_def ctl_same_def)
    then show ?thesis
      unfolding wp_acatch wp_abind wp_aret by (rule wp_mono) (use that in \<open>auto simp: wp_rules\<close>)
  qed
  have finish: "wp (case r of Some out \<Rightarrow> aret out | None \<Rightarrow> afinally (guarded_body fuel w cx name window) release)
      (\<lambda>out s'. idle s' \<and> proven cx name out s') (\<lambda>_. idle) s1"
    if "case r of None \<Rightarrow> held s1 \<and> \<not> ct_gate_noop (ctl s1) | Some out \<Rightarrow> idle s1 \<and> (\<exists>e. out = outcome ''refused'' (f e) [])"
    for r s1 and f :: "exn \<Rightarrow> string option"
    using that body [of s1] by (cases r) (auto simp: wp_aret proven_def outcome_def)
  show ?thesis
    unfolding run_guarded_def
    by (rule wp_bindI [OF first], rule wp_bindI [OF kept [OF baseline]], assumption,
        rule wp_bindI [OF kept [OF keeps_set_ctl]], simp, assumption,
        rule wp_bindI [OF kept [OF keeps_monotonic]], assumption,
        rule wp_bindI [OF kept [OF keeps_set_ctl]], simp, assumption,
        rule wp_bindI [OF lock], assumption, rule finish)
qed

text \<open>One call of a controller, each with its own world and context.\<close>

datatype seat_kind = Start | Stop | ForceStop

type_synonym seat_call = "nat \<times> seat_world \<times> seat_context \<times> seat_kind"

fun seat_step :: "seat_call \<Rightarrow> seat_state \<Rightarrow> (exn + operation_outcome) \<times> seat_state" where
  "seat_step (fuel, w, cx, Start) = seat_start fuel w cx"
| "seat_step (fuel, w, cx, Stop) = seat_stop fuel w cx"
| "seat_step (fuel, w, cx, ForceStop) = seat_force_stop fuel w cx"

lemma seat_start_post:
  "idle s \<Longrightarrow> wp (seat_start fuel w cx) (\<lambda>out s'. idle s' \<and> proven cx StartLocked out s') (\<lambda>_. idle) s"
  using run_guarded_post [of s fuel w cx StartLocked "ready_timeout cx"]
  by (cases "cx_linger cx = ''yes''") (simp_all add: seat_start_def start_gate_def wp_rules proven_def outcome_def)

lemma seat_step_idle: "idle s \<Longrightarrow> idle (snd (seat_step call s))"
proof -
  assume "idle s"
  have idle: "idle (snd (m s))" if "wp m (\<lambda>out s'. idle s' \<and> Q out s') (\<lambda>_. idle) s" for m :: "(seat_state, operation_outcome) act" and Q
    using that by (auto simp: wp_def split: prod.splits sum.splits)
  obtain fuel w cx k where call: "call = (fuel, w, cx, k)" by (cases call) auto
  show ?thesis
  proof (cases k)
    case Start
    then show ?thesis using idle [OF seat_start_post [OF \<open>idle s\<close>]] call by simp
  next
    case Stop
    then show ?thesis using idle [OF run_guarded_post [OF \<open>idle s\<close>]] call by (simp add: seat_stop_def)
  next
    case ForceStop
    then show ?thesis using idle [OF run_guarded_post [OF \<open>idle s\<close>]] call \<open>idle s\<close> by (simp add: seat_force_stop_def)
  qed
qed

interpretation control: guarded_machine seat_step idle
  by unfold_locales (rule seat_step_idle)

section \<open>Theorems\<close>


text \<open>
  C11: A start that reports serving has the evidence: the last poll of the endpoint reached the
  host and reported the seat's model and no other, whether the operation ran or the gate found
  the seat already serving.
\<close>

theorem serving_has_evidence:
  assumes "idle s" and "seat_start fuel w cx s = (Inr out, s')" and "op_state out = ''serving''"
  shows "\<exists>ob. latest (ct_poller (ctl s')) = Some ob \<and> ob_host_state ob = ''reachable'' \<and> set (ob_models ob) = {model_id cx}"
  using wp_Inr [OF seat_start_post [OF assms(1)] assms(2)] assms(3) by (simp add: proven_def seat_evidence_def)

section \<open>A world to run in\<close>

definition demo_guard_world :: guard_world where
  "demo_guard_world = \<lparr>gw_mkdir = None, gw_symlink = False, gw_exists = True, gw_create = None,
     gw_stat = Inr \<lparr>ls_regular = True, ls_owned = True, ls_mode = 384\<rparr>, gw_open = None, gw_flock = (\<lambda>_. True),
     gw_clock = (\<lambda>_. 0), gw_spawn = None, gw_line = (\<lambda>_. (''TESTUDO_LOCKED n'' @ [CHR 0x0A], 17)), gw_err = (\<lambda>_. []),
     gw_exit = (\<lambda>_. Some 77), gw_ready = (\<lambda>_. False)\<rparr>"

definition demo_seat_world :: seat_world where
  "demo_seat_world = \<lparr>sw_guard = demo_guard_world, sw_poll = demo_poll_env, sw_reply = (\<lambda>_. demo_reply),
     sw_exec = (\<lambda>_ _. SpawnError []), sw_store = \<lparr>se_ip = (\<lambda>_. None), se_dumps = (\<lambda>_. []), se_loads = (\<lambda>_. Inr PNone), se_faults = (\<lambda>_. None)\<rparr>,
     sw_scripts = \<lparr>sc_exec_v1 = [], sc_guard_v1 = [], sc_launch_v1 = [], sc_c_pid_v1 = [], sc_log_tail_v1 = []\<rparr>,
     sw_nonce = ''n'', sw_digest = (\<lambda>_. replicate 64 (CHR ''a'')), sw_sha = id, sw_sanitize = id, sw_state_dir = ''/s''\<rparr>"

definition demo_context :: seat_context where
  "demo_context = \<lparr>cx_host_id = ''h'', cx_seat_id = ''s'',
     cx_seat = [(''template'', PStr ''control-script''), (''model_id'', PStr ''m''), (''script'', PStr ''/x''), (''ready_timeout'', PInt 30)],
     cx_descriptor = \<lparr>sd_destination = ''web'', sd_port = None, sd_key_path = None, sd_known_hosts = ''kh''\<rparr>,
     cx_endpoint_host = ''h'', cx_endpoint_port = 443, cx_ssh_hostname = ''web'', cx_ssh_port = 22, cx_linger = ''yes'',
     cx_state_store = False, cx_transport = Some [(''kind'', PStr ''https'')], cx_executor = True\<rparr>"

definition demo_ctl :: seat_ctl where
  "demo_ctl = \<lparr>ct_operation = None, ct_gate_noop = False, ct_baseline = None, ct_last = None, ct_reconciliation = None,
     ct_deadline = 0, ct_poller = \<lparr>po_sequence = 0, po_observations = []\<rparr>, ct_execs = 0, ct_store = store_init\<rparr>"

definition demo_seat_state :: seat_state where
  "demo_seat_state = guard_state.extend
     \<lparr>gs_fd = False, gs_flocked = False, gs_stdin = False, gs_returncode = None, gs_flocks = 0, gs_ticks = 0, gs_lines = 0,
      gs_errs = 0, gs_polls = 0, gs_selects = 0, gs_trace = []\<rparr> demo_ctl"

lemma demo_idle: "idle demo_seat_state"
  by (simp add: idle_def in_phase_def demo_seat_state_def guard_state.defs)

definition demo_line :: string where "demo_line = ''TESTUDO_LOCKED n'' @ [CHR 0x0A]"

lemma demo_lines:
  "observed_nonce [demo_line] = Inr ''n''" "locked_line demo_line" "exact_trailer_rc demo_line ''n'' = None" "demo_line \<noteq> []"
  by code_simp+

lemma demo_calls:
  "monotonic demo_guard_world s = (Inr 0, s\<lparr>gs_ticks := Suc (gs_ticks s)\<rparr>)"
  "read_line demo_guard_world s = (Inr (demo_line, 17), s\<lparr>gs_lines := Suc (gs_lines s)\<rparr>)"
  "read_err demo_guard_world s = (Inr [], s\<lparr>gs_errs := Suc (gs_errs s)\<rparr>)"
  "select_ready demo_guard_world s = (Inr False, s\<lparr>gs_selects := Suc (gs_selects s)\<rparr>)"
  "gs_returncode s \<in> {None, Some 77} \<Longrightarrow> proc_poll demo_guard_world s = (Inr (Some 77), s\<lparr>gs_polls := Suc (gs_polls s), gs_returncode := Some 77\<rparr>)"
  "may_raise (gw_spawn demo_guard_world) s = (Inr (), s)"
  by (auto simp: monotonic_def read_line_def read_err_def select_ready_def proc_poll_def demo_guard_world_def may_raise_def demo_line_def Let_def)

definition demo_vars :: drive_vars where
  "demo_vars = drive_init\<lparr>dv_lines := [demo_line], dv_stderr := [[]], dv_total := 17, dv_locked := True, dv_released := True\<rparr>"

text \<open>A guard that reports its lock, is refused and exits with 77.\<close>

lemma demo_gate:
  assumes "gc_nonce c = ''n''" and "gc_permits c s = (Inr False, s1)"
  shows "gate_step c (drive_init\<lparr>dv_lines := [demo_line], dv_stderr := [[]], dv_total := 17\<rparr>) s
     = (Inr demo_vars, s1\<lparr>gs_stdin := False, gs_trace := gs_trace s1 @ [Permit False, Eof]\<rparr>)"
proof -
  have "ask_permission c ''n'' s = (Inr False, s1\<lparr>gs_trace := gs_trace s1 @ [Permit False]\<rparr>)"
    using assms by (simp add: ask_permission_def guard_event_def abind_def)
  then show ?thesis
    using assms(1) by (simp add: gate_step_def drive_init_def demo_lines guard_event_def close_stdin_def demo_vars_def abind_def)
qed

lemma demo_body:
  assumes "gc_nonce c = ''n''" and "gc_permits c (s\<lparr>gs_lines := Suc (gs_lines s), gs_errs := Suc (gs_errs s)\<rparr>) = (Inr False, s1)"
    and "gs_returncode s1 = None"
  shows "drive_body demo_guard_world c drive_init s = (Inr (True, demo_vars), 
     s1\<lparr>gs_stdin := False, gs_trace := gs_trace s1 @ [Permit False, Eof], gs_polls := Suc (gs_polls s1), gs_returncode := Some 77\<rparr>)"
proof -
  have g: "gate_step c (drive_init\<lparr>dv_lines := [demo_line], dv_stderr := [[]], dv_total := 17\<rparr>)
      (s\<lparr>gs_lines := Suc (gs_lines s), gs_errs := Suc (gs_errs s)\<rparr>) = (Inr demo_vars, s1\<lparr>gs_stdin := False, gs_trace := gs_trace s1 @ [Permit False, Eof]\<rparr>)"
    by (rule demo_gate [OF assms(1,2)])
  have t: "trailer_step c demo_vars s2 = (Inr demo_vars, s2)" for s2
    using assms(1) by (simp add: trailer_step_def demo_vars_def drive_init_def demo_lines)
  show ?thesis
    using g t assms(3)
    by (simp add: drive_body_def demo_calls Let_def demo_lines max_output_bytes_def drive_init_def exit_check_def demo_vars_def abind_def)
qed

lemma demo_operate:
  assumes "gc_nonce c = ''n''" and "\<And>s1. guard_state.more s1 = guard_state.more s \<Longrightarrow> gc_permits c s1 = (Inr False, p s1)" and "0 < t"
    and "\<And>s1. guard_state.more s1 = guard_state.more s \<Longrightarrow> gs_returncode (p s1) = gs_returncode s1"
  shows "\<exists>g s' s1. operate (Suc fuel) demo_guard_world v1 c argv t s = (Inr g, s') \<and> go_exit_code g = Some 77
     \<and> go_refused g = Some ''GATE_REFUSED'' \<and> guard_state.more s' = guard_state.more (p s1) \<and> guard_state.more s1 = guard_state.more s"
proof -
  let ?s = "s\<lparr>gs_ticks := Suc (gs_ticks s), gs_stdin := True, gs_returncode := None,
     gs_trace := gs_trace s @ [Spawned (ssh_argv c (guard_remote v1 c argv)) ''n'']\<rparr>"
  let ?b = "?s\<lparr>gs_ticks := Suc (Suc (Suc (gs_ticks s)))\<rparr>"
  let ?q = "?b\<lparr>gs_lines := Suc (gs_lines s), gs_errs := Suc (gs_errs s)\<rparr>"
  have body: "drive_body demo_guard_world c drive_init ?b = (Inr (True, demo_vars), 
     (p ?q)\<lparr>gs_stdin := False, gs_trace := gs_trace (p ?q) @ [Permit False, Eof], gs_polls := Suc (gs_polls (p ?q)), gs_returncode := Some 77\<rparr>)"
    using demo_body [OF assms(1), of ?b "p ?q"] assms(2,4) by simp
  let ?e = "(p ?q)\<lparr>gs_stdin := False, gs_trace := gs_trace (p ?q) @ [Permit False, Eof], gs_polls := Suc (gs_polls (p ?q)), gs_returncode := Some 77\<rparr>"
  have loop: "drive_loop (Suc fuel) demo_guard_world c t drive_init (?s\<lparr>gs_ticks := Suc (Suc (gs_ticks s))\<rparr>) = (Inr demo_vars, ?e)"
    using body assms(3) by (simp add: demo_calls)
  have drain: "drain_loop (Suc fuel) demo_guard_world demo_vars ?e
      = (Inr demo_vars, ?e\<lparr>gs_selects := Suc (gs_selects (p ?q)), gs_polls := Suc (Suc (gs_polls (p ?q)))\<rparr>)"
    by (simp add: demo_calls abind_def)
  have proto: "\<exists>g s'. drive_protocol (Suc fuel) demo_guard_world c t ?s = (Inr g, s') \<and> go_exit_code g = Some 77
      \<and> guard_state.more s' = guard_state.more (p ?q)"
    using loop drain
    by (simp add: drive_protocol_def demo_calls drive_outcome_def Let_def del: drive_loop.simps drain_loop.simps)
      (simp add: demo_vars_def drive_init_def)
  have "\<exists>g s'. operate (Suc fuel) demo_guard_world v1 c argv t s = (Inr g, s') \<and> go_exit_code g = Some 77
     \<and> go_refused g = Some ''GATE_REFUSED'' \<and> guard_state.more s' = guard_state.more (p ?q)"
    using proto assms(1) by (auto simp: operate_def demo_calls guard_event_def refused_reason_def)
  moreover have "guard_state.more ?q = guard_state.more s" by simp
  ultimately show ?thesis by blast
qed

text \<open>The endpoint already serves the model: the gate marks the start as done.\<close>

lemma more_update_const: "guard_state.more_update f s = guard_state.more_update (\<lambda>_. f (guard_state.more s)) s"
  by (cases s) simp

lemma demo_poll_now:
  "\<exists>ob c. poll_now demo_seat_world demo_context s = (Inr (Some ob), guard_state.more_update (\<lambda>_. c) s)
     \<and> ob_host_state ob = ''reachable'' \<and> ob_endpoint_state ob = ''occupied-known'' \<and> ob_models ob = [''m'']
     \<and> ct_operation c = ct_operation (ctl s)"
proof -
  have r: "poll_https demo_poll_env demo_reply = mk_obs ''reachable'' ''closed'' [''m''] []" by (rule demo_https)
  show ?thesis
    by (simp add: poll_now_def demo_seat_world_def demo_context_def poll_def poll_once_def dict_get_def r occupancy_def seat_str_def
        set_ctl_def Let_def mk_obs_def)
      (subst more_update_const, intro exI, rule conjI, rule refl, simp)
qed

lemma demo_gate_noop:
  assumes "ct_operation (ctl s) = Some StartLocked"
  shows "\<exists>c. post_lock_poll demo_seat_world demo_context s = (Inr False, guard_state.more_update (\<lambda>_. c) s) \<and> ct_gate_noop c"
proof -
  obtain ob c where ob: "poll_now demo_seat_world demo_context s = (Inr (Some ob), guard_state.more_update (\<lambda>_. c) s)"
    "ob_host_state ob = ''reachable''" "ob_endpoint_state ob = ''occupied-known''" "ob_models ob = [''m'']" "ct_operation c = Some StartLocked"
    using demo_poll_now [of s] assms by auto
  have "model_id demo_context = ''m''" by (simp add: seat_str_def demo_context_def dict_get_def)
  then show ?thesis
    using ob by (intro exI [of _ "c\<lparr>ct_gate_noop := True\<rparr>"]) (simp add: post_lock_poll_def sole_def set_ctl_def comp_def)
qed

lemma demo_basename: "\<exists>b. lock_basename (context_lock_key demo_seat_world demo_context) = Inr b"
proof -
  have "\<not> isl (lock_basename (context_lock_key demo_seat_world demo_context))" by code_simp
  then show ?thesis by (cases "lock_basename (context_lock_key demo_seat_world demo_context)") auto
qed

lemma demo_acquire:
  "idle s \<Longrightarrow> \<exists>s'. acquire (Suc fuel) demo_guard_world path s = (Inr (), s') \<and> ctl s' = ctl s \<and> gs_fd s'"
  by (simp add: acquire_def may_raise_def stat_check_def demo_guard_world_def acatch_def monotonic_def try_flock_def guard_event_def abind_def)

lemma demo_body_serving:
  assumes "ct_operation (ctl s) = Some StartLocked"
  shows "\<exists>out s'. guarded_body (Suc fuel) demo_seat_world demo_context StartLocked 30 s = (Inr out, s') \<and> op_state out = ''serving''"
proof -
  obtain b where b: "lock_basename (context_lock_key demo_seat_world demo_context) = Inr b"
    using demo_basename by blast
  obtain argv where argv: "operation_argv demo_seat_world demo_context StartLocked = aret argv"
    by (simp add: operation_argv_def demo_context_def seat_str_def dict_get_def)
  let ?c = "make_guard (Suc fuel) demo_seat_world demo_context b" and ?p = "\<lambda>s. snd (post_lock_poll demo_seat_world demo_context s)"
  have c: "gc_permits ?c = post_lock_poll demo_seat_world demo_context" "gc_nonce ?c = ''n''" "sw_guard demo_seat_world = demo_guard_world"
    by (simp_all add: make_guard_def demo_seat_world_def)
  have noop: "post_lock_poll demo_seat_world demo_context s1 = (Inr False, ?p s1) \<and> gs_returncode (?p s1) = gs_returncode s1 \<and> ct_gate_noop (ctl (?p s1))"
    if "ctl s1 = ctl s" for s1
    using demo_gate_noop [of s1] that assms by auto
  have "\<exists>g s' s1. operate (Suc fuel) demo_guard_world (sc_guard_v1 (sw_scripts demo_seat_world)) ?c argv 60 s = (Inr g, s')
      \<and> go_exit_code g = Some 77 \<and> go_refused g = Some ''GATE_REFUSED'' \<and> ctl s' = ctl (?p s1) \<and> ctl s1 = ctl s"
    by (rule demo_operate) (use c noop in auto)
  then obtain g s' s1 where g: "operate (Suc fuel) demo_guard_world (sc_guard_v1 (sw_scripts demo_seat_world)) ?c argv 60 s = (Inr g, s')"
    "go_exit_code g = Some 77" "go_refused g = Some ''GATE_REFUSED''" "ctl s' = ctl (?p s1)" "ctl s1 = ctl s" by blast
  then have "ct_gate_noop (ctl s')" using noop by simp
  then show ?thesis
    using g b argv c by (simp add: guarded_body_def release_grace_seconds_def finalize_def outcome_def)
qed

lemma demo_serving:
  assumes "idle s"
  shows "\<exists>out s'. seat_start (Suc fuel) demo_seat_world demo_context s = (Inr out, s') \<and> op_state out = ''serving''"
proof -
  have "\<exists>out s'. run_guarded (Suc fuel) demo_seat_world demo_context StartLocked 30 s = (Inr out, s') \<and> op_state out = ''serving''"
  proof -
    let ?f = "\<lambda>c. c\<lparr>ct_operation := Some StartLocked, ct_gate_noop := False, ct_reconciliation := None, ct_baseline := None, ct_last := None,
        ct_deadline := 30\<rparr>"
    let ?s = "guard_state.more_update ?f (s\<lparr>gs_ticks := Suc (gs_ticks s)\<rparr>)"
    have "idle ?s" using assms by (simp add: idle_def in_phase_def)
    then obtain s1 where lock: "acquire (Suc fuel) demo_guard_world (local_lock_path demo_seat_world (context_lock_key demo_seat_world demo_context)) ?s
        = (Inr (), s1)" "ctl s1 = ctl ?s" "gs_fd s1" using demo_acquire by blast
    then have "ct_operation (ctl s1) = Some StartLocked" by simp
    then obtain out s2 where body: "guarded_body (Suc fuel) demo_seat_world demo_context StartLocked 30 s1 = (Inr out, s2)"
      "op_state out = ''serving''" using demo_body_serving by blast
    have rel: "\<exists>s3. release s2 = (Inr (), s3)" by (simp add: release_def close_fd_def guard_event_def)
    have w: "sw_guard demo_seat_world = demo_guard_world" "read_baseline_restarts demo_seat_world demo_context = aret None"
      by (simp_all add: demo_seat_world_def read_baseline_restarts_def seat_str_def demo_context_def dict_get_def)
    have "\<exists>s3. afinally (guarded_body (Suc fuel) demo_seat_world demo_context StartLocked 30) release s1 = (Inr out, s3)"
      using body rel by (auto simp: afinally_def)
    then show ?thesis
      using lock body(2) unfolding run_guarded_def by (auto simp: w set_ctl_def demo_calls acatch_def comp_def)
  qed
  then show ?thesis by (simp add: seat_start_def start_gate_def demo_context_def ready_timeout_def dict_get_def)
qed

section \<open>Reconciliation ends\<close>

text \<open>The number of clock readings and the end of the window, which only the loops themselves move.\<close>

definition timed :: "seat_state \<Rightarrow> seat_state \<Rightarrow> bool" where
  "timed s s' \<longleftrightarrow> gs_ticks s' = gs_ticks s \<and> ct_deadline (ctl s') = ct_deadline (ctl s)"

lemma timed_preorder: "reflp timed" "transp timed"
  by (auto simp: timed_def intro!: reflpI transpI)

lemma timed_set_ctl: "(\<And>c. ct_deadline (f c) = ct_deadline c) \<Longrightarrow> keeps timed (set_ctl f)"
  unfolding set_ctl_def by (rule keeps_aset) (simp add: timed_def)

named_theorems timed_keeps \<open>operations that read no clock\<close>

lemma timed_base [timed_keeps]: "keeps timed (poll_now w cx)" "keeps timed (run_remote w cx remote)" "keeps timed (check_restart_counter show)"
  unfolding poll_now_def run_remote_def check_restart_counter_def Let_def
  by (intro keeps_rules timed_preorder timed_set_ctl; simp)+

lemma timed_observations [timed_keeps]:
  "keeps timed (sole_model_observation w cx)" "keeps timed (recent_models w cx)" "keeps timed (show_now w cx)" "keeps timed (status_now w cx)"
  unfolding sole_model_observation_def recent_models_def show_now_def status_now_def
  by (intro keeps_rules timed_preorder timed_keeps)+

lemma quiet_reads:
  "wp (sole_model_observation w cx) (\<lambda>_. timed s) (\<lambda>_ _. False) s"
  "wp (recent_models w cx) (\<lambda>_. timed s) (\<lambda>_ _. False) s"
  "wp (show_now w cx) (\<lambda>_. timed s) (\<lambda>_ _. False) s"
  "wp (status_now w cx) (\<lambda>_. timed s) (\<lambda>_ _. False) s"
proof -
  have never: "wp m (\<lambda>_. timed s) (\<lambda>_ _. False) s" if "keeps timed m" "wp m (\<lambda>_ _. True) (\<lambda>_ _. False) s" for m :: "(seat_state, 'b) act"
    using wp_conj [of m "\<lambda>_. timed s" "\<lambda>_ _. True" "\<lambda>_. timed s" "\<lambda>_ _. False" s] wp_keeps [OF that(1), of s] that(2) by simp
  have poll: "wp (poll_now w cx) (\<lambda>_ _. True) (\<lambda>_ _. False) s" for s
    by (rule wp_mono [OF poll_now_latest]) simp_all
  have remote: "wp (run_remote w cx r) (\<lambda>_ _. True) (\<lambda>_ _. False) s" for r s
    by (simp add: run_remote_def wp_rules set_ctl_def)
  show "wp (sole_model_observation w cx) (\<lambda>_. timed s) (\<lambda>_ _. False) s"
    by (rule never [OF timed_observations(1)], unfold sole_model_observation_def, rule wp_bindI [OF poll]) (simp add: wp_rules split: option.split)
  show "wp (recent_models w cx) (\<lambda>_. timed s) (\<lambda>_ _. False) s"
    by (rule never [OF timed_observations(2)], unfold recent_models_def, rule wp_bindI [OF poll]) (simp add: wp_rules)
  show "wp (show_now w cx) (\<lambda>_. timed s) (\<lambda>_ _. False) s"
    by (rule never [OF timed_observations(3)], unfold show_now_def, rule wp_bindI [OF remote]) (simp add: wp_rules)
  show "wp (status_now w cx) (\<lambda>_. timed s) (\<lambda>_ _. False) s"
    by (rule never [OF timed_observations(4)], unfold status_now_def, rule wp_bindI [OF remote]) (simp add: wp_rules)
qed

definition reconciled_state :: "seat_state \<Rightarrow> bool" where "reconciled_state s \<longleftrightarrow> ct_reconciliation (ctl s) \<noteq> None"

lemma reconciled_state_set [simp]:
  "reconciled_state (guard_state.more_update (\<lambda>c. c\<lparr>ct_reconciliation := Some r\<rparr>) s)"
  by (simp add: reconciled_state_def)

lemma wp_set_reconciliation [wp_rules]: "wp (set_reconciliation r) Q E s = Q () (guard_state.more_update (\<lambda>c. c\<lparr>ct_reconciliation := Some r\<rparr>) s)"
  by (simp add: set_reconciliation_def set_ctl_def wp_rules)

lemma wp_monotonic: "wp (monotonic w) Q E s = Q (gw_clock w (gs_ticks s)) (s\<lparr>gs_ticks := Suc (gs_ticks s)\<rparr>)"
  by (simp add: monotonic_def wp_rules)

text \<open>The clock reaches the deadline within the readings the fuel allows.\<close>

definition in_time :: "nat \<Rightarrow> seat_world \<Rightarrow> rat \<Rightarrow> seat_state \<Rightarrow> bool" where
  "in_time fuel w d s \<longleftrightarrow> (\<exists>k < fuel. d \<le> gw_clock (sw_guard w) (gs_ticks s + k))"

lemma in_time_next:
  assumes "in_time (Suc fuel) w d s" and "gw_clock (sw_guard w) (gs_ticks s) < d" and "gs_ticks s' = Suc (gs_ticks s)"
  shows "in_time fuel w d s'"
proof -
  obtain k where k: "k < Suc fuel" "d \<le> gw_clock (sw_guard w) (gs_ticks s + k)" using assms(1) by (auto simp: in_time_def)
  then obtain j where "k = Suc j" using assms(2) by (cases k) auto
  then show ?thesis using k assms(3) by (auto simp: in_time_def intro!: exI [of _ j])
qed

lemma await_ends: "in_time fuel w d s \<Longrightarrow> wp (await_sole_model fuel w cx d) (\<lambda>_ _. True) (\<lambda>_ _. False) s"
proof (induction fuel arbitrary: s)
  case (Suc fuel)
  let ?s = "s\<lparr>gs_ticks := Suc (gs_ticks s)\<rparr>"
  have "wp (sole_model_observation w cx) (\<lambda>(is_sole, models). wp (if is_sole then aret ((reconciled ''serving'' None [])\<lparr>rc_models := models\<rparr>)
       else await_sole_model fuel w cx d) (\<lambda>_ _. True) (\<lambda>_ _. False)) (\<lambda>_ _. False) ?s"
    if "gw_clock (sw_guard w) (gs_ticks s) < d"
    by (rule wp_mono [OF quiet_reads(1)]) (use Suc.IH in_time_next [OF Suc.prems that] in \<open>auto simp: wp_rules timed_def\<close>)
  then show ?case unfolding await_sole_model.simps wp_abind wp_monotonic by (auto simp: wp_rules case_prod_beta')
qed (simp add: in_time_def)

lemma await_and_set_ends: "in_time fuel w (ct_deadline (ctl s)) s \<Longrightarrow> wp (await_and_set fuel w cx) (\<lambda>_. reconciled_state) E s"
  unfolding await_and_set_def wp_awith by (rule wp_bindI [OF wp_mono [OF await_ends]]) (auto simp: wp_rules)

abbreviation not_fuel :: "exn \<Rightarrow> seat_state \<Rightarrow> bool" where "not_fuel e s \<equiv> e \<noteq> RuntimeError ''out of fuel''"

text \<open>A round of a loop that observes something first.\<close>

lemma round_ends:
  fixes m :: "(seat_state, 'b) act"
  assumes "in_time (Suc fuel) w (ct_deadline (ctl s)) s" and quiet: "\<And>s. wp m (\<lambda>_. timed s) (\<lambda>_ _. False) s"
    and body: "\<And>x s'. in_time fuel w (ct_deadline (ctl s')) s' \<Longrightarrow> wp (f x) (\<lambda>_. reconciled_state) E s'"
  shows "wp (abind (monotonic (sw_guard w)) (\<lambda>now. awith (\<lambda>s.
     if \<not> now < ct_deadline (ctl s) then set_reconciliation r else abind m f))) (\<lambda>_. reconciled_state) E s"
proof -
  let ?s = "s\<lparr>gs_ticks := Suc (gs_ticks s)\<rparr>"
  have "wp (abind m f) (\<lambda>_. reconciled_state) E ?s" if "gw_clock (sw_guard w) (gs_ticks s) < ct_deadline (ctl s)"
    unfolding wp_abind
  proof (rule wp_mono [OF quiet])
    fix x s'
    assume "timed ?s s'"
    then show "wp (f x) (\<lambda>_. reconciled_state) E s'"
      using in_time_next [OF assms(1) that, of s'] by (intro body) (simp add: timed_def)
  qed simp
  then show ?thesis unfolding wp_abind [of "monotonic _"] wp_monotonic wp_awith by (simp add: wp_if wp_set_reconciliation)
qed

lemma stop_loop_ends: "in_time fuel w (ct_deadline (ctl s)) s \<Longrightarrow> wp (stop_loop fuel w cx) (\<lambda>_. reconciled_state) not_fuel s"
proof (induction fuel arbitrary: s)
  case (Suc fuel)
  show ?case unfolding stop_loop.simps
    by (rule round_ends [OF Suc.prems quiet_reads(1)]) (auto simp: wp_if wp_set_reconciliation intro: Suc.IH)
qed (simp add: in_time_def)

lemma script_loop_ends: "in_time fuel w (ct_deadline (ctl s)) s \<Longrightarrow> wp (script_start_loop fuel w cx) (\<lambda>_. reconciled_state) not_fuel s"
proof (induction fuel arbitrary: s)
  case (Suc fuel)
  show ?case unfolding script_start_loop.simps
    by (rule round_ends [OF Suc.prems quiet_reads(4)]) (auto simp: wp_if wp_set_reconciliation intro: Suc.IH await_and_set_ends)
qed (simp add: in_time_def)

lemma systemd_stop_ends: "in_time fuel w (ct_deadline (ctl s)) s \<Longrightarrow> wp (systemd_stop_loop fuel w cx) (\<lambda>_. reconciled_state) not_fuel s"
proof (induction fuel arbitrary: s)
  case (Suc fuel)
  have poll: "wp (abind (recent_models w cx) (\<lambda>models. if model_id cx \<notin> set models then set_reconciliation (reconciled ''dormant'' None [])
           else systemd_stop_loop fuel w cx)) (\<lambda>_. reconciled_state) not_fuel s'"
    if "in_time fuel w (ct_deadline (ctl s')) s'" for s'
    unfolding wp_abind by (rule wp_mono [OF quiet_reads(2)])
      (use that in \<open>auto simp: wp_if wp_set_reconciliation timed_def in_time_def intro!: Suc.IH\<close>)
  show ?case unfolding systemd_stop_loop.simps
    by (rule round_ends [OF Suc.prems quiet_reads(3)])
      (auto simp: wp_if wp_set_reconciliation wp_case_option intro: Suc.IH poll split: option.split)
qed (simp add: in_time_def)

lemma check_restart_timed: "wp (check_restart_counter shw) (\<lambda>_. timed s) not_fuel s"
proof -
  have "wp (check_restart_counter shw) (\<lambda>_ _. True) not_fuel s"
    by (auto simp: check_restart_counter_def wp_rules restarts_of_def set_ctl_def Let_def split: sum.split option.splits)
  then show ?thesis
    using wp_conj [of "check_restart_counter shw" "\<lambda>_. timed s" "\<lambda>_ _. True" "\<lambda>_. timed s" not_fuel s]
      wp_keeps [OF timed_base(3), of shw s] by (auto elim: wp_mono)
qed

lemma settle_unit_ends:
  assumes "wp again (\<lambda>_. reconciled_state) not_fuel s" and "in_time fuel w (ct_deadline (ctl s)) s"
  shows "wp (settle_unit again fuel w cx shw) (\<lambda>_. reconciled_state) not_fuel s"
proof -
  have "not_fuel e s" if "systemd_state shw = Inl e" for e
    using that by (auto simp: systemd_state_def Let_def split: if_splits)
  then show ?thesis
    using assms(1) await_and_set_ends [OF assms(2)]
    unfolding settle_unit_def wp_abind wp_alift by (cases "systemd_state shw") (simp_all add: wp_if wp_set_reconciliation)
qed

lemma check_unit_ends:
  assumes "\<And>s'. timed s s' \<Longrightarrow> wp again (\<lambda>_. reconciled_state) not_fuel s'" and "in_time fuel w (ct_deadline (ctl s)) s"
  shows "wp (check_unit again fuel w cx r) (\<lambda>_. reconciled_state) not_fuel s"
proof (cases r)
  case None
  then show ?thesis by (simp add: check_unit_def wp_set_reconciliation)
next
  case (Some shw)
  have "wp (case c of Some rec \<Rightarrow> set_reconciliation rec | None \<Rightarrow> settle_unit again fuel w cx shw) (\<lambda>_. reconciled_state) not_fuel s'"
    if "timed s s'" for c s'
    using settle_unit_ends [OF assms(1) [OF that], of fuel w cx] assms(2) that
    by (cases c) (simp_all add: wp_set_reconciliation timed_def in_time_def)
  then show ?thesis
    unfolding Some check_unit_def option.case by (rule wp_bindI [OF check_restart_timed])
qed

lemma systemd_start_ends: "in_time fuel w (ct_deadline (ctl s)) s \<Longrightarrow> wp (systemd_start_loop fuel w cx) (\<lambda>_. reconciled_state) not_fuel s"
proof (induction fuel arbitrary: s)
  case (Suc fuel)
  show ?case unfolding systemd_start_loop.simps
    by (rule round_ends [OF Suc.prems quiet_reads(3)], rule check_unit_ends)
      (auto simp: timed_def in_time_def intro!: Suc.IH)
qed (simp add: in_time_def)


section \<open>Reading systemctl show\<close>

lemma py_partition_Some: "py_partition c s = Some (k, v) \<longleftrightarrow> s = k @ c # v \<and> c \<notin> set k"
proof
  assume p: "py_partition c s = Some (k, v)"
  then have kv: "c \<in> set s" "k = takeWhile (\<lambda>x. x \<noteq> c) s" "v = tl (dropWhile (\<lambda>x. x \<noteq> c) s)"
    by (simp_all add: py_partition_def split: if_splits)
  then have ne: "dropWhile (\<lambda>x. x \<noteq> c) s \<noteq> []" by (simp add: dropWhile_eq_Nil_conv)
  then have "dropWhile (\<lambda>x. x \<noteq> c) s = c # v"
    using hd_dropWhile [OF ne] kv(3) by (metis list.collapse)
  then show "s = k @ c # v \<and> c \<notin> set k"
    using kv(2) takeWhile_dropWhile_id [of "\<lambda>x. x \<noteq> c" s] by (auto dest: set_takeWhileD)
next
  assume "s = k @ c # v \<and> c \<notin> set k"
  then have s: "s = k @ c # v" "c \<notin> set k" by simp_all
  then have "takeWhile (\<lambda>x. x \<noteq> c) s = k \<and> dropWhile (\<lambda>x. x \<noteq> c) s = c # v"
    by (induction k arbitrary: s) auto
  then show "py_partition c s = Some (k, v)" using s by (simp add: py_partition_def)
qed

definition show_line :: "string \<times> string \<Rightarrow> string" where
  "show_line p = fst p @ CHR ''='' # snd p"

lemma property_no_equals: "k \<in> set show_properties \<Longrightarrow> CHR ''='' \<notin> set k"
  by (auto simp: show_properties_def)

lemma show_lines_Inr:
  assumes "distinct (map fst acc)"
  shows "show_lines ls acc = Inr props \<longleftrightarrow> (\<exists>new. props = acc @ new \<and> map show_line new = ls \<and> distinct (map fst props)
     \<and> fst ` set new \<subseteq> set show_properties)"
  using assms
proof (induction ls arbitrary: acc)
  case Nil
  then show ?case by auto
next
  case (Cons line ls)
  show ?case
  proof (cases "py_partition (CHR ''='') line")
    case None
    then have "CHR ''='' \<notin> set line" by (simp add: py_partition_def split: if_splits)
    then have "show_line p \<noteq> line" for p by (auto simp: show_line_def)
    then show ?thesis using None by auto
  next
    case (Some p)
    obtain k v where p: "p = (k, v)" by fastforce
    have line: "line = show_line (k, v)" "CHR ''='' \<notin> set k"
      using Some p by (auto simp: py_partition_Some show_line_def)
    have uniq: "q = (k, v)" if "show_line q = line" "fst q \<in> set show_properties" for q
    proof -
      have "py_partition (CHR ''='') line = Some (fst q, snd q)"
        using that property_no_equals unfolding py_partition_Some show_line_def by blast
      then show ?thesis using Some p by simp
    qed
    show ?thesis
    proof (cases "k \<in> set show_properties \<and> map_of acc k = None")
      case True
      then have "k \<notin> fst ` set acc" by (simp add: map_of_eq_None_iff)
      then have "show_lines ls (acc @ [(k, v)]) = Inr props \<longleftrightarrow> (\<exists>new. props = (acc @ [(k, v)]) @ new \<and> map show_line new = ls
          \<and> distinct (map fst props) \<and> fst ` set new \<subseteq> set show_properties)"
        using Cons.prems by (intro Cons.IH) simp
      also have "\<dots> \<longleftrightarrow> (\<exists>new. props = acc @ new \<and> map show_line new = line # ls \<and> distinct (map fst props)
          \<and> fst ` set new \<subseteq> set show_properties)"
        using True line(1) uniq by (auto simp: map_eq_Cons_conv Cons_eq_map_conv)
      finally show ?thesis using Some p True by simp
    next
      case False
      have "\<not> (\<exists>new. props = acc @ new \<and> map show_line new = line # ls \<and> distinct (map fst props) \<and> fst ` set new \<subseteq> set show_properties)"
      proof
        assume "\<exists>new. props = acc @ new \<and> map show_line new = line # ls \<and> distinct (map fst props) \<and> fst ` set new \<subseteq> set show_properties"
        then obtain q new where q: "props = acc @ q # new" "show_line q = line" "distinct (map fst props)" "fst q \<in> set show_properties"
          by (auto simp: map_eq_Cons_conv Cons_eq_map_conv)
        then have "q = (k, v)" using uniq by blast
        then show False using False q by (auto simp: map_of_eq_None_iff)
      qed
      then show ?thesis using Some p False by auto
    qed
  qed
qed

text \<open>
  The reader of systemctl show accepts exactly the outputs of a successful call within the
  size limit whose lines are one key=value line for each of the five properties, in any order
  and with nothing else, and with a decimal restart counter; it returns those pairs.
\<close>

theorem systemctl_show_exact:
  "parse_systemctl_show stdout exit_code = Inr props \<longleftrightarrow>
     exit_code = Some 0 \<and> utf8_len stdout \<le> systemd_show_cap_bytes \<and> py_splitlines stdout = map show_line props
     \<and> distinct (map fst props) \<and> fst ` set props = set show_properties
     \<and> show_get props ''NRestarts'' \<noteq> [] \<and> list_all ascii_digit (show_get props ''NRestarts'')"
proof -
  have lines: "show_lines (py_splitlines stdout) [] = Inr ps \<longleftrightarrow>
      py_splitlines stdout = map show_line ps \<and> distinct (map fst ps) \<and> fst ` set ps \<subseteq> set show_properties" for ps
    using show_lines_Inr [of "[]" "py_splitlines stdout" ps] by auto
  have miss: "find (\<lambda>k. map_of ps k = None) show_properties = None \<longleftrightarrow> set show_properties \<subseteq> fst ` set ps" for ps :: shown
    by (auto simp: find_None_iff map_of_eq_None_iff)
  let ?check = "\<lambda>props. case find (\<lambda>k. map_of props k = None) show_properties of
          Some k \<Rightarrow> Inl (InvalidSystemdState (''missing key '' @ k))
        | None \<Rightarrow> if show_get props ''NRestarts'' = [] \<or> \<not> list_all ascii_digit (show_get props ''NRestarts'') then
              Inl (InvalidSystemdState ''NRestarts is not a decimal integer'') else Inr props"
  have check: "?check q = Inr props \<longleftrightarrow> q = props \<and> find (\<lambda>k. map_of q k = None) show_properties = None
        \<and> show_get props ''NRestarts'' \<noteq> [] \<and> list_all ascii_digit (show_get props ''NRestarts'')" for q
    by (cases "find (\<lambda>k. map_of q k = None) show_properties") auto
  have "rbind (show_lines (py_splitlines stdout) []) ?check = Inr props
      \<longleftrightarrow> show_lines (py_splitlines stdout) [] = Inr props \<and> find (\<lambda>k. map_of props k = None) show_properties = None
        \<and> show_get props ''NRestarts'' \<noteq> [] \<and> list_all ascii_digit (show_get props ''NRestarts'')"
    unfolding rbind_eq_Inr check by blast
  note body = this
  have set: "fst ` set props = set show_properties \<longleftrightarrow> fst ` set props \<subseteq> set show_properties \<and> set show_properties \<subseteq> fst ` set props"
    by blast
  show ?thesis
  proof (cases "exit_code = Some 0 \<and> utf8_len stdout \<le> systemd_show_cap_bytes")
    case True
    then have parse: "parse_systemctl_show stdout exit_code = rbind (show_lines (py_splitlines stdout) []) ?check"
      by (simp add: parse_systemctl_show_def)
    show ?thesis unfolding parse body lines miss set using True by blast
  next
    case False
    then have "parse_systemctl_show stdout exit_code \<noteq> Inr props" by (auto simp: parse_systemctl_show_def)
    then show ?thesis using False by blast
  qed
qed

section \<open>Gaps\<close>






theorem serving_has_evidence_witness:
  "\<exists>out s' ob. seat_start 1 demo_seat_world demo_context demo_seat_state = (Inr out, s') \<and> op_state out = ''serving''
     \<and> latest (ct_poller (ctl s')) = Some ob \<and> set (ob_models ob) = {''m''}"
proof -
  obtain out s' where o: "seat_start 1 demo_seat_world demo_context demo_seat_state = (Inr out, s')" "op_state out = ''serving''"
    using demo_serving [OF demo_idle, of 0] by auto
  have "model_id demo_context = ''m''" by (simp add: seat_str_def demo_context_def dict_get_def)
  then show ?thesis using serving_has_evidence [OF demo_idle o] o by auto
qed


end
