(* ===== verification/Seat_Service.thy ===== *)
theory Seat_Service
  imports Seat_Control
begin

text \<open>
  The bridge's capability API: \<open>SeatService\<close> of \<open>src/testudo/seats/service.py\<close> with
  \<open>src/testudo/seats/consent.py\<close>. Drafts are edited, applied to the stored configuration, a host
  key is probed and trusted, a preview is shown and confirmed, and a seat is operated.

  The state holds the two stores, the trusted keys, the tables of drafts, previews and
  challenges, and the state the controllers run on. Time, fresh identifiers and the answers of
  subprocesses are given by the number of the call. Two fields only record what happened: the
  consents that were confirmed, and the operations that reached a controller. The digest of the
  consent object is a parameter. Failing writes of the trusted file are not modelled.
\<close>

section \<open>State\<close>

record draft =
  dr_kind :: string
  dr_parent :: "string option"
  dr_base :: "string option"
  dr_fields :: pydict
  dr_revision :: int
  dr_expires :: rat

record preview =
  pv_text :: string
  pv_digest :: string
  pv_effective :: effective_ssh
  pv_fingerprint :: string
  pv_lifetime :: string
  pv_revision :: int
  pv_host_id :: string
  pv_expires :: rat

record trust_challenge =
  tc_fingerprint :: string
  tc_line :: string
  tc_host_id :: string
  tc_revision :: int
  tc_replacement :: bool
  tc_old :: "string option"
  tc_expires :: rat

record force_challenge =
  fc_seat_id :: string
  fc_template :: string
  fc_revision :: int
  fc_digest :: string
  fc_expires :: rat

record bridge_world =
  bw_store :: store_env
  bw_ssh :: ssh_env
  bw_known_hosts :: string
  bw_time :: "nat \<Rightarrow> rat"
  bw_uuid :: "nat \<Rightarrow> string"
  bw_utcnow :: "nat \<Rightarrow> string"
  bw_resolve :: "nat \<Rightarrow> resolve_world"
  bw_exec :: "nat \<Rightarrow> string list \<Rightarrow> proc_result"
  bw_probe :: "nat \<Rightarrow> probe_world"
  bw_digest :: "pydict \<Rightarrow> string"
  bw_seat :: "nat \<Rightarrow> seat_world"
  bw_fuel :: nat

record bridge_state =
  bs_file :: store_state
  bs_trust :: "string option"
  bs_revision :: int
  bs_drafts :: "(string \<times> draft) list"
  bs_previews :: "(string \<times> preview) list"
  bs_trusts :: "(string \<times> trust_challenge) list"
  bs_forces :: "(string \<times> force_challenge) list"
  bs_calls :: nat
  bs_seat :: seat_state
  bs_confirmed :: "(string \<times> string) list"
  bs_ran :: "(string \<times> string) list"

type_synonym 'a bact = "(bridge_state, 'a) act"

definition draft_ttl_seconds :: rat where "draft_ttl_seconds = 30 * 60"
definition preview_ttl_seconds :: rat where "preview_ttl_seconds = 10 * 60"
definition challenge_ttl_seconds :: rat where "challenge_ttl_seconds = 5 * 60"

text \<open>One answer of the world.\<close>

definition ask :: "(nat \<Rightarrow> 'a) \<Rightarrow> 'a bact" where
  "ask f = awith (\<lambda>s. abind (aset (\<lambda>s. s\<lparr>bs_calls := Suc (bs_calls s)\<rparr>)) (\<lambda>_. aret (f (bs_calls s))))"

definition on_file :: "(store_state, 'a) act \<Rightarrow> 'a bact" where
  "on_file m = awith (\<lambda>s. case m (bs_file s) of (r, f) \<Rightarrow> abind (aset (\<lambda>s. s\<lparr>bs_file := f\<rparr>)) (\<lambda>_. alift r))"

definition on_seat :: "(seat_state, 'a) act \<Rightarrow> 'a bact" where
  "on_seat m = awith (\<lambda>s. case m (bs_seat s) of (r, t) \<Rightarrow> abind (aset (\<lambda>s. s\<lparr>bs_seat := t\<rparr>)) (\<lambda>_. alift r))"

abbreviation api :: "string \<Rightarrow> string \<Rightarrow> exn" where "api \<equiv> ApiError"

definition load_config :: "bridge_world \<Rightarrow> pydict bact" where
  "load_config w = on_file (store_load (seat_store (bw_store w)))"

definition is_validation :: "exn \<Rightarrow> bool" where
  "is_validation e = (case e of ValidationError _ \<Rightarrow> True | _ \<Rightarrow> False)"

text \<open>\<open>self.store.mutate\<close>, with a conflict reported as such.\<close>

definition mutate_config :: "bridge_world \<Rightarrow> int \<Rightarrow> (pydict \<Rightarrow> exn + pydict) \<Rightarrow> pydict bact" where
  "mutate_config w revision mutation = acatch is_conflict
     (on_file (store_mutate (seat_store (bw_store w)) revision mutation)) (\<lambda>e. araise (api ''conflict'' (exn_str e)))"

section \<open>Configurations\<close>

definition with_hosts :: "pydict list \<Rightarrow> pydict \<Rightarrow> pydict" where
  "with_hosts hs d = AList.update ''hosts'' (PList (map PDict hs)) d"

definition has_id :: "string \<Rightarrow> pydict \<Rightarrow> bool" where "has_id i d \<longleftrightarrow> dict_get d ''id'' = PStr i"

definition find_host :: "pydict \<Rightarrow> string \<Rightarrow> exn + pydict" where
  "find_host config i = (case find (has_id i) (hosts_of config) of Some h \<Rightarrow> Inr h
     | None \<Rightarrow> Inl (api ''unknown-id'' (''host not found: '' @ i)))"

fun update_first :: "('a \<Rightarrow> bool) \<Rightarrow> ('a \<Rightarrow> 'a) \<Rightarrow> 'a list \<Rightarrow> 'a list" where
  "update_first P f [] = []"
| "update_first P f (x # xs) = (if P x then f x # xs else x # update_first P f xs)"

text \<open>Changing the host with an identifier in place.\<close>

definition edit_host :: "string \<Rightarrow> (pydict \<Rightarrow> exn + pydict) \<Rightarrow> pydict \<Rightarrow> exn + pydict" where
  "edit_host i f config = rbind (find_host config i) (\<lambda>h. rbind (f h) (\<lambda>h'.
     Inr (with_hosts (update_first (has_id i) (\<lambda>_. h') (hosts_of config)) config)))"

definition set_key :: "string \<Rightarrow> pyval \<Rightarrow> pydict \<Rightarrow> pydict" where "set_key k v d = AList.update k v d"

definition revoke_all :: "pydict \<Rightarrow> pydict" where
  "revoke_all config = with_hosts (map (set_key ''consent'' PNone) (hosts_of config)) config"

definition find_seat :: "pydict \<Rightarrow> string \<Rightarrow> exn + pydict \<times> pydict" where
  "find_seat config i = (case [(h, s). h \<leftarrow> hosts_of config, s \<leftarrow> seats_of h, has_id i s] of
     p # _ \<Rightarrow> Inr p | [] \<Rightarrow> Inl (api ''unknown-id'' (''seat not found: '' @ i)))"

definition merge :: "pydict \<Rightarrow> pydict \<Rightarrow> pydict" where
  "merge d patch = foldl (\<lambda>d (k, v). AList.update k v d) d patch"

definition without :: "string list \<Rightarrow> pydict \<Rightarrow> pydict" where
  "without ks d = filter (\<lambda>(k, v). k \<notin> set ks) d"

definition get_or :: "pydict \<Rightarrow> string \<Rightarrow> pyval \<Rightarrow> pyval" where
  "get_or d k v = (case map_of d k of Some x \<Rightarrow> x | None \<Rightarrow> v)"

section \<open>Drafts\<close>

definition base_fields :: "pydict \<Rightarrow> string \<Rightarrow> string \<Rightarrow> pydict \<Rightarrow> exn + pydict" where
  "base_fields config kind base patch =
     (if kind = ''host'' then
        (case find (has_id base) (hosts_of config) of
           Some h \<Rightarrow> Inr (merge (without [''id'', ''consent'', ''seats''] h) patch)
         | None \<Rightarrow> Inl (api ''unknown-id'' ''base_id not found''))
      else (case find (has_id base) (concat (map seats_of (hosts_of config))) of
           Some s \<Rightarrow> Inr (merge (without [''id''] s) patch)
         | None \<Rightarrow> Inl (api ''unknown-id'' ''base_id not found'')))"

definition invalid_field :: "exn + 'a \<Rightarrow> exn + 'a" where
  "invalid_field r = (case r of
     Inl e \<Rightarrow> if is_validation e then Inl (api ''invalid-field'' (exn_str e)) else Inl e | Inr x \<Rightarrow> Inr x)"

definition check_duplicate_endpoint :: "pydict \<Rightarrow> pydict \<Rightarrow> exn + unit" where
  "check_duplicate_endpoint config seat =
     (if list_ex (\<lambda>h. list_ex (\<lambda>s. endpoint_model s = endpoint_model seat) (seats_of h)) (hosts_of config)
      then Inl (api ''duplicate-endpoint'' ''duplicate (endpoint_host, port, model_id)'') else Inr ())"

definition host_candidate :: "string \<Rightarrow> pydict \<Rightarrow> pydict" where
  "host_candidate i flds = [(''id'', PStr i), (''label'', dict_get flds ''label''), (''ssh'', dict_get flds ''ssh''),
     (''transport'', dict_get flds ''transport''), (''consent'', PNone), (''seats'', PList [])]"

definition seat_candidate :: "string \<Rightarrow> pydict \<Rightarrow> exn + pydict" where
  "seat_candidate i flds =
     (let common = (''id'', PStr i) # map (\<lambda>k. (k, dict_get flds k))
            [''label'', ''template'', ''model_id'', ''port'', ''endpoint_host'', ''ready_timeout''];
          t = dict_get flds ''template'' in
      if t = PStr ''systemd-user'' then Inr (common @ [(''unit'', dict_get flds ''unit'')])
      else if t = PStr ''control-script'' then Inr (common @ [(''script'', dict_get flds ''script''),
        (''start_subcommand'', get_or flds ''start_subcommand'' (PStr ''start'')),
        (''stop_subcommand'', get_or flds ''stop_subcommand'' (PStr ''stop'')),
        (''status_subcommand'', get_or flds ''status_subcommand'' (PStr ''status''))])
      else if t = PStr ''bare-command'' then
        Inr (common @ [(''launch_argv'', dict_get flds ''launch_argv''), (''cwd'', dict_get flds ''cwd'')])
      else Inl (api ''invalid-template'' ''template must be one of the three seat templates''))"

definition validated_new_fields :: "ip_compressed \<Rightarrow> string \<Rightarrow> pydict \<Rightarrow> string \<Rightarrow> pydict \<Rightarrow> string option \<Rightarrow> exn + pydict" where
  "validated_new_fields ip i config kind flds parent =
     (if kind = ''host'' then
        (let c = host_candidate i flds in
         rbind (invalid_field (validate_seat_host ip ''host'' (PDict c))) (\<lambda>_.
         Inr (map (\<lambda>k. (k, dict_get c k)) [''label'', ''ssh'', ''transport''])))
      else case parent of
        None \<Rightarrow> Inl (AssertionError [])
      | Some p \<Rightarrow>
          rbind (find_host config p) (\<lambda>_.
          rbind (seat_candidate i flds) (\<lambda>c.
          rbind (invalid_field (validate_seat ip ''seat'' (PDict c))) (\<lambda>_.
          rbind (check_duplicate_endpoint config c) (\<lambda>_. Inr (without [''id''] c))))))"

definition generated_field :: "pydict \<Rightarrow> bool" where
  "generated_field d \<longleftrightarrow> ''id'' \<in> fst ` set d \<or> ''consent'' \<in> fst ` set d"

definition generated_error :: exn where
  "generated_error = api ''generated-field'' ''id and consent are bridge-generated and cannot be supplied''"

definition draft_create :: "bridge_world \<Rightarrow> string \<Rightarrow> pydict \<Rightarrow> string option \<Rightarrow> string option \<Rightarrow> pydict bact" where
  "draft_create w kind flds parent base =
     (if kind \<notin> {''host'', ''seat''} then araise (api ''invalid-kind'' ''kind must be host or seat'')
      else if kind = ''seat'' \<and> parent = None then
        araise (api ''missing-parent'' ''parent_host_id is required for a new seat'')
      else if generated_field flds then araise generated_error
      else abind (load_config w) (\<lambda>config.
        abind (ask (bw_uuid w)) (\<lambda>u.
        abind (alift (case base of Some b \<Rightarrow> base_fields config kind b flds
            | None \<Rightarrow> validated_new_fields (se_ip (bw_store w)) u config kind flds parent)) (\<lambda>flds'.
        abind (ask (bw_uuid w)) (\<lambda>i.
        abind (ask (bw_time w)) (\<lambda>now.
        abind (aset (\<lambda>s. s\<lparr>bs_drafts := AList.update i \<lparr>dr_kind = kind, dr_parent = parent, dr_base = base,
            dr_fields = flds', dr_revision = 1, dr_expires = now + draft_ttl_seconds\<rparr> (bs_drafts s)\<rparr>)) (\<lambda>_.
        aret [(''draft_id'', PStr i), (''draft_revision'', PInt 1)])))))))"

definition find_draft :: "bridge_world \<Rightarrow> string \<Rightarrow> int \<Rightarrow> draft bact" where
  "find_draft w i revision = awith (\<lambda>s. case map_of (bs_drafts s) i of
     None \<Rightarrow> araise (api ''unknown-draft'' ''draft not found or expired'')
   | Some d \<Rightarrow> abind (ask (bw_time w)) (\<lambda>now.
       if dr_expires d < now then araise (api ''unknown-draft'' ''draft not found or expired'')
       else if dr_revision d \<noteq> revision then araise (api ''stale-revision'' ''draft revision mismatch'')
       else aret d))"

definition draft_update :: "bridge_world \<Rightarrow> string \<Rightarrow> int \<Rightarrow> pydict \<Rightarrow> pydict bact" where
  "draft_update w i revision patch =
     abind (find_draft w i revision) (\<lambda>d.
     if generated_field patch then araise generated_error
     else abind (load_config w) (\<lambda>config.
       abind (ask (bw_uuid w)) (\<lambda>u.
       abind (alift (validated_new_fields (se_ip (bw_store w)) u config (dr_kind d) (merge (dr_fields d) patch) (dr_parent d))) (\<lambda>flds.
       abind (aset (\<lambda>s. s\<lparr>bs_drafts := AList.update i (d\<lparr>dr_fields := flds, dr_revision := dr_revision d + 1\<rparr>) (bs_drafts s)\<rparr>)) (\<lambda>_.
       aret [(''draft_revision'', PInt (dr_revision d + 1))])))))"

section \<open>Applying and deleting\<close>

definition three_keys :: "pydict \<Rightarrow> (pyval \<Rightarrow> pyval \<Rightarrow> pyval \<Rightarrow> exn + 'a) \<Rightarrow> exn + 'a" where
  "three_keys flds f = rbind (key_of flds ''label'') (\<lambda>l. rbind (key_of flds ''ssh'') (\<lambda>s.
     rbind (key_of flds ''transport'') (\<lambda>t. f l s t)))"

definition apply_host :: "draft \<Rightarrow> string \<Rightarrow> pydict \<Rightarrow> exn + pydict" where
  "apply_host d i config = (case dr_base d of
     Some b \<Rightarrow> edit_host b (\<lambda>h. three_keys (dr_fields d) (\<lambda>l s t.
       Inr (set_key ''transport'' t (set_key ''ssh'' s (set_key ''label'' l h))))) config
   | None \<Rightarrow> three_keys (dr_fields d) (\<lambda>l s t. Inr (with_hosts (hosts_of config @
       [[(''id'', PStr i), (''label'', l), (''ssh'', s), (''transport'', t), (''consent'', PNone), (''seats'', PList [])]]) config)))"

definition set_seats :: "pydict list \<Rightarrow> pydict \<Rightarrow> pydict" where
  "set_seats ss h = set_key ''seats'' (PList (map PDict ss)) h"

definition apply_seat :: "draft \<Rightarrow> string \<Rightarrow> pydict \<Rightarrow> exn + pydict" where
  "apply_seat d i config = (case dr_parent d of
     None \<Rightarrow> Inl (AssertionError [])
   | Some p \<Rightarrow> edit_host p (\<lambda>h. case dr_base d of
       Some b \<Rightarrow> if list_ex (has_id b) (seats_of h)
         then Inr (set_seats (map (\<lambda>s. if has_id b s then merge [(''id'', PStr b)] (dr_fields d) else s) (seats_of h)) h)
         else Inl (api ''unknown-id'' ''base_id not found'')
     | None \<Rightarrow> Inr (set_seats (seats_of h @ [merge [(''id'', PStr i)] (dr_fields d)]) h)) config)"

definition apply_draft :: "draft \<Rightarrow> string \<Rightarrow> pydict \<Rightarrow> exn + pydict" where
  "apply_draft d i config = rbind (if dr_kind d = ''host'' then apply_host d i config else apply_seat d i config)
     (\<lambda>c. Inr (revoke_all c))"

definition applied_id :: "draft \<Rightarrow> pydict \<Rightarrow> pyval" where
  "applied_id d updated = (case dr_base d of
     Some b \<Rightarrow> PStr b
   | None \<Rightarrow> if dr_kind d = ''host'' then dict_get (last (hosts_of updated)) ''id''
       else (case find (\<lambda>h. \<exists>p \<in> set_option (dr_parent d). has_id p h) (hosts_of updated) of
         Some h \<Rightarrow> dict_get (last (seats_of h)) ''id'' | None \<Rightarrow> PNone))"

definition config_apply :: "bridge_world \<Rightarrow> string \<Rightarrow> int \<Rightarrow> int \<Rightarrow> pydict bact" where
  "config_apply w i revision expected =
     abind (find_draft w i revision) (\<lambda>d.
     abind (ask (bw_uuid w)) (\<lambda>u.
     abind (mutate_config w expected (apply_draft d u)) (\<lambda>updated.
     abind (aset (\<lambda>s. s\<lparr>bs_revision := revision_of updated, bs_drafts := AList.delete i (bs_drafts s)\<rparr>)) (\<lambda>_.
     aret [(''id'', applied_id d updated), (''config_revision'', dict_get updated ''revision'')]))))"

definition delete_object :: "string \<Rightarrow> string \<Rightarrow> pydict \<Rightarrow> exn + pydict" where
  "delete_object kind i config = Inr (revoke_all (with_hosts
     (if kind = ''host'' then filter (\<lambda>h. \<not> has_id i h) (hosts_of config)
      else map (\<lambda>h. set_seats (filter (\<lambda>s. \<not> has_id i s) (seats_of h)) h) (hosts_of config)) config))"

definition config_delete :: "bridge_world \<Rightarrow> string \<Rightarrow> string \<Rightarrow> int \<Rightarrow> pydict bact" where
  "config_delete w kind i expected =
     (if kind \<notin> {''host'', ''seat''} then araise (api ''invalid-kind'' ''kind must be host or seat'')
      else abind (mutate_config w expected (delete_object kind i)) (\<lambda>updated.
        abind (aset (\<lambda>s. s\<lparr>bs_revision := revision_of updated\<rparr>)) (\<lambda>_.
        aret [(''config_revision'', dict_get updated ''revision'')])))"

definition redacted_host :: "pydict \<Rightarrow> pydict" where
  "redacted_host h = [(''id'', dict_get h ''id''), (''label'', dict_get h ''label''),
     (''ssh'', PDict (without [''key_path''] (as_dict (dict_get h ''ssh'')))), (''transport'', dict_get h ''transport''),
     (''consent'', case dict_get h ''consent'' of PNone \<Rightarrow> PNone
        | c \<Rightarrow> PDict [(''accepted_at'', dict_get (as_dict c) ''accepted_at'')]),
     (''seats'', dict_get h ''seats'')]"

definition config_get :: "bridge_world \<Rightarrow> pydict bact" where
  "config_get w = abind (load_config w) (\<lambda>config.
     aret [(''schema'', dict_get config ''schema''), (''revision'', dict_get config ''revision''),
       (''hosts'', PList (map (PDict \<circ> redacted_host) (hosts_of config)))])"


section \<open>Trust\<close>

definition host_ssh :: "pydict \<Rightarrow> pydict" where "host_ssh h = as_dict (dict_get h ''ssh'')"

definition text_of :: "pyval \<Rightarrow> string" where "text_of v = (case v of PStr s \<Rightarrow> s | _ \<Rightarrow> [])"

text \<open>\<open>_host_port\<close>: the fields are strings and integers in a validated configuration.\<close>

definition host_port :: "pydict \<Rightarrow> string \<times> int option" where
  "host_port h = (let ssh = host_ssh h in
     if dict_get ssh ''kind'' = PStr ''explicit''
     then (text_of (dict_get ssh ''host''), (case dict_get ssh ''port'' of PInt p \<Rightarrow> Some p | _ \<Rightarrow> None))
     else (text_of (dict_get ssh ''alias''), None))"

definition trusted_of :: "bridge_world \<Rightarrow> pydict \<Rightarrow> (string option) bact" where
  "trusted_of w h = awith (\<lambda>s. case host_port h of (host, port) \<Rightarrow>
     alift (known_fingerprint (bw_ssh w) (bs_trust s) host port))"

definition descriptor_of :: "bridge_world \<Rightarrow> pydict \<Rightarrow> ssh_descriptor bact" where
  "descriptor_of w h = alift (from_config (bw_ssh w) (host_ssh h) (bw_known_hosts w))"

definition at_revision :: "int \<Rightarrow> string \<Rightarrow> string \<Rightarrow> pydict \<Rightarrow> unit bact" where
  "at_revision n code message config = (if revision_of config \<noteq> n then araise (api code message) else aret ())"

definition is_probe_error :: "exn \<Rightarrow> bool" where
  "is_probe_error e = (case e of KeyProbeError _ \<Rightarrow> True | _ \<Rightarrow> False)"

definition run_probe :: "bridge_world \<Rightarrow> key_probe_result bact" where
  "run_probe w = abind (ask (bw_probe w)) (\<lambda>pw. alift (fst (probe_host_key (bw_fuel w) (bw_ssh w) pw
     \<lparr>ks_ticks = 0, ks_running = False, ks_terminated = False, ks_temp = False\<rparr>)))"

definition ssh_probe :: "bridge_world \<Rightarrow> string \<Rightarrow> int \<Rightarrow> pydict bact" where
  "ssh_probe w host_id expected =
     abind (load_config w) (\<lambda>config.
     abind (at_revision expected ''conflict'' ''config revision mismatch'' config) (\<lambda>_.
     abind (alift (find_host config host_id)) (\<lambda>h.
     abind (descriptor_of w h) (\<lambda>d.
     abind (acatch is_probe_error (run_probe w) (\<lambda>e. araise (api ''probe-failed'' (exn_str e)))) (\<lambda>r.
     abind (trusted_of w h) (\<lambda>existing.
     abind (ask (bw_uuid w)) (\<lambda>i.
     abind (ask (bw_time w)) (\<lambda>now.
     abind (aset (\<lambda>s. s\<lparr>bs_trusts := AList.update i \<lparr>tc_fingerprint = kr_fingerprint r, tc_line = kr_line r, tc_host_id = host_id,
         tc_revision = revision_of config, tc_replacement = (existing \<noteq> None \<and> existing \<noteq> Some (kr_fingerprint r)),
         tc_old = existing, tc_expires = now + challenge_ttl_seconds\<rparr> (bs_trusts s)\<rparr>)) (\<lambda>_.
     aret [(''trust_challenge_id'', PStr i), (''fingerprint'', PStr (kr_fingerprint r)),
       (''expires_at'', PFloat (now + challenge_ttl_seconds))])))))))))"

definition set_consent :: "string \<Rightarrow> pyval \<Rightarrow> pydict \<Rightarrow> exn + pydict" where
  "set_consent host_id c = edit_host host_id (\<lambda>h. Inr (set_key ''consent'' c h))"

definition ssh_trust :: "bridge_world \<Rightarrow> string \<Rightarrow> pydict bact" where
  "ssh_trust w i = awith (\<lambda>s. case map_of (bs_trusts s) i of
     None \<Rightarrow> araise (api ''unknown-challenge'' ''trust challenge not found or expired'')
   | Some c \<Rightarrow>
       abind (ask (bw_time w)) (\<lambda>now.
       if tc_expires c < now then araise (api ''unknown-challenge'' ''trust challenge not found or expired'')
       else abind (load_config w) (\<lambda>config.
         abind (at_revision (tc_revision c) ''conflict'' ''config revision changed since probe'' config) (\<lambda>_.
         abind (alift (find_host config (tc_host_id c))) (\<lambda>h.
         abind (aset (\<lambda>s. s\<lparr>bs_trust := (if tc_replacement c
             then replace_for_host (tc_line c) (fst (host_port h)) (snd (host_port h)) (bs_trust s)
             else install_initial (tc_line c) (bs_trust s)),
           bs_trusts := AList.delete i (bs_trusts s)\<rparr>)) (\<lambda>_.
         abind (mutate_config w (revision_of config) (set_consent (tc_host_id c) PNone)) (\<lambda>updated.
         abind (aset (\<lambda>s. s\<lparr>bs_revision := revision_of updated\<rparr>)) (\<lambda>_.
         aret [(''trusted'', PBool True), (''config_revision'', dict_get updated ''revision'')]))))))))"

section \<open>Previews\<close>

definition probe_linger :: "bridge_world \<Rightarrow> string \<Rightarrow> ssh_descriptor \<Rightarrow> effective_ssh \<Rightarrow> string bact" where
  "probe_linger w exec_v1 d e = (case effective_user e of
     None \<Rightarrow> aret ''unknown''
   | Some user \<Rightarrow> abind (ask (bw_exec w)) (\<lambda>run.
       let x = exec_remote (bw_ssh w) (run (exec_argv d (linger_probe_remote_command exec_v1 user) 10)) in
       aret (parse_linger_output (er_stdout x) (er_stderr x) (er_exit x))))"

definition host_excluding_consent :: "pydict \<Rightarrow> pydict" where
  "host_excluding_consent h = map (\<lambda>k. (k, dict_get h k)) [''id'', ''label'', ''ssh'', ''transport'', ''seats'']"

definition consent_payload :: "ssh_env \<Rightarrow> pydict \<Rightarrow> effective_ssh \<Rightarrow> string \<Rightarrow> string \<Rightarrow> pydict" where
  "consent_payload env h e trusted linger =
     [(''policy_version'', PInt seat_policy_version), (''host_config_excluding_consent'', PDict (host_excluding_consent h)),
      (''ssh_effective'', PStr (canonical_json env e)), (''trusted_host_key_fingerprint'', PStr trusted),
      (''host_lifetime'', PStr linger), (''transport'', dict_get h ''transport''), (''ordered_seats'', dict_get h ''seats'')]"

definition consent_digest :: "bridge_world \<Rightarrow> pydict \<Rightarrow> effective_ssh \<Rightarrow> string \<Rightarrow> string \<Rightarrow> string" where
  "consent_digest w h e trusted linger = bw_digest w (consent_payload (bw_ssh w) h e trusted linger)"

definition resolve_for :: "bridge_world \<Rightarrow> string \<Rightarrow> string \<Rightarrow> ssh_descriptor \<Rightarrow> effective_ssh bact" where
  "resolve_for w code before d = abind (ask (bw_resolve w)) (\<lambda>rw.
     case resolve_effective_ssh (bw_ssh w) rw d of
       Inr e \<Rightarrow> aret e | Inl x \<Rightarrow> araise (api code (before @ exn_str x)))"

definition list_repr :: "string list \<Rightarrow> string" where
  "list_repr ws = ''['' @ comma_join (map py_repr ws) @ '']''"

definition consent_text :: string where
  "consent_text = ''Testudo will run the commands shown below on HOST over SSH with your account''
     @ [CHR 0x27] @ ''s authority. Testudo constructs these commands from strictly validated fields, but the configured command can execute arbitrary code as your account. Evaluating SSH configuration can execute Match exec, and connection options such as ProxyCommand can execute locally, with your local account''
     @ [CHR 0x27] @ ''s authority; these risks and the resulting effective configuration are shown in the SSH preview. Configured RemoteCommand, agent forwarding, and X11 forwarding are disabled by Testudo.''"

definition consent_text_for :: "string \<Rightarrow> string" where
  "consent_text_for label = py_replace ''HOST'' label consent_text"

definition context_of :: "pydict \<Rightarrow> pydict \<Rightarrow> ssh_descriptor \<Rightarrow> string \<Rightarrow> int \<Rightarrow> string \<Rightarrow> bool \<Rightarrow> seat_context" where
  "context_of h seat d hostname port linger executor = \<lparr>cx_host_id = text_of (dict_get h ''id''), cx_seat_id = text_of (dict_get seat ''id''),
     cx_seat = seat, cx_descriptor = d, cx_endpoint_host = text_of (dict_get seat ''endpoint_host''),
     cx_endpoint_port = (case dict_get seat ''port'' of PInt p \<Rightarrow> p | _ \<Rightarrow> 0), cx_ssh_hostname = hostname, cx_ssh_port = port,
     cx_linger = linger, cx_state_store = True, cx_transport = Some (as_dict (dict_get h ''transport'')), cx_executor = executor\<rparr>"

definition is_seat_error :: "exn \<Rightarrow> bool" where
  "is_seat_error e = (case e of SeatError _ \<Rightarrow> True | InvalidSystemdState _ \<Rightarrow> True | _ \<Rightarrow> False)"

fun seat_lines :: "bridge_world \<Rightarrow> seat_world \<Rightarrow> pydict \<Rightarrow> ssh_descriptor \<Rightarrow> pydict list \<Rightarrow> string list bact" where
  "seat_lines w sw h d [] = aret []"
| "seat_lines w sw h d (seat # seats) = (let cx = context_of h seat d [] 22 ''unknown'' False in
     abind (alift (controller_for cx)) (\<lambda>_.
     abind (on_seat (operation_argv sw cx StartLocked)) (\<lambda>start.
     abind (acatch is_seat_error
       (abind (on_seat (operation_argv sw cx StopLocked)) (\<lambda>stop. aret (''stop: '' @ list_repr stop)))
       (\<lambda>_. aret ''stop: identity-checked C_PID_V1 stop (requires a persisted PID record)'')) (\<lambda>stop.
     abind (seat_lines w sw h d seats) (\<lambda>rest.
     aret ((''seat '' @ text_of (dict_get seat ''label'') @ '' ('' @ text_of (dict_get seat ''template'') @ ''):'')
       # (''start: '' @ list_repr start) # stop # rest))))))"

definition preview_text :: "bridge_world \<Rightarrow> seat_world \<Rightarrow> pydict \<Rightarrow> ssh_descriptor \<Rightarrow> effective_ssh \<Rightarrow> string \<Rightarrow> string \<Rightarrow> string bact" where
  "preview_text w sw h d e trusted linger =
     abind (seat_lines w sw h d (seats_of h)) (\<lambda>seats.
     aret (join_with (CHR 0x0A)
       ([''host: '' @ text_of (dict_get h ''label''), ''transport: '' @ text_of (dict_get (as_dict (dict_get h ''transport'')) ''kind''),
         ''trusted key: '' @ trusted, ''linger: '' @ linger, ''effective ssh configuration (ordered):'']
        @ map (\<lambda>(k, v). ''  '' @ k @ '' '' @ v) (es_pairs e)
        @ [''ssh binary: '' @ es_path e @ '' ('' @ es_version e @ '')'', ''ssh binary sha256: '' @ es_sha256 e]
        @ seats @ [consent_text_for (text_of (dict_get h ''label''))])))"

definition preview_create :: "bridge_world \<Rightarrow> string \<Rightarrow> int \<Rightarrow> pydict bact" where
  "preview_create w host_id expected =
     abind (load_config w) (\<lambda>config.
     abind (at_revision expected ''conflict'' ''config revision mismatch'' config) (\<lambda>_.
     abind (alift (find_host config host_id)) (\<lambda>h.
     abind (trusted_of w h) (\<lambda>t. case t of
       None \<Rightarrow> araise (api ''untrusted'' ''host is not trusted; complete ssh.trust first'')
     | Some trusted \<Rightarrow>
         abind (descriptor_of w h) (\<lambda>d.
         abind (resolve_for w ''resolve-failed'' [] d) (\<lambda>e.
         abind (ask (bw_seat w)) (\<lambda>sw.
         abind (probe_linger w (sc_exec_v1 (sw_scripts sw)) d e) (\<lambda>linger.
         abind (ask (bw_uuid w)) (\<lambda>i.
         abind (preview_text w sw h d e trusted linger) (\<lambda>text.
         abind (ask (bw_time w)) (\<lambda>now.
         abind (aset (\<lambda>s. s\<lparr>bs_previews := AList.update i \<lparr>pv_text = text, pv_digest = consent_digest w h e trusted linger,
             pv_effective = e, pv_fingerprint = trusted, pv_lifetime = linger, pv_revision = revision_of config, pv_host_id = host_id,
             pv_expires = now + preview_ttl_seconds\<rparr> (bs_previews s)\<rparr>)) (\<lambda>_.
         aret [(''preview_id'', PStr i), (''expires_at'', PFloat (now + preview_ttl_seconds)), (''text'', PStr text)]))))))))))))"

section \<open>Consent\<close>

definition consent_object :: "string \<Rightarrow> string \<Rightarrow> string \<Rightarrow> string \<Rightarrow> pydict" where
  "consent_object digest now effective_sha trusted = [(''digest'', PStr digest), (''accepted_at'', PStr now),
     (''policy_version'', PInt seat_policy_version), (''ssh_effective_sha256'', PStr effective_sha),
     (''host_key_fingerprint'', PStr trusted)]"

text \<open>Everything consent depends on, recomputed and compared with the preview.\<close>

definition confirm_checks :: "bridge_world \<Rightarrow> preview \<Rightarrow> pydict \<Rightarrow> (effective_ssh \<times> string \<times> string) bact" where
  "confirm_checks w p h =
     abind (trusted_of w h) (\<lambda>t. case t of
       None \<Rightarrow> araise (api ''stale-preview'' ''trust changed since preview; request a new preview'')
     | Some trusted \<Rightarrow>
         if trusted \<noteq> pv_fingerprint p then araise (api ''stale-preview'' ''trust changed since preview; request a new preview'')
         else abind (descriptor_of w h) (\<lambda>d.
           abind (resolve_for w ''resolve-failed'' [] d) (\<lambda>e.
           if canonical_json (bw_ssh w) e \<noteq> canonical_json (bw_ssh w) (pv_effective p) then
             araise (api ''stale-preview'' ''effective SSH changed; request a new preview'')
           else abind (ask (bw_seat w)) (\<lambda>sw.
             abind (probe_linger w (sc_exec_v1 (sw_scripts sw)) d e) (\<lambda>linger.
             if consent_digest w h e trusted linger \<noteq> pv_digest p then
               araise (api ''stale-preview'' ''digest mismatch; request a new preview'')
             else aret (e, trusted, linger))))))"

text \<open>The consent is stored with the host, and recorded as confirmed.\<close>

definition write_consent :: "bridge_world \<Rightarrow> int \<Rightarrow> string \<Rightarrow> pydict \<Rightarrow> pydict bact" where
  "write_consent w revision host_id c =
     abind (aset (\<lambda>s. s\<lparr>bs_confirmed := bs_confirmed s @ [(host_id, text_of (dict_get c ''digest''))]\<rparr>)) (\<lambda>_.
     mutate_config w revision (set_consent host_id (PDict c)))"

definition consent_confirm :: "bridge_world \<Rightarrow> string \<Rightarrow> pydict bact" where
  "consent_confirm w i = awith (\<lambda>s. case map_of (bs_previews s) i of
     None \<Rightarrow> araise (api ''unknown-preview'' ''preview not found or expired'')
   | Some p \<Rightarrow>
       abind (ask (bw_time w)) (\<lambda>now.
       if pv_expires p < now then araise (api ''unknown-preview'' ''preview not found or expired'')
       else abind (load_config w) (\<lambda>config.
         abind (at_revision (pv_revision p) ''stale-preview'' ''config changed since preview; request a new preview'' config) (\<lambda>_.
         abind (alift (find_host config (pv_host_id p))) (\<lambda>h.
         abind (confirm_checks w p h) (\<lambda>(e, trusted, linger).
         abind (ask (bw_utcnow w)) (\<lambda>moment.
         let c = consent_object (pv_digest p) moment (effective_sha256 (bw_ssh w) e) trusted in
         abind (alift (validate_consent ''consent'' (PDict c))) (\<lambda>_.
         abind (write_consent w (revision_of config) (pv_host_id p) c) (\<lambda>updated.
         abind (aset (\<lambda>s. s\<lparr>bs_previews := AList.delete i (bs_previews s), bs_revision := revision_of updated\<rparr>)) (\<lambda>_.
         aret [(''consented'', PBool True), (''config_revision'', dict_get updated ''revision'')]))))))))))"

section \<open>Operating a seat\<close>

definition seat_force_stop_challenge :: "bridge_world \<Rightarrow> string \<Rightarrow> pydict bact" where
  "seat_force_stop_challenge w seat_id =
     abind (load_config w) (\<lambda>config.
     abind (alift (find_seat config seat_id)) (\<lambda>(h, seat).
     if dict_get seat ''template'' = PStr ''control-script'' then
       araise (api ''unsupported'' ''unsupported: host-side intervention required'')
     else if dict_get h ''consent'' = PNone then araise (api ''no-consent'' ''re-confirmation required'')
     else abind (ask (bw_uuid w)) (\<lambda>i.
       abind (ask (bw_time w)) (\<lambda>now.
       abind (aset (\<lambda>s. s\<lparr>bs_forces := AList.update i \<lparr>fc_seat_id = seat_id, fc_template = text_of (dict_get seat ''template''),
           fc_revision = revision_of config, fc_digest = text_of (dict_get (as_dict (dict_get h ''consent'')) ''digest''),
           fc_expires = now + challenge_ttl_seconds\<rparr> (bs_forces s)\<rparr>)) (\<lambda>_.
       aret [(''confirmation_id'', PStr i), (''expires_at'', PFloat (now + challenge_ttl_seconds))])))))"

definition re_confirm :: "string \<Rightarrow> exn" where "re_confirm m = api ''re-confirmation required'' m"

text \<open>The checks before any operation: trust, consent, and nothing drifted since.\<close>

definition operate_checks :: "bridge_world \<Rightarrow> string \<Rightarrow> pydict \<Rightarrow> pydict \<Rightarrow> (ssh_descriptor \<times> string \<times> string \<times> string) bact" where
  "operate_checks w operation h seat =
     abind (trusted_of w h) (\<lambda>t. case t of
       None \<Rightarrow> araise (api ''untrusted'' ''host is not trusted'')
     | Some trusted \<Rightarrow>
         if dict_get h ''consent'' = PNone then araise (api ''no-consent'' ''re-confirmation required'')
         else let consent = as_dict (dict_get h ''consent'') in
         if dict_get seat ''template'' = PStr ''control-script'' \<and> operation = ''force-stop'' then
           araise (api ''unsupported'' ''unsupported: host-side intervention required'')
         else abind (descriptor_of w h) (\<lambda>d.
           abind (resolve_for w ''re-confirmation required'' ''ssh -G failed: '' d) (\<lambda>e.
           if dict_get consent ''ssh_effective_sha256'' \<noteq> PStr (effective_sha256 (bw_ssh w) e) then
             araise (re_confirm ''effective SSH drifted since consent'')
           else if dict_get consent ''host_key_fingerprint'' \<noteq> PStr trusted then
             araise (re_confirm ''trusted host key drifted since consent'')
           else abind (ask (bw_seat w)) (\<lambda>sw.
             abind (probe_linger w (sc_exec_v1 (sw_scripts sw)) d e) (\<lambda>linger.
             if dict_get consent ''digest'' \<noteq> PStr (consent_digest w h e trusted linger) then
               araise (re_confirm ''consent digest drifted'')
             else aret (d, trusted, linger, consent_digest w h e trusted linger))))))"

definition challenge_ok :: "force_challenge \<Rightarrow> rat \<Rightarrow> string \<Rightarrow> pydict \<Rightarrow> pydict \<Rightarrow> string \<Rightarrow> bool" where
  "challenge_ok c now seat_id seat config digest \<longleftrightarrow> \<not> fc_expires c < now \<and> fc_seat_id c = seat_id
     \<and> PStr (fc_template c) = dict_get seat ''template'' \<and> fc_revision c = revision_of config \<and> fc_digest c = digest"

definition use_challenge :: "bridge_world \<Rightarrow> string option \<Rightarrow> string \<Rightarrow> pydict \<Rightarrow> pydict \<Rightarrow> string \<Rightarrow> unit bact" where
  "use_challenge w confirmation seat_id seat config digest = awith (\<lambda>s.
     let i = (case confirmation of Some c \<Rightarrow> c | None \<Rightarrow> []) in
     case map_of (bs_forces s) i of
       None \<Rightarrow> araise (api ''challenge-required'' ''a valid force-stop challenge is required'')
     | Some c \<Rightarrow> abind (ask (bw_time w)) (\<lambda>now.
         if \<not> challenge_ok c now seat_id seat config digest then
           araise (api ''challenge-required'' ''a valid force-stop challenge is required'')
         else aset (\<lambda>s. s\<lparr>bs_forces := AList.delete i (bs_forces s)\<rparr>)))"

definition fresh_controller :: "seat_ctl \<Rightarrow> seat_ctl" where
  "fresh_controller c = c\<lparr>ct_operation := None, ct_gate_noop := False, ct_baseline := None, ct_last := None, ct_reconciliation := None,
     ct_deadline := 0, ct_poller := \<lparr>po_sequence = 0, po_observations = []\<rparr>\<rparr>"

definition live_context :: "pydict \<Rightarrow> pydict \<Rightarrow> ssh_descriptor \<Rightarrow> string \<Rightarrow> seat_context" where
  "live_context h seat d linger = (case host_port h of (host, port) \<Rightarrow>
     context_of h seat d host (case port of Some p \<Rightarrow> if p = 0 then 22 else p | None \<Rightarrow> 22) linger True)"

definition outcome_dict :: "operation_outcome \<Rightarrow> pydict" where
  "outcome_dict out = [(''state'', PStr (op_state out)), (''error'', case op_error out of None \<Rightarrow> PNone | Some e \<Rightarrow> PStr e),
     (''detail'', PStr (op_detail out)), (''occupant_models'', pstrs (op_models out))]"

text \<open>The call of the controller, recorded with the host and the digest just recomputed.\<close>

definition run_controller :: "bridge_world \<Rightarrow> string \<Rightarrow> pydict \<Rightarrow> seat_context \<Rightarrow> string \<Rightarrow> operation_outcome bact" where
  "run_controller w operation h cx digest =
     abind (alift (controller_for cx)) (\<lambda>_.
     abind (ask (bw_seat w)) (\<lambda>sw.
     abind (aset (\<lambda>s. s\<lparr>bs_ran := bs_ran s @ [(text_of (dict_get h ''id''), digest)],
        bs_seat := guard_state.more_update fresh_controller (bs_seat s)\<rparr>)) (\<lambda>_.
     on_seat (seat_step (bw_fuel w, sw, cx,
       if operation = ''start'' then Start else if operation = ''stop'' then Stop else ForceStop)))))"

definition operate_seat :: "bridge_world \<Rightarrow> string \<Rightarrow> string \<Rightarrow> string option \<Rightarrow> pydict \<Rightarrow> pydict \<times> pydict \<Rightarrow> pydict bact" where
  "operate_seat w seat_id operation confirmation config found = (case found of (h, seat) \<Rightarrow>
     abind (operate_checks w operation h seat) (\<lambda>(d, trusted, linger, digest).
     abind (if operation = ''force-stop'' then use_challenge w confirmation seat_id seat config digest else aret ()) (\<lambda>_.
     abind (run_controller w operation h (live_context h seat d linger) digest) (\<lambda>out.
     aret (outcome_dict out)))))"

definition seat_operate :: "bridge_world \<Rightarrow> string \<Rightarrow> string \<Rightarrow> string option \<Rightarrow> pydict bact" where
  "seat_operate w seat_id operation confirmation =
     (if operation \<notin> {''start'', ''stop'', ''force-stop''} then
        araise (api ''invalid-operation'' ''operation must be start, stop, or force-stop'')
      else abind (load_config w) (\<lambda>config.
        abind (alift (find_seat config seat_id)) (operate_seat w seat_id operation confirmation config)))"

definition seat_inspect :: "bridge_world \<Rightarrow> string \<Rightarrow> pydict bact" where
  "seat_inspect w seat_id =
     abind (load_config w) (\<lambda>config.
     abind (alift (find_seat config seat_id)) (\<lambda>(h, seat).
     abind (trusted_of w h) (\<lambda>t. case t of
       None \<Rightarrow> araise (api ''untrusted'' ''host is not trusted'')
     | Some trusted \<Rightarrow>
         abind (descriptor_of w h) (\<lambda>d.
         abind (resolve_for w ''resolve-failed'' [] d) (\<lambda>e.
         abind (ask (bw_seat w)) (\<lambda>sw.
         abind (probe_linger w (sc_exec_v1 (sw_scripts sw)) d e) (\<lambda>linger.
         abind (alift (controller_for (live_context h seat d linger))) (\<lambda>cx.
         abind (on_seat (seat_inspection sw cx)) (\<lambda>r.
         aret (AList.update ''linger'' (PStr linger) r))))))))))"

section \<open>Sessions\<close>

datatype bridge_call =
    DraftCreate string pydict "string option" "string option"
  | DraftUpdate string int pydict
  | ConfigApply string int int
  | ConfigDelete string string int
  | ConfigGet
  | SshProbe string int
  | SshTrust string
  | PreviewCreate string int
  | ConsentConfirm string
  | ForceStopChallenge string
  | SeatOperate string string "string option"
  | SeatInspect string

fun bridge_step :: "bridge_world \<Rightarrow> bridge_call \<Rightarrow> bridge_state \<Rightarrow> (exn + pydict) \<times> bridge_state" where
  "bridge_step w (DraftCreate kind d parent base) = draft_create w kind d parent base"
| "bridge_step w (DraftUpdate i r d) = draft_update w i r d"
| "bridge_step w (ConfigApply i r e) = config_apply w i r e"
| "bridge_step w (ConfigDelete k i e) = config_delete w k i e"
| "bridge_step w ConfigGet = config_get w"
| "bridge_step w (SshProbe h e) = ssh_probe w h e"
| "bridge_step w (SshTrust i) = ssh_trust w i"
| "bridge_step w (PreviewCreate h e) = preview_create w h e"
| "bridge_step w (ConsentConfirm i) = consent_confirm w i"
| "bridge_step w (ForceStopChallenge i) = seat_force_stop_challenge w i"
| "bridge_step w (SeatOperate i op c) = seat_operate w i op c"
| "bridge_step w (SeatInspect i) = seat_inspect w i"

definition bridge_init :: "seat_state \<Rightarrow> bridge_state" where
  "bridge_init s = \<lparr>bs_file = store_init, bs_trust = None, bs_revision = 0, bs_drafts = [], bs_previews = [], bs_trusts = [],
     bs_forces = [], bs_calls = 0, bs_seat = s, bs_confirmed = [], bs_ran = []\<rparr>"

section \<open>What a store holds\<close>

definition content :: "store_cfg \<Rightarrow> (pydict \<Rightarrow> bool) \<Rightarrow> store_state \<Rightarrow> bool" where
  "content cfg P f \<longleftrightarrow> (\<forall>raw. sf_file f = Some raw \<longrightarrow> (\<exists>d. raw = sc_dumps cfg d \<and> P d))"

lemma content_same: "content cfg P f \<Longrightarrow> same_files f g \<Longrightarrow> content cfg P g"
  by (simp add: content_def same_files_def)

context file_store
begin

text \<open>A fact of the stored object that the empty object has too is known of what is loaded.\<close>

lemma load_locked_content:
  assumes "codec_ok cfg" and "P (sc_empty cfg)" and "content cfg P f" and "load_locked cfg f = (r, g)"
  shows "content cfg P g \<and> (\<forall>d. r = Inr d \<longrightarrow> P d)"
  using load_locked_cases [OF assms(4)]
proof (elim disjE exE conjE)
  assume same: "sf_file g = sf_file f" and ok: "\<forall>d. r = Inr d \<longrightarrow> (\<exists>raw v. sf_file f = Some raw \<and> \<not> sc_limit cfg < int (length raw)
            \<and> sc_loads cfg raw = Inr v \<and> sc_validate cfg v = Inr d)"
  have "P d" if r: "r = Inr d" for d
  proof -
    obtain raw v where raw: "sf_file f = Some raw" "sc_loads cfg raw = Inr v" "sc_validate cfg v = Inr d" using ok r by blast
    then obtain d0 where "raw = sc_dumps cfg d0" "P d0" using assms(3) by (auto simp: content_def)
    then show ?thesis using raw assms(1) validate_same [OF raw(3)] by (simp add: codec_ok_def)
  qed
  then show ?thesis using same assms(3) by (simp add: content_def)
qed (use assms(2) in \<open>auto simp: content_def\<close>)

lemma store_load_content:
  assumes "codec_ok cfg" and "P (sc_empty cfg)" and "content cfg P f" and "store_load cfg f = (r, g)"
  shows "content cfg P g \<and> (\<forall>d. r = Inr d \<longrightarrow> P d)"
proof -
  obtain r1 f1 where r1: "os_call cfg f = (r1, f1)" by fastforce
  obtain r2 f2 where r2: "os_call cfg f1 = (r2, f2)" by fastforce
  have c: "content cfg P f1" "content cfg P f2"
    using assms(3) os_call_same [OF r1] os_call_same [OF r2] content_same by blast+
  show ?thesis
  proof (cases "(\<exists>e. r1 = Inl e) \<or> (\<exists>e. r2 = Inl e)")
    case True
    then show ?thesis using assms(4) r1 r2 c by (cases r1) (auto simp: store_load_def enter_lock_def)
  next
    case False
    then have "load_locked cfg f2 = (r, g)"
      using assms(4) r1 r2 by (cases r1; cases r2) (auto simp: store_load_def enter_lock_def)
    then show ?thesis using load_locked_content [where P = P, OF assms(1,2) c(2)] by blast
  qed
qed

lemma current_content:
  assumes "codec_ok cfg" and "P (sc_empty cfg)" and "content cfg P f" and "current f = (r, g)"
  shows "content cfg P g \<and> (\<forall>d. r = Inr d \<longrightarrow> P d)"
  using current_cases [OF assms(4)] load_locked_content [where P = P, OF assms(1,2)] assms(3) by blast

lemma store_mutate_content:
  assumes "codec_ok cfg" and "P (sc_empty cfg)" and "content cfg P f" and "store_mutate cfg e m f = (r, g)"
    and step: "\<And>d u n. P d \<Longrightarrow> m d = Inr u \<Longrightarrow> P (with_revision n u)"
  shows "content cfg P g"
  using assms(4)
proof (cases rule: mutate_cases)
  case (unchanged e' f1 q)
  have "content cfg P f1" using assms(3) unchanged(2) content_same by blast
  then show ?thesis using unchanged(3) current_content [where P = P, OF assms(1,2)] by blast
next
  case (written f1 f2 d u)
  have "content cfg P f1" using assms(3) written(1) content_same by blast
  then have "content cfg P f2" "P d" using current_content [where P = P, OF assms(1,2) _ written(2)] by blast+
  then show ?thesis using written(4,7) step by (auto simp: content_def)
qed

text \<open>A successful mutation leaves exactly what it returns, whatever was there before.\<close>

lemma store_mutate_result:
  assumes "store_mutate cfg e m f = (Inr x, g)"
  shows "\<exists>d u n. m d = Inr u \<and> x = with_revision n u \<and> sf_file g = Some (sc_dumps cfg x)"
  using assms
proof (cases rule: mutate_cases)
  case (written f1 f2 d u)
  then show ?thesis by blast
qed simp

end

section \<open>Consents\<close>

definition grant :: "pydict \<Rightarrow> string \<times> string" where
  "grant h = (text_of (dict_get h ''id''), text_of (dict_get (as_dict (dict_get h ''consent'')) ''digest''))"

definition consented :: "(string \<times> string) set \<Rightarrow> pydict \<Rightarrow> bool" where
  "consented C d \<longleftrightarrow> (\<forall>h \<in> set (hosts_of d). dict_get h ''consent'' = PNone \<or> grant h \<in> C)"

lemma consented_mono: "consented C d \<Longrightarrow> C \<subseteq> C' \<Longrightarrow> consented C' d"
  by (auto simp: consented_def)

lemma hosts_of_with_hosts [simp]: "hosts_of (with_hosts hs d) = hs"
  by (simp add: hosts_of_def with_hosts_def dict_get_def update_conv' as_list_def as_dict_def comp_def)

lemma hosts_of_with_revision [simp]: "hosts_of (with_revision n d) = hosts_of d"
  by (simp add: hosts_of_def with_revision_get)

lemma dict_get_set_key [simp]: "dict_get (set_key k v d) k' = (if k' = k then v else dict_get d k')"
  by (simp add: set_key_def dict_get_def update_conv')

lemma consented_empty: "consented C empty_seats_config"
  by (simp add: consented_def hosts_of_def empty_seats_config_def dict_get_def as_list_def)

lemma consented_revoke_all [simp]: "consented C (revoke_all d)"
  by (simp add: consented_def revoke_all_def)

lemma update_first_set: "x \<in> set (update_first P (\<lambda>_. y) xs) \<Longrightarrow> x \<in> set xs \<or> x = y"
  by (induction xs) (auto split: if_splits)

lemma find_host_Inr: "find_host d i = Inr h \<Longrightarrow> h \<in> set (hosts_of d) \<and> dict_get h ''id'' = PStr i"
  by (auto simp: find_host_def has_id_def find_Some_iff split: option.splits)

lemma set_consent_consented:
  assumes "consented C d" and "set_consent i c d = Inr u" and "c = PNone \<or> (\<exists>x. c = PDict x \<and> (i, text_of (dict_get x ''digest'')) \<in> C)"
  shows "consented C u"
proof -
  obtain h where h: "find_host d i = Inr h" "hosts_of u = update_first (has_id i) (\<lambda>_. set_key ''consent'' c h) (hosts_of d)"
    using assms(2) by (auto simp: set_consent_def edit_host_def)
  have "dict_get (set_key ''consent'' c h) ''consent'' = PNone \<or> grant (set_key ''consent'' c h) \<in> C"
    using find_host_Inr [OF h(1)] assms(3) by (auto simp: grant_def text_of_def as_dict_def)
  then show ?thesis using assms(1) h(2) by (auto simp: consented_def dest!: update_first_set)
qed

lemma apply_draft_revokes: "apply_draft d i c = Inr u \<Longrightarrow> consented C u"
  by (auto simp: apply_draft_def)

lemma delete_object_revokes: "delete_object k i c = Inr u \<Longrightarrow> consented C u"
  by (auto simp: delete_object_def)

lemma consented_with_revision [simp]: "consented C (with_revision n d) = consented C d"
  by (simp add: consented_def)

section \<open>The invariant of the bridge\<close>

definition bridge_inv :: "bridge_world \<Rightarrow> bridge_state \<Rightarrow> bool" where
  "bridge_inv w s \<longleftrightarrow> codec_ok (seat_store (bw_store w))
     \<and> content (seat_store (bw_store w)) (consented (set (bs_confirmed s))) (bs_file s)
     \<and> set (bs_ran s) \<subseteq> set (bs_confirmed s) \<and> idle (bs_seat s)"

definition bridge_rel :: "bridge_world \<Rightarrow> bridge_state \<Rightarrow> bridge_state \<Rightarrow> bool" where
  "bridge_rel w s s' \<longleftrightarrow> (bridge_inv w s \<longrightarrow> bridge_inv w s') \<and> bs_confirmed s' = bs_confirmed s \<and> bs_ran s' = bs_ran s"

lemma bridge_rel_preorder: "reflp (bridge_rel w)" "transp (bridge_rel w)"
  by (auto simp: bridge_rel_def intro!: reflpI transpI)

named_theorems bridge_keeps \<open>operations of the bridge that confirm and run nothing\<close>

lemma keeps_bridge_aset:
  assumes "\<And>s. bs_file (f s) = bs_file s \<and> bs_confirmed (f s) = bs_confirmed s \<and> bs_ran (f s) = bs_ran s \<and> (idle (bs_seat s) \<longrightarrow> idle (bs_seat (f s)))"
  shows "keeps (bridge_rel w) (aset f)"
  by (rule keeps_aset) (use assms in \<open>simp add: bridge_rel_def bridge_inv_def\<close>)

lemma keeps_ask [bridge_keeps]: "keeps (bridge_rel w) (ask f)"
  unfolding ask_def by (intro keeps_rules bridge_rel_preorder keeps_bridge_aset) simp

lemma wp_on_file: "wp (on_file m) Q E s \<longleftrightarrow>
   (case m (bs_file s) of (r, f) \<Rightarrow> (case r of Inl e \<Rightarrow> E e (s\<lparr>bs_file := f\<rparr>) | Inr x \<Rightarrow> Q x (s\<lparr>bs_file := f\<rparr>)))"
  by (auto simp: on_file_def wp_rules split: prod.split sum.split)

lemma load_config_post:
  assumes "codec_ok (seat_store (bw_store w))" and "content (seat_store (bw_store w)) (consented C) (bs_file s)"
  shows "wp (load_config w) (\<lambda>d s'. bridge_rel w s s' \<and> consented C d) (\<lambda>_. bridge_rel w s) s"
proof -
  obtain r f where r: "store_load (seat_store (bw_store w)) (bs_file s) = (r, f)" by fastforce
  have e: "consented D (sc_empty (seat_store (bw_store w)))" for D by (simp add: seat_store_def consented_empty)
  have "bridge_rel w s (s\<lparr>bs_file := f\<rparr>)"
    using seats.store_load_content [where P = "consented (set (bs_confirmed s))", OF assms(1) e _ r] by (auto simp: bridge_rel_def bridge_inv_def)
  moreover have "\<forall>d. r = Inr d \<longrightarrow> consented C d"
    using seats.store_load_content [where P = "consented C", OF assms(1) e assms(2) r] by blast
  ultimately show ?thesis unfolding load_config_def wp_on_file r by (cases r) auto
qed

lemma keeps_load_config [bridge_keeps]: "keeps (bridge_rel w) (load_config w)"
proof -
  have "bridge_rel w s (snd (load_config w s))" for s
  proof -
    obtain r f where r: "store_load (seat_store (bw_store w)) (bs_file s) = (r, f)" by fastforce
    have e: "consented D (sc_empty (seat_store (bw_store w)))" for D by (simp add: seat_store_def consented_empty)
    show ?thesis
      using seats.store_load_content [where P = "consented (set (bs_confirmed s))", OF _ e _ r] r
      by (cases r) (auto simp: load_config_def on_file_def bridge_rel_def bridge_inv_def)
  qed
  then show ?thesis by (simp add: keeps_def)
qed

lemma keeps_mutate_config:
  assumes "\<And>C d u. consented C d \<Longrightarrow> m d = Inr u \<Longrightarrow> consented C u"
  shows "keeps (bridge_rel w) (mutate_config w e m)"
proof -
  have "keeps (bridge_rel w) (on_file (store_mutate (seat_store (bw_store w)) e m))"
    unfolding keeps_def
  proof
    fix s :: bridge_state
    obtain r f where r: "store_mutate (seat_store (bw_store w)) e m (bs_file s) = (r, f)" by fastforce
    have em: "consented D (sc_empty (seat_store (bw_store w)))" for D by (simp add: seat_store_def consented_empty)
    have "content (seat_store (bw_store w)) (consented D) f"
      if "codec_ok (seat_store (bw_store w))" "content (seat_store (bw_store w)) (consented D) (bs_file s)" for D
      using seats.store_mutate_content [where P = "consented D", OF that(1) em that(2) r] assms by simp
    then show "bridge_rel w s (snd (on_file (store_mutate (seat_store (bw_store w)) e m) s))"
      using r by (cases r) (auto simp: on_file_def bridge_rel_def bridge_inv_def)
  qed
  then show ?thesis unfolding mutate_config_def by (intro keeps_rules bridge_rel_preorder)
qed

lemma keeps_on_seat:
  assumes "\<And>s. idle s \<Longrightarrow> idle (snd (m s))"
  shows "keeps (bridge_rel w) (on_seat m)"
proof -
  have "bridge_rel w s (snd (on_seat m s))" for s
    using assms [of "bs_seat s"] by (cases "m (bs_seat s)") (auto simp: on_seat_def bridge_rel_def bridge_inv_def)
  then show ?thesis by (simp add: keeps_def)
qed

lemma idle_kept: "keeps ctl_kept m \<Longrightarrow> idle s \<Longrightarrow> idle (snd (m s))"
  by (auto simp: keeps_def ctl_kept_def guard_same_def idle_def in_phase_def)

lemma keeps_reads [bridge_keeps]:
  "keeps (bridge_rel w) (trusted_of w h)" "keeps (bridge_rel w) (descriptor_of w h)" "keeps (bridge_rel w) (at_revision n c m d)"
  "keeps (bridge_rel w) (run_probe w)" "keeps (bridge_rel w) (resolve_for w c b x)" "keeps (bridge_rel w) (probe_linger w v x e)"
  unfolding trusted_of_def descriptor_of_def at_revision_def run_probe_def resolve_for_def probe_linger_def Let_def
  by (intro keeps_rules bridge_rel_preorder bridge_keeps)+

lemma keeps_find_draft [bridge_keeps]: "keeps (bridge_rel w) (find_draft w i r)"
  unfolding find_draft_def by (intro keeps_rules bridge_rel_preorder bridge_keeps)

lemma keeps_seat_lines [bridge_keeps]: "keeps (bridge_rel w) (seat_lines w sw h d ss)"
proof (induction ss)
  case Nil
  show ?case unfolding seat_lines.simps by (intro keeps_rules bridge_rel_preorder)
next
  case (Cons s ss)
  then show ?case
    unfolding seat_lines.simps Let_def
    by (intro keeps_rules bridge_rel_preorder keeps_on_seat idle_kept [OF keeps_operation_argv])
qed

lemma keeps_preview_text [bridge_keeps]: "keeps (bridge_rel w) (preview_text w sw h d e t l)"
  unfolding preview_text_def by (intro keeps_rules bridge_rel_preorder bridge_keeps)

lemma keeps_checks [bridge_keeps]:
  "keeps (bridge_rel w) (confirm_checks w p h)" "keeps (bridge_rel w) (operate_checks w op h x)"
  "keeps (bridge_rel w) (use_challenge w c i x d g)"
  unfolding confirm_checks_def operate_checks_def use_challenge_def Let_def
  by (intro keeps_rules bridge_rel_preorder bridge_keeps keeps_bridge_aset; simp)+

lemma keeps_plain_calls [bridge_keeps]:
  "keeps (bridge_rel w) (draft_create w kind f p b)" "keeps (bridge_rel w) (draft_update w i r f)" "keeps (bridge_rel w) (config_get w)"
  "keeps (bridge_rel w) (ssh_probe w h n)" "keeps (bridge_rel w) (preview_create w h n)"
  "keeps (bridge_rel w) (seat_force_stop_challenge w i)" "keeps (bridge_rel w) (seat_inspect w i)"
  unfolding draft_create_def draft_update_def config_get_def ssh_probe_def preview_create_def seat_force_stop_challenge_def seat_inspect_def
  by (intro keeps_rules bridge_rel_preorder bridge_keeps keeps_bridge_aset keeps_on_seat idle_kept [OF keeps_inspection]; simp)+

lemma keeps_config_calls [bridge_keeps]:
  "keeps (bridge_rel w) (config_apply w i r n)" "keeps (bridge_rel w) (config_delete w k i n)" "keeps (bridge_rel w) (ssh_trust w i)"
  unfolding config_apply_def config_delete_def ssh_trust_def
  by (intro keeps_rules bridge_rel_preorder bridge_keeps keeps_bridge_aset keeps_mutate_config;
      simp add: apply_draft_revokes delete_object_revokes set_consent_consented)+

definition inv_rel :: "bridge_world \<Rightarrow> bridge_state \<Rightarrow> bridge_state \<Rightarrow> bool" where
  "inv_rel w s s' \<longleftrightarrow> (bridge_inv w s \<longrightarrow> bridge_inv w s')"

lemma inv_rel_preorder: "reflp (inv_rel w)" "transp (inv_rel w)"
  by (auto simp: inv_rel_def intro!: reflpI transpI)

lemma keeps_inv: "keeps (bridge_rel w) m \<Longrightarrow> keeps (inv_rel w) m"
  by (erule keeps_mono) (simp add: bridge_rel_def inv_rel_def)

lemma keeps_write_consent: "keeps (inv_rel w) (write_consent w e i c)"
  unfolding keeps_def
proof
  fix s :: bridge_state
  let ?s = "s\<lparr>bs_confirmed := bs_confirmed s @ [(i, text_of (dict_get c ''digest''))]\<rparr>"
  obtain r f where r: "store_mutate (seat_store (bw_store w)) e (set_consent i (PDict c)) (bs_file s) = (r, f)" by fastforce
  let ?C = "set (bs_confirmed ?s)"
  have "bridge_inv w (?s\<lparr>bs_file := f\<rparr>)" if "bridge_inv w s"
  proof -
    have "content (seat_store (bw_store w)) (consented ?C) (bs_file s)"
      using that consented_mono [of "set (bs_confirmed s)" _ ?C] unfolding bridge_inv_def content_def by auto blast
    moreover have "consented ?C u" if "consented ?C d" "set_consent i (PDict c) d = Inr u" for d u
      using that by (rule set_consent_consented) simp
    ultimately have "content (seat_store (bw_store w)) (consented ?C) f"
      using seats.store_mutate_content [where P = "consented ?C", OF _ _ _ r] that consented_empty
      by (simp add: bridge_inv_def seat_store_def)
    then show ?thesis using that by (auto simp: bridge_inv_def)
  qed
  then show "inv_rel w s (snd (write_consent w e i c s))"
    using r by (cases r) (auto simp: write_consent_def mutate_config_def acatch_def on_file_def inv_rel_def)
qed

lemma keeps_consent_confirm: "keeps (inv_rel w) (consent_confirm w i)"
  unfolding consent_confirm_def Let_def
  by (intro keeps_rules inv_rel_preorder keeps_write_consent bridge_keeps [THEN keeps_inv] keeps_bridge_aset [THEN keeps_inv]; simp)

section \<open>What reaches a controller\<close>

lemma run_controller_inv:
  assumes "(text_of (dict_get h ''id''), g) \<in> set (bs_confirmed s)" and "bridge_inv w s"
  shows "wp (run_controller w op h cx g) (\<lambda>_. bridge_inv w) (\<lambda>_. bridge_inv w) s"
proof -
  have fresh: "idle (guard_state.more_update fresh_controller t) = idle t" for t :: seat_state
    by (simp add: idle_def in_phase_def)
  have seat: "wp (on_seat (seat_step k)) (\<lambda>_. bridge_inv w) (\<lambda>_. bridge_inv w) t" if "bridge_inv w t" for k t
    by (rule wp_mono [OF wp_keeps [OF keeps_on_seat]]) (use that seat_step_idle in \<open>auto simp: bridge_rel_def\<close>)
  have "bridge_inv w (s\<lparr>bs_calls := n, bs_ran := bs_ran s @ [(text_of (dict_get h ''id''), g)],
      bs_seat := guard_state.more_update fresh_controller (bs_seat s)\<rparr>)" for n
    using assms fresh by (simp add: bridge_inv_def)
  note run = seat [OF this]
  show ?thesis
    unfolding run_controller_def ask_def wp_abind wp_awith wp_aset wp_aret wp_alift
    by (cases "controller_for cx") (simp_all add: assms(2) run del: if_split seat_step.simps)
qed

lemma wp_bind_kept:
  assumes "keeps (bridge_rel w) m" and "bridge_rel w s t"
    and "\<And>x t'. bridge_rel w s t' \<Longrightarrow> wp (f x) Q (\<lambda>_. bridge_rel w s) t'"
  shows "wp (abind m f) Q (\<lambda>_. bridge_rel w s) t"
proof (rule wp_bindI)
  have "bridge_rel w s t'" if "bridge_rel w t t'" for t'
    using assms(2) that bridge_rel_preorder(2) by (blast dest: transpD)
  then show "wp m (\<lambda>_. bridge_rel w s) (\<lambda>_. bridge_rel w s) t"
    by (intro wp_mono [OF wp_keeps [OF assms(1)]])
qed (rule assms(3))

lemma operate_checks_post:
  "wp (operate_checks w op h x) (\<lambda>(d, t, l, g) s'. bridge_rel w s s' \<and> dict_get h ''consent'' \<noteq> PNone \<and> snd (grant h) = g)
     (\<lambda>_. bridge_rel w s) s"
proof -
  have "bridge_rel w s s" using bridge_rel_preorder(1) by (rule reflpD)
  then show ?thesis
    unfolding operate_checks_def
    by (auto simp: wp_araise wp_aret wp_if Let_def grant_def text_of_def split: option.split intro!: wp_bind_kept bridge_keeps)
qed

lemma find_seat_Inr: "find_seat d i = Inr (h, x) \<Longrightarrow> h \<in> set (hosts_of d) \<and> x \<in> set (seats_of h) \<and> has_id i x"
proof (cases "[(h, s). h \<leftarrow> hosts_of d, s \<leftarrow> seats_of h, has_id i s]")
  case (Cons p ps)
  assume "find_seat d i = Inr (h, x)"
  then have "(h, x) \<in> set [(h, s). h \<leftarrow> hosts_of d, s \<leftarrow> seats_of h, has_id i s]"
    unfolding Cons find_seat_def by simp
  then show ?thesis by auto
qed (simp add: find_seat_def)

lemma seat_operate_inv:
  assumes "bridge_inv w s"
  shows "wp (seat_operate w i op c) (\<lambda>_. bridge_inv w) (\<lambda>_. bridge_inv w) s"
proof -
  let ?C = "bs_confirmed s"
  have inv: "bridge_inv w t \<and> bs_confirmed t = ?C" if "bridge_rel w s t" for t
    using that assms by (simp add: bridge_rel_def)
  let ?P = "\<lambda>t. bridge_inv w t \<and> bs_confirmed t = ?C"
  have kept: "wp m (\<lambda>_. ?P) (\<lambda>_. bridge_inv w) t" if "keeps (bridge_rel w) m" "?P t" for m :: "'b bact" and t
    by (rule wp_mono [OF wp_keeps [OF that(1)]]) (use that(2) in \<open>auto simp: bridge_rel_def\<close>)
  have run: "wp (abind (if op = ''force-stop'' then use_challenge w c i seat config g else aret ()) (\<lambda>_.
      abind (run_controller w op h cx g) (\<lambda>out. aret (outcome_dict out)))) (\<lambda>_. bridge_inv w) (\<lambda>_. bridge_inv w) t"
    if "?P t" "(text_of (dict_get h ''id''), g) \<in> set ?C" for seat config h cx g t
  proof (rule wp_bindI [where R = "\<lambda>_. ?P"])
    show "wp (if op = ''force-stop'' then use_challenge w c i seat config g else aret ()) (\<lambda>_. ?P) (\<lambda>_. bridge_inv w) t"
      by (rule kept [OF _ that(1)]) (intro keeps_rules bridge_keeps bridge_rel_preorder)
  qed (unfold wp_abind wp_aret, rule run_controller_inv, use that(2) in auto)
  have seat: "wp (operate_seat w i op c config (h, x)) (\<lambda>_. bridge_inv w) (\<lambda>_. bridge_inv w) t"
    if "?P t" "consented (set ?C) config" "find_seat config i = Inr (h, x)" for h x config t
  proof -
    have "grant h \<in> set ?C \<or> dict_get h ''consent'' = PNone" using that(2) find_seat_Inr [OF that(3)] by (auto simp: consented_def)
    then show ?thesis unfolding operate_seat_def prod.case
      by (intro wp_bindI [OF wp_mono [OF operate_checks_post]])
        (use that(1) run in \<open>auto simp: grant_def bridge_rel_def\<close>)
  qed
  have "codec_ok (seat_store (bw_store w))" "content (seat_store (bw_store w)) (consented (set ?C)) (bs_file s)"
    using assms by (auto simp: bridge_inv_def)
  from load_config_post [OF this] have load: "wp (load_config w) (\<lambda>d s'. ?P s' \<and> consented (set ?C) d) (\<lambda>_. bridge_inv w) s"
    by (rule wp_mono) (auto simp: inv)
  have "wp (abind (load_config w) (\<lambda>config. abind (alift (find_seat config i)) (operate_seat w i op c config)))
      (\<lambda>_. bridge_inv w) (\<lambda>_. bridge_inv w) s"
    by (rule wp_bindI [OF load]) (auto simp: wp_abind [of "alift _"] wp_alift split: sum.split intro!: seat)
  then show ?thesis
    unfolding seat_operate_def wp_if wp_araise using assms by (simp only: if_cancel split: if_split)
qed

lemma bridge_step_inv: "bridge_inv w s \<Longrightarrow> bridge_inv w (snd (bridge_step w call s))"
proof -
  assume inv: "bridge_inv w s"
  have kept: "bridge_inv w (snd (m s))" if "keeps (inv_rel w) m" for m :: "pydict bact"
    using that inv by (simp add: keeps_def inv_rel_def)
  note plain = keeps_plain_calls [THEN keeps_inv, THEN kept] keeps_config_calls [THEN keeps_inv, THEN kept]
  show ?thesis
  proof (cases call)
    case (SeatOperate i op c)
    then show ?thesis using seat_operate_inv [OF inv, of i op c]
      by (auto simp: wp_def split: prod.splits sum.splits)
  qed (simp_all add: plain kept [OF keeps_consent_confirm])
qed

interpretation bridge: guarded_machine "bridge_step w" "bridge_inv w" for w
  by unfold_locales (rule bridge_step_inv)

section \<open>Refusals\<close>

text \<open>A configuration without consents lets no operation through.\<close>

lemma operate_refused:
  assumes "codec_ok (seat_store (bw_store w))" and "content (seat_store (bw_store w)) (consented {}) (bs_file s)"
  shows "wp (seat_operate w i op c) (\<lambda>_ _. False) (\<lambda>_. bridge_rel w s) s"
proof -
  have refused: "wp (operate_seat w i op c config (h, x)) (\<lambda>_ _. False) (\<lambda>_. bridge_rel w s) t"
    if "bridge_rel w s t" "dict_get h ''consent'' = PNone" for config h x t
    unfolding operate_seat_def prod.case
  proof (rule wp_bindI)
    show "wp (operate_checks w op h x) (\<lambda>_ _. False) (\<lambda>_. bridge_rel w s) t"
      by (rule wp_mono [OF operate_checks_post]) (use that bridge_rel_preorder(2) in \<open>auto dest: transpD\<close>)
  qed simp
  have found: "dict_get h ''consent'' = PNone" if "consented {} config" "find_seat config i = Inr (h, x)" for config h x
    using that find_seat_Inr by (auto simp: consented_def)
  have body: "wp (abind (load_config w) (\<lambda>config. abind (alift (find_seat config i)) (operate_seat w i op c config)))
      (\<lambda>_ _. False) (\<lambda>_. bridge_rel w s) s"
    by (rule wp_bindI [OF load_config_post [OF assms]])
      (auto simp: wp_abind [of "alift _"] wp_alift split: sum.split intro!: refused dest: found)
  have "bridge_rel w s s" using bridge_rel_preorder(1) by (rule reflpD)
  then show ?thesis
    unfolding seat_operate_def wp_if wp_araise using body by (simp only: if_cancel split: if_split)
qed

text \<open>What a call that succeeds leaves on file.\<close>

lemma mutate_config_file:
  assumes "\<And>d u. m d = Inr u \<Longrightarrow> consented {} u"
  shows "wp (mutate_config w e m) (\<lambda>_ s'. content (seat_store (bw_store w)) (consented {}) (bs_file s')) (\<lambda>_ _. True) s"
proof -
  obtain r f where r: "store_mutate (seat_store (bw_store w)) e m (bs_file s) = (r, f)" by fastforce
  have "content (seat_store (bw_store w)) (consented {}) f" if x: "r = Inr x" for x
    using seats.store_mutate_result [of "bw_store w" e m "bs_file s" x f] assms r x by (auto simp: content_def)
  then show ?thesis
    unfolding mutate_config_def wp_acatch wp_on_file r by (cases r) (auto simp: wp_rules)
qed

lemma wp_bind_any:
  assumes "\<And>x s. wp (f x) Q (\<lambda>_ _. True) s"
  shows "wp (abind m f) Q (\<lambda>_ _. True) s"
  by (rule wp_bindI [OF wp_True]) (rule assms)

lemma edit_file:
  assumes "call = ConfigApply i r n \<or> call = ConfigDelete i' i n"
  shows "wp (bridge_step w call) (\<lambda>_ s'. content (seat_store (bw_store w)) (consented {}) (bs_file s')) (\<lambda>_ _. True) s"
proof -
  have tail: "wp (abind (mutate_config w e m) (\<lambda>u. abind (aset (g u)) (\<lambda>_. aret (h u))))
      (\<lambda>_ s'. content (seat_store (bw_store w)) (consented {}) (bs_file s')) (\<lambda>_ _. True) s"
    if "\<And>d u. m d = Inr u \<Longrightarrow> consented {} u" "\<And>u s. bs_file (g u s) = bs_file s" for e m g h s
    by (rule wp_bindI [OF mutate_config_file]) (use that in \<open>auto simp: wp_rules\<close>)
  show ?thesis
    using assms
  proof
    assume "call = ConfigApply i r n"
    then show ?thesis by (simp add: config_apply_def) (rule wp_bind_any, rule wp_bind_any, rule tail; simp add: apply_draft_revokes)
  next
    assume "call = ConfigDelete i' i n"
    then show ?thesis
      by (simp add: config_delete_def wp_araise) (intro conjI impI; rule tail; simp add: delete_object_revokes)
  qed
qed

section \<open>Challenges\<close>

definition calm :: "bridge_state \<Rightarrow> bridge_state \<Rightarrow> bool" where
  "calm s s' \<longleftrightarrow> bs_forces s' = bs_forces s \<and> bs_ran s' = bs_ran s"

lemma calm_preorder: "reflp calm" "transp calm"
  by (auto simp: calm_def intro!: reflpI transpI)

lemma keeps_calm_world: "keeps calm (ask f)" "keeps calm (on_file m)"
  by (auto simp: keeps_def calm_def ask_def on_file_def split: prod.split sum.split)

lemma keeps_calm: "keeps calm (load_config w)" "keeps calm (operate_checks w op h x)"
  unfolding load_config_def operate_checks_def trusted_of_def descriptor_of_def resolve_for_def probe_linger_def Let_def
  by (intro keeps_rules calm_preorder keeps_calm_world)+

lemma run_controller_post:
  "wp (run_controller w op h cx g) (\<lambda>_ s'. bs_forces s' = bs_forces s \<and> bs_ran s' = bs_ran s @ [(text_of (dict_get h ''id''), g)])
     (\<lambda>_ _. True) s"
  unfolding run_controller_def ask_def on_seat_def wp_abind wp_awith wp_aset wp_aret wp_alift wp_case_prod
  by (auto split: sum.split prod.split)

section \<open>Theorems\<close>

text \<open>
  C2: Over any sequence of calls of the bridge, with any answers of the disk, the network, ssh and
  the clock: every operation that reached a seat's controller was on a host for which a consent
  was confirmed with the very digest the service recomputed just before running it, and the
  local lock is free after every call.
\<close>

theorem consent_required:
  assumes "codec_ok (seat_store (bw_store w))" and "idle t" and "s = snd (run_ops (bridge_step w) calls (bridge_init t))"
  shows "set (bs_ran s) \<subseteq> set (bs_confirmed s) \<and> idle (bs_seat s)"
proof -
  have "bridge_inv w (bridge_init t)"
    using assms by (simp add: bridge_inv_def bridge_init_def content_def store_init_def)
  then have "bridge_inv w s" unfolding assms(3) by (rule bridge.run_inv)
  then show ?thesis by (simp add: bridge_inv_def)
qed

text \<open>
  C10: An applied draft or a deletion revokes every consent: whatever was consented before, the next
  operation on any seat is refused and nothing reaches a controller.
\<close>

theorem edits_revoke:
  assumes "codec_ok (seat_store (bw_store w))" and "call = ConfigApply i r n \<or> call = ConfigDelete kind i n"
    and "bridge_step w call s = (Inr out, s')"
  shows "\<exists>e s''. bridge_step w (SeatOperate seat op c) s' = (Inl e, s'') \<and> bs_ran s'' = bs_ran s'"
proof -
  have "content (seat_store (bw_store w)) (consented {}) (bs_file s')"
    using wp_Inr [OF edit_file [OF assms(2)] assms(3)] .
  from operate_refused [OF assms(1) this, of seat op c] show ?thesis
    by (auto simp: wp_def bridge_rel_def split: prod.splits sum.splits)
qed


section \<open>A consented seat\<close>

definition demo_hex :: string where "demo_hex = replicate 64 (CHR ''a'')"
definition demo_fingerprint :: string where "demo_fingerprint = ''SHA256:'' @ replicate 43 (CHR ''A'')"

definition demo_unit_seat :: pydict where
  "demo_unit_seat = [(''id'', PStr ''00000000-0000-4000-8000-000000000002''), (''label'', PStr ''s''), (''template'', PStr ''systemd-user''),
     (''model_id'', PStr ''m''), (''port'', PInt 8000), (''endpoint_host'', PStr ''h''), (''ready_timeout'', PInt 30), (''unit'', PStr ''m.service'')]"

definition demo_host :: pydict where
  "demo_host = [(''id'', PStr ''00000000-0000-4000-8000-000000000001''), (''label'', PStr ''web''),
     (''ssh'', PDict [(''kind'', PStr ''alias''), (''alias'', PStr ''web'')]), (''transport'', PDict [(''kind'', PStr ''https'')]),
     (''consent'', PDict (consent_object demo_hex ''2026-01-01T00:00:00Z'' demo_hex demo_fingerprint)),
     (''seats'', PList [PDict demo_unit_seat])]"

definition demo_config :: pydict where
  "demo_config = [(''schema'', PStr schema_seats), (''revision'', PInt 1), (''hosts'', PList [PDict demo_host])]"

definition demo_bridge_world :: bridge_world where
  "demo_bridge_world = \<lparr>bw_store = \<lparr>se_ip = (\<lambda>_. None), se_dumps = (\<lambda>_. []), se_loads = (\<lambda>_. Inr (PDict demo_config)), se_faults = (\<lambda>_. None)\<rparr>,
     bw_ssh = demo_ssh_env\<lparr>sx_sha := (\<lambda>_. demo_hex)\<rparr>, bw_known_hosts = ''kh'', bw_time = (\<lambda>_. 0), bw_uuid = (\<lambda>_. []), bw_utcnow = (\<lambda>_. []),
     bw_resolve = (\<lambda>_. \<lparr>rw_which = Some ''ssh'', rw_realpath = ''/ssh'', rw_bytes = Inr [], rw_version = Exited 0 [] [],
       rw_run = (\<lambda>_. Exited 0 ''port 22'' [])\<rparr>),
     bw_exec = (\<lambda>_ _. SpawnError []), bw_probe = (\<lambda>_. two_line_probe), bw_digest = (\<lambda>_. demo_hex),
     bw_seat = (\<lambda>_. demo_seat_world\<lparr>sw_guard := demo_guard_world\<lparr>gw_symlink := True\<rparr>\<rparr>), bw_fuel = 1\<rparr>"

definition demo_bridge_state :: bridge_state where
  "demo_bridge_state = (bridge_init demo_seat_state)\<lparr>bs_file := store_init\<lparr>sf_file := Some ''x''\<rparr>,
     bs_trust := Some (''web '' @ demo_fingerprint), bs_confirmed := [(''00000000-0000-4000-8000-000000000001'', demo_hex)],
     bs_forces := [(''c'', \<lparr>fc_seat_id = ''00000000-0000-4000-8000-000000000002'', fc_template = ''systemd-user'', fc_revision = 1,
       fc_digest = demo_hex, fc_expires = 300\<rparr>)]\<rparr>"

lemma demo_config_valid: "validate_seats_config (\<lambda>_. None) (PDict demo_config) = Inr demo_config"
  by code_simp

lemma demo_found: "find_seat demo_config ''00000000-0000-4000-8000-000000000002'' = Inr (demo_host, demo_unit_seat)"
  by code_simp

lemma demo_trusted: "known_fingerprint (bw_ssh demo_bridge_world) (Some (''web '' @ demo_fingerprint)) (fst (host_port demo_host)) (snd (host_port demo_host))
    = Inr (Some demo_fingerprint)"
  by code_simp

lemma demo_descriptor: "from_config (bw_ssh demo_bridge_world) (host_ssh demo_host) ''kh''
   = Inr \<lparr>sd_destination = ''web'', sd_port = None, sd_key_path = None, sd_known_hosts = ''kh''\<rparr>"
  by code_simp

lemma demo_pairs: "parse_ssh_g_output (bw_ssh demo_bridge_world) ''port 22'' = Inr [(''port'', ''22'')]"
  by code_simp


lemma demo_load:
  "bs_file s = store_init\<lparr>sf_file := Some ''x''\<rparr> \<Longrightarrow> \<exists>f. load_config demo_bridge_world s = (Inr demo_config, s\<lparr>bs_file := f\<rparr>)"
  using demo_config_valid
  by (simp add: load_config_def on_file_def store_load_def enter_lock_def os_call_def load_locked_def
      seat_store_def demo_bridge_world_def store_init_def max_config_bytes_def Let_def) blast

lemma demo_resolve: "\<exists>e. resolve_effective_ssh (bw_ssh demo_bridge_world) (bw_resolve demo_bridge_world n) d = Inr e \<and> effective_user e = None"
  using demo_pairs
  by (simp add: resolve_effective_ssh_def ssh_binary_info_def demo_bridge_world_def max_ssh_output_def effective_user_def)

lemma demo_checks:
  assumes "bs_trust s = Some (''web '' @ demo_fingerprint)"
  shows "\<exists>d n. operate_checks demo_bridge_world ''force-stop'' demo_host demo_unit_seat s
    = (Inr (d, demo_fingerprint, ''unknown'', demo_hex), s\<lparr>bs_calls := n\<rparr>)"
proof -
  let ?w = demo_bridge_world
  obtain e where e: "resolve_effective_ssh (bw_ssh ?w) (bw_resolve ?w (bs_calls s)) \<lparr>sd_destination = ''web'', sd_port = None, sd_key_path = None,
      sd_known_hosts = ''kh''\<rparr> = Inr e" "effective_user e = None" using demo_resolve by blast
  have t: "trusted_of ?w demo_host s = (Inr (Some demo_fingerprint), s)"
    using demo_trusted assms by (auto simp: trusted_of_def split: prod.split)
  have d: "descriptor_of ?w demo_host = aret \<lparr>sd_destination = ''web'', sd_port = None, sd_key_path = None, sd_known_hosts = ''kh''\<rparr>"
    using demo_descriptor by (rule_tac ext) (simp add: descriptor_of_def demo_bridge_world_def)
  have c: "dict_get demo_host ''consent'' = PDict (consent_object demo_hex ''2026-01-01T00:00:00Z'' demo_hex demo_fingerprint)"
    "dict_get demo_unit_seat ''template'' = PStr ''systemd-user''" "effective_sha256 (bw_ssh ?w) e = demo_hex"
    "consent_digest ?w h e f l = demo_hex" for h f l
    by (simp_all add: demo_host_def demo_unit_seat_def dict_get_def effective_sha256_def consent_digest_def demo_bridge_world_def)
  have k: "dict_get (consent_object g m x f) ''ssh_effective_sha256'' = PStr x" "dict_get (consent_object g m x f) ''host_key_fingerprint'' = PStr f"
    "dict_get (consent_object g m x f) ''digest'' = PStr g" for g m x f
    by (simp_all add: consent_object_def dict_get_def)
  show ?thesis
    using e t d c by (simp add: operate_checks_def resolve_for_def probe_linger_def ask_def as_dict_def Let_def k) blast
qed

lemma demo_run: "\<exists>out t. run_controller demo_bridge_world ''force-stop'' demo_host (live_context demo_host demo_unit_seat d ''unknown'') g s = (Inr out, t)"
proof -
  have "seat_str (live_context demo_host demo_unit_seat d ''unknown'') ''template'' = ''systemd-user''"
    by (simp add: live_context_def context_of_def host_port_def demo_host_def demo_unit_seat_def host_ssh_def as_dict_def dict_get_def seat_str_def)
  then show ?thesis
    by (simp add: run_controller_def controller_for_def seat_templates_def ask_def on_seat_def demo_bridge_world_def seat_force_stop_def
        run_guarded_def set_ctl_def monotonic_def acquire_def acatch_def may_raise_def demo_seat_world_def demo_guard_world_def is_guard_error_def Let_def)
qed


theorem consent_required_witness:
  "set (bs_ran (snd (run_ops (bridge_step (demo_bridge_world\<lparr>bw_store := demo_store_env\<rparr>))
     [ConfigDelete ''host'' ''x'' 0, SeatOperate ''x'' ''start'' None] (bridge_init demo_seat_state))))
   \<subseteq> set (bs_confirmed (snd (run_ops (bridge_step (demo_bridge_world\<lparr>bw_store := demo_store_env\<rparr>))
     [ConfigDelete ''host'' ''x'' 0, SeatOperate ''x'' ''start'' None] (bridge_init demo_seat_state))))"
  using consent_required [OF _ demo_idle refl, of "demo_bridge_world\<lparr>bw_store := demo_store_env\<rparr>"
      "[ConfigDelete ''host'' ''x'' 0, SeatOperate ''x'' ''start'' None]"] demo_codec_ok by simp


theorem edits_revoke_witness:
  "\<exists>e s' s''. bridge_step (demo_bridge_world\<lparr>bw_store := demo_store_env\<rparr>) (SeatOperate ''x'' ''start'' None) s' = (Inl e, s'')"
proof -
  let ?w = "demo_bridge_world\<lparr>bw_store := demo_store_env\<rparr>" and ?f = "store_init\<lparr>sf_file := Some []\<rparr>"
  have d: "sc_dumps (seat_store demo_store_env) empty_seats_config = []" "sc_faults (seat_store demo_store_env) = (\<lambda>_. None)"
    "sc_limit (seat_store demo_store_env) = 1024 * 1024"
    by (simp_all add: seat_store_def demo_store_env_def demo_dumps_def max_config_bytes_def)
  have r: "revision_of empty_seats_config = 0" using seats.empty_revision by (simp add: seat_store_def)
  have v: "sc_validate (seat_store demo_store_env) (PDict empty_seats_config) = Inr empty_seats_config"
    using seats.empty_valid [of demo_store_env] by (simp add: seat_store_def)
  have m: "delete_object ''host'' ''x'' empty_seats_config = Inr empty_seats_config" by code_simp
  obtain f where "store_mutate (seat_store demo_store_env) 0 (delete_object ''host'' ''x'') ?f = (Inr (with_revision 1 empty_seats_config), f)"
    using seats.mutate_then_load [of demo_store_env ?f empty_seats_config "delete_object ''host'' ''x''" empty_seats_config]
      demo_codec_ok v m d r by auto
  then obtain out s' where del: "bridge_step ?w (ConfigDelete ''host'' ''x'' 0) ((bridge_init demo_seat_state)\<lparr>bs_file := ?f\<rparr>) = (Inr out, s')"
    by (simp add: config_delete_def mutate_config_def acatch_def on_file_def bridge_init_def)
  have "codec_ok (seat_store (bw_store ?w))" using demo_codec_ok by simp
  from edits_revoke [OF this disjI2 [OF refl] del] show ?thesis by blast
qed

end
