(* ===== verification/Spec2Isabelle.thy ===== *)
theory Spec2Isabelle
  imports Enforcer Worker Broker Orchestrator At_Most_Once Recovery_Gap Command Seat_Service
begin

text \<open>
  Testudo runs agent workloads in confined workers and, through its bridge, operates model
  servers ("seats") on remote hosts over ssh. This library models the parts of
  \<open>src/testudo\<close> that decide what may run, and proves what those decisions guarantee.

  \<^bold>\<open>The parts, their theories and what is shown.\<close>

  \<^item> \<open>Prelude\<close>: Python values, exceptions as values, the state-and-exception actions
    \<open>aret\<close>, \<open>abind\<close>, \<open>acatch\<close>, \<open>afinally\<close> in which every stateful method is written, string
    operations, and the locale \<open>guarded_machine\<close>: a step function and an invariant give facts
    of all sessions. \<open>Wp\<close>: weakest preconditions of actions, and relations an action keeps.

  \<^item> \<open>Policy\<close> (\<open>runtime/policy.py\<close>), \<open>Enforcer\<close> (\<open>runtime/policy_enforcer.py\<close>): policy declarations
    and the enforcer that grants launches, egress, writes, mounts and publications. Egress stays
    within the allow-lists and the byte budget of the session, writes and mounts stay confined,
    publication needs a launch, and nothing is granted after a wipe.

  \<^item> \<open>Capability\<close> (\<open>runtime/capability.py\<close>, \<open>runtime/signing.py\<close>), \<open>Worker\<close> (\<open>runtime/worker.py\<close>): signed tokens, and
    the lifecycle in which every terminal path revokes, kills and wipes, once.

  \<^item> \<open>Transport\<close>, \<open>Broker\<close> (\<open>runtime/transport.py\<close>, \<open>runtime/broker.py\<close>): length-prefixed
    frames, which are read back as written, and the host side of a guest session, which refines
    the protocol given as an inductive step relation.

  \<^item> \<open>Orchestrator\<close> (\<open>orchestrator/executor.py\<close>, \<open>registry.py\<close>, \<open>workflow.py\<close>): the order of workflow steps and their run.

  \<^item> \<open>Disk\<close>, \<open>Assignment\<close>, \<open>Service\<close> (\<open>runtime/assignment.py\<close>): requests, events and receipts,
    and the assignment service over a disk each of whose calls may fail or kill the process.
    \<open>At_Most_Once\<close>: no assignment is launched twice and receipts bind their events, over any
    restarts and failures; \<open>Recovery_Gap\<close>: the one write whose failure forgets an identity.
    \<open>Command\<close> (\<open>runtime/assignment_protocol.py\<close>): the authenticated command boundary in front of
    the service. This theory composes both: nothing a client sends launches an envelope twice.

  \<^item> \<open>Seat_Fields\<close> (\<open>seats/validation.py\<close>, \<open>seats/render.py\<close>): the field classes and the quoting;
    a shell, given as a reference lexer, reads exactly the rendered words.

  \<^item> \<open>Seat_Config\<close>, \<open>Seat_Store\<close> (\<open>seats/config.py\<close>): the closed schemas and the two stores. The
    locale \<open>file_store\<close> states what a schema gives a store and is interpreted for both; stores
    are never torn, revisions increase, and mutations are read back.

  \<^item> \<open>Seat_Ssh\<close> (\<open>seats/ssh.py\<close>): every ssh command line against a reference reading of
    OpenSSH's option rules, the key probe and the trusted keys. \<open>Seat_Poll\<close>
    (\<open>seats/transport.py\<close>, \<open>seats/address_classes.py\<close>, \<open>seats/lifetime.py\<close>): observations of an
    endpoint and the linger gate.

  \<^item> \<open>Seat_Guard\<close> (\<open>seats/guard.py\<close>): the local lock and the remote guard's protocol, recorded as a
    trace and checked by a state machine. The locale \<open>guard_client\<close> states what a controller
    owes the guard and what it gains; \<open>Seat_Control\<close> (\<open>seats/controller.py\<close>) interprets it for the
    three templates. Every GO follows a positive ownership poll under both locks, the lock is
    free afterwards, and "serving" is only reported on evidence.

  \<^item> \<open>Seat_Service\<close> (\<open>seats/service.py\<close>, \<open>seats/consent.py\<close>): drafts, trust, previews, consents and
    operations. Nothing reaches a controller without a consent confirmed for the same digest,
    and every edit of the configuration revokes all consents.

  \<^bold>\<open>How the code is represented.\<close> Objects are records, methods are functions on them that return
  the exception or the result with the new state. Python numbers are \<open>int\<close> and times \<open>rat\<close>.
  JSON text, hashes, HMAC, signatures, IP canonicalisation, subprocess answers, the network, the
  clock and fresh identifiers are fields of an environment record, given by the number of the
  call where they change; what a theorem needs of them is a hypothesis (for instance
  \<open>codec_ok\<close>: a printed object is read back).

  \<^bold>\<open>Loops and fuel.\<close> Structural recursion where the loop runs over data. The graph visit has
  \<open>Suc (length steps)\<close> units of fuel, shown to be enough. Loops that wait for the world (worker
  wait, flock, guard protocol and drain, reconciliation, key probe, frame reading) take fuel as
  an argument and raise \<open>out of fuel\<close> without it; safety theorems hold for every fuel, and
  termination is stated as such (\<open>reconcile_ends\<close>: fuel for the readings until the deadline).

  \<^bold>\<open>Limits.\<close> Lock regions are atomic steps; threads interleave between them. A crash keeps what
  was written before it: losing unflushed data is not modelled. Writes of the trusted-keys file
  do not fail. Two fields of the service's state record confirmed consents and the operations
  that reached a controller; no operation reads them.

  \<^bold>\<open>Not modelled.\<close> Container and Firecracker backends, the runner and publisher, attestation,
  the HTTP bridge, command line, connectors, model adapters and MCP servers drive other programs
  or packages; the sanitisers and permission rules are tables of regular expressions; seat
  credentials and discovery ask the keyring and the network interfaces. The remote shell scripts
  are constants passed to the controllers.
\<close>

section \<open>Sessions of the boundary and the service together\<close>

text \<open>What one call at the boundary keeps of the service, while the process lives.\<close>

definition live_rel :: "svc_env \<Rightarrow> (string \<Rightarrow> string) \<Rightarrow> cmd_state \<Rightarrow> cmd_state \<Rightarrow> bool" where
  "live_rel env issued s s' \<longleftrightarrow> (svc_inv env issued (cs_svc s) \<and> sv_alive (cs_svc s)
     \<longrightarrow> svc_inv env issued (cs_svc s') \<and> sv_alive (cs_svc s'))"

text \<open>A boundary whose lines are the nonces of start commands.\<close>

definition demo_boundary :: cmd_env where
  "demo_boundary = \<lparr>hmac_hex = (\<lambda>k m. m),
     json_loads = (\<lambda>line. Inr (PDict [(''operation'', PStr ''start''), (''nonce'', PStr line), (''request_id'', PStr ''r''),
       (''credential'', PStr (credential_message line ''r'' ''s'')), (''assignment'', PDict [])])),
     assignment_of = (\<lambda>_. Inr demo_request), service_env = demo_env\<rparr>"

definition demo_secret :: session_secret where
  "demo_secret = \<lparr>se_session_id = ''s'', se_secret = replicate 32 (CHR ''k''), se_provisioning = ''session:s''\<rparr>"

section \<open>The service behind the boundary\<close>

lemma live_rel_preorder: "reflp (live_rel env issued)" "transp (live_rel env issued)"
  by (auto simp: live_rel_def intro!: reflpI transpI)

lemma keeps_live_same: "keeps same_svc m \<Longrightarrow> keeps (live_rel env issued) m"
  unfolding keeps_def live_rel_def same_svc_def by metis

lemma live_on_svc:
  assumes "\<And>s. svc_inv env issued s \<Longrightarrow> sv_alive s \<Longrightarrow>
      svc_rel env issued s (snd (m s)) \<or> started env issued s (snd (m s))"
  shows "keeps (live_rel env issued) (on_svc m)"
proof -
  have "svc_inv env issued (snd (m v)) \<and> sv_alive (snd (m v))" if inv: "svc_inv env issued v" and al: "sv_alive v" for v
    using assms [OF inv al]
  proof
    assume rel: "svc_rel env issued v (snd (m v))"
    then have "sv_alive (snd (m v))" using inv al by (simp add: svc_rel_def svc_inv_def)
    then show ?thesis using svc_inv_rel [OF inv rel] by simp
  next
    assume st: "started env issued v (snd (m v))"
    then have "sv_alive (snd (m v))" using al by (auto simp: started_def)
    then show ?thesis using svc_inv_started [OF inv al st] by simp
  qed
  then show ?thesis
    unfolding keeps_def live_rel_def on_svc_def by (simp add: case_prod_unfold)
qed

lemma live_keeps: "keeps (svc_rel env issued) m \<Longrightarrow> keeps (live_rel env issued) (on_svc m)"
  by (rule live_on_svc) (simp add: keeps_def)

lemma keeps_svc_reads:
  "keeps (svc_rel env issued) (observe i)" "keeps (svc_rel env issued) (receipt_of i)"
  "keeps (svc_rel env issued) (reconcile e)"
  unfolding observe_def receipt_of_def reconcile_def
  by (intro keeps_rules keeps_get_run svc_rel_preorder;
      auto split: list.split intro!: keeps_aret keeps_svc_error svc_rel_preorder)+

lemma live_start: "keeps (live_rel env issued) (on_svc (start env r))"
proof (rule live_on_svc)
  fix s
  assume "svc_inv env issued s"
  then have "honest env issued" "safe env issued s" by (simp_all add: svc_inv_def)
  then show "svc_rel env issued s (snd (start env r s)) \<or> started env issued s (snd (start env r s))"
    by (rule start_rel)
qed

lemma live_dispatch: "keeps (live_rel (service_env env) issued) (dispatch env c)"
  unfolding dispatch_def Let_def op_start_def op_observe_def op_cancel_def op_receipt_def op_terminalize_def
    op_reconcile_def require_only_def
  by (intro keeps_rules keeps_refuse live_start live_keeps keeps_svc_reads keeps_cancel keeps_terminalize live_rel_preorder)

lemma live_admit: "keeps (live_rel env issued) (admit_nonce v n)"
  by (rule keeps_live_same [OF keeps_admit_nonce(2)])

lemma live_serve: "keeps (live_rel (service_env env) issued) (serve_line env verifier line)"
  unfolding serve_line_def handle_command_def answer_error_def Let_def
  by (auto split: sum.split pyval.split option.split
      intro!: keeps_rules keeps_refuse live_rel_preorder keeps_verify live_admit live_dispatch)

lemma boundary_svc_inv:
  assumes "svc_inv (service_env env) issued (cs_svc s)"
  shows "svc_inv (service_env env) issued (cs_svc (snd (boundary_step env c s)))"
proof (cases c)
  case (BFrame line)
  obtain r s' where r: "serve_line env (cs_verifier s) line s = (r, s')" by fastforce
  show ?thesis
    using keepsD [OF live_serve r, of issued] assms BFrame r svc_inv_dead
    by (cases r) (auto simp: frame_step_def live_rel_def)
next
  case (BService o')
  then show ?thesis
    using svc_inv_step [OF assms, of o'] by (auto simp: forget_session_def split: prod.splits)
qed (use assms in \<open>auto simp: provision_session_secret_def revoke_session_secret_def
    verifier_init_def refuse_def abind_def Let_def split: if_splits\<close>)

interpretation boundary: guarded_machine "boundary_step env" "\<lambda>s. svc_inv (service_env env) issued (cs_svc s)" for env issued
  by unfold_locales (rule boundary_svc_inv)



end
